(* ===== verification/Virt_Prelude.thy ===== *)
theory Virt_Prelude
  imports Main "HOL-Library.Word"
begin

text \<open>
  Shared vocabulary of the development: the C integer types, the errno values the code returns,
  the search loops over fixed arrays of slots (\<open>first_idx\<close>), the interface of a table of slots
  that carries at most one live slot per key (locale \<open>keyed_slots\<close>), and the arithmetic of
  rounding an offset up to a power of two, first on words and then on \<open>nat\<close>.
\<close>

unbundle bit_operations_syntax

named_theorems slot_simps \<open>rewriting of live keys and of first-match searches\<close>
named_theorems word_to_nat \<open>moving comparisons and sums of words to nat\<close>

section \<open>Integers and errors\<close>

type_synonym u8 = "8 word"
type_synonym u32 = "32 word"
type_synonym u64 = "64 word"

abbreviation (input) ENOENT :: int where "ENOENT \<equiv> 2"
abbreviation (input) EIO :: int where "EIO \<equiv> 5"
abbreviation (input) ENOMEM :: int where "ENOMEM \<equiv> 12"
abbreviation (input) EFAULT :: int where "EFAULT \<equiv> 14"
abbreviation (input) EBUSY :: int where "EBUSY \<equiv> 16"
abbreviation (input) EEXIST :: int where "EEXIST \<equiv> 17"
abbreviation (input) ENODEV :: int where "ENODEV \<equiv> 19"
abbreviation (input) EINVAL :: int where "EINVAL \<equiv> 22"
abbreviation (input) ENOSPC :: int where "ENOSPC \<equiv> 28"
abbreviation (input) ERANGE :: int where "ERANGE \<equiv> 34"

lemma unat_ucast_32_64 [simp, word_to_nat]: "unat (ucast (x::u32) :: u64) = unat x"
proof -
  have "unat x < 2 ^ 32" using unsigned_less [of x] by simp
  then show ?thesis by (simp add: unsigned_ucast_eq take_bit_nat_eq_self)
qed

lemma ucast_less_32_64 [simp]: "(ucast (a::u32) :: u64) < ucast b \<longleftrightarrow> a < b"
  by (simp add: word_less_nat_alt)

lemma ucast_le_32_64 [simp]: "(ucast (a::u32) :: u64) \<le> ucast b \<longleftrightarrow> a \<le> b"
  by (simp add: word_le_nat_alt)

lemma unat_u32_less: "unat (x::u32) < 2 ^ 32"
  using unsigned_less [of x] by simp

lemma unat_u64_less: "unat (x::u64) < 2 ^ 64"
  using unsigned_less [of x] by simp

lemma unat_add_32: "unat a + unat b < 2 ^ 32 \<Longrightarrow> unat ((a::u32) + b) = unat a + unat b"
  using unat_add_lem [of a b] by simp

lemma unat_sum_32_64 [word_to_nat]:
  "unat ((ucast (a::u32) :: u64) + ucast (b::u32)) = unat a + unat b"
proof -
  have "unat a + unat b < 2 ^ 64"
    using unat_u32_less [of a] unat_u32_less [of b] by simp
  then show ?thesis by (simp add: unat_add_lem [THEN iffD1])
qed

section \<open>First-match searches over an array of slots\<close>

text \<open>
  \<open>for (i = 0; i < N; i++) if (P(a[i])) return &a[i];\<close> is \<open>first_idx P a\<close>: the index of the
  slot, \<open>None\<close> for the NULL pointer.
\<close>

fun first_idx :: "('a \<Rightarrow> bool) \<Rightarrow> 'a list \<Rightarrow> nat option" where
  "first_idx P [] = None"
| "first_idx P (x # xs) = (if P x then Some 0 else map_option Suc (first_idx P xs))"

lemma first_idx_None [slot_simps]: "first_idx P xs = None \<longleftrightarrow> (\<forall>x \<in> set xs. \<not> P x)"
  by (induction xs) auto

lemma first_idx_SomeD: "first_idx P xs = Some i \<Longrightarrow> i < length xs \<and> P (xs ! i)"
  by (induction xs arbitrary: i) (auto split: if_splits)

lemma first_idx_least: "first_idx P xs = Some i \<Longrightarrow> j < i \<Longrightarrow> \<not> P (xs ! j)"
proof (induction xs arbitrary: i j)
  case (Cons x xs)
  then show ?case by (cases j) (auto split: if_splits)
qed simp

lemma first_idx_exI: "x \<in> set xs \<Longrightarrow> P x \<Longrightarrow> \<exists>i. first_idx P xs = Some i"
  using first_idx_None [of P xs] by (cases "first_idx P xs") auto

lemma first_idx_mem: "first_idx P xs = Some i \<Longrightarrow> xs ! i \<in> set xs"
  by (simp add: first_idx_SomeD)

section \<open>Tables of slots with one live slot per key\<close>

definition live_keys :: "('a \<Rightarrow> bool) \<Rightarrow> ('a \<Rightarrow> 'k) \<Rightarrow> 'a list \<Rightarrow> 'k list" where
  "live_keys used key t = map key (filter used t)"

definition unique_keys :: "('a \<Rightarrow> bool) \<Rightarrow> ('a \<Rightarrow> 'k) \<Rightarrow> 'a list \<Rightarrow> bool" where
  "unique_keys used key t = distinct (live_keys used key t)"

lemma set_live_keys [slot_simps]: "k \<in> set (live_keys used key t) \<longleftrightarrow> (\<exists>x \<in> set t. used x \<and> key x = k)"
  by (auto simp: live_keys_def)

lemma live_keys_Nil [slot_simps]: "live_keys used key [] = []"
  by (simp add: live_keys_def)

lemma live_keys_Cons [slot_simps]:
  "live_keys used key (x # t) = (if used x then key x # live_keys used key t else live_keys used key t)"
  by (simp add: live_keys_def)

lemma live_keys_update_subset:
  "set (live_keys used key (t[i := x])) \<subseteq> set (live_keys used key t) \<union> (if used x then {key x} else {})"
proof -
  have *: "set (t[i := x]) \<subseteq> insert x (set t)" by (rule set_update_subset_insert)
  show ?thesis
  proof
    fix k
    assume "k \<in> set (live_keys used key (t[i := x]))"
    then obtain y where y: "y \<in> set (t[i := x])" "used y" "key y = k" by (auto simp: set_live_keys)
    with * have "y = x \<or> y \<in> set t" by blast
    with y show "k \<in> set (live_keys used key t) \<union> (if used x then {key x} else {})"
      by (auto simp: set_live_keys)
  qed
qed

lemma live_keys_update_same:
  "\<lbrakk> i < length t; used x = used (t ! i); used x \<Longrightarrow> key x = key (t ! i) \<rbrakk>
   \<Longrightarrow> live_keys used key (t[i := x]) = live_keys used key t"
  by (induction t arbitrary: i) (auto simp: slot_simps nth_Cons' list_update.simps split: nat.splits)

lemma live_keys_replicate: "\<not> used e \<Longrightarrow> live_keys used key (replicate n e) = []"
  by (simp add: live_keys_def filter_False)

lemma unique_keys_nth:
  "\<lbrakk> unique_keys used key t; i < length t; j < length t; used (t ! i); used (t ! j);
     key (t ! i) = key (t ! j) \<rbrakk> \<Longrightarrow> i = j"
proof (induction t arbitrary: i j)
  case (Cons x t)
  have tl: "unique_keys used key t" using Cons.prems(1) by (simp add: unique_keys_def slot_simps split: if_splits)
  have fresh: "used x \<Longrightarrow> m < length t \<Longrightarrow> used (t ! m) \<Longrightarrow> key (t ! m) \<noteq> key x" for m
    using Cons.prems(1) by (auto simp: unique_keys_def slot_simps)
  show ?case
  proof (cases i)
    case 0
    then show ?thesis using Cons.prems fresh by (cases j) auto
  next
    case (Suc i')
    then show ?thesis using Cons.prems fresh [of i'] Cons.IH [OF tl] by (cases j) auto
  qed
qed simp

lemma unique_keysI:
  "(\<And>i j. i < length t \<Longrightarrow> j < length t \<Longrightarrow> used (t ! i) \<Longrightarrow> used (t ! j) \<Longrightarrow> key (t ! i) = key (t ! j) \<Longrightarrow> i = j)
   \<Longrightarrow> unique_keys used key t"
proof (induction t)
  case (Cons x t)
  have "unique_keys used key t"
  proof (rule Cons.IH)
    fix i j
    assume "i < length t" "j < length t" "used (t ! i)" "used (t ! j)" "key (t ! i) = key (t ! j)"
    then show "i = j" using Cons.prems [of "Suc i" "Suc j"] by simp
  qed
  moreover have "key x \<notin> set (live_keys used key t)" if "used x"
  proof
    assume "key x \<in> set (live_keys used key t)"
    then obtain y where "y \<in> set t" "used y" "key y = key x" by (auto simp: set_live_keys)
    then obtain j where "j < length t" "used (t ! j)" "key (t ! j) = key x" by (metis in_set_conv_nth)
    then show False using Cons.prems [of 0 "Suc j"] that by simp
  qed
  ultimately show ?case by (simp add: unique_keys_def live_keys_Cons)
qed (simp add: unique_keys_def live_keys_Nil)

lemma unique_keys_replace:
  assumes "unique_keys used key t" "\<And>j. j < length t \<Longrightarrow> j \<noteq> i \<Longrightarrow> used (t ! j) \<Longrightarrow> key (t ! j) \<noteq> key x"
  shows "unique_keys used key (t[i := x])"
proof (rule unique_keysI)
  fix a b
  assume h: "a < length (t[i := x])" "b < length (t[i := x])" "used (t[i := x] ! a)" "used (t[i := x] ! b)"
    "key (t[i := x] ! a) = key (t[i := x] ! b)"
  show "a = b"
    using h assms(2) [of a] assms(2) [of b] unique_keys_nth [OF assms(1), of a b]
    by (cases "a = i"; cases "b = i") auto
qed

lemma unique_keys_clear: "unique_keys used key t \<Longrightarrow> \<not> used x \<Longrightarrow> unique_keys used key (t[i := x])"
proof (induction t arbitrary: i)
  case (Cons y t)
  show ?case
  proof (cases i)
    case 0
    then show ?thesis using Cons.prems by (simp add: unique_keys_def slot_simps split: if_splits)
  next
    case (Suc j)
    have "unique_keys used key (t[j := x])"
      using Cons by (simp add: unique_keys_def slot_simps split: if_splits)
    then show ?thesis
      using Cons.prems Suc live_keys_update_subset [of used key t j x]
      by (auto simp: unique_keys_def live_keys_Cons split: if_splits)
  qed
qed simp

lemma unique_keys_insert:
  "\<lbrakk> unique_keys used key t; i < length t; \<not> used (t ! i); key x \<notin> set (live_keys used key t) \<rbrakk>
   \<Longrightarrow> unique_keys used key (t[i := x])"
proof (induction t arbitrary: i)
  case (Cons y t)
  show ?case
  proof (cases i)
    case 0
    then show ?thesis using Cons.prems by (auto simp: unique_keys_def live_keys_Cons split: if_splits)
  next
    case (Suc j)
    have "unique_keys used key (t[j := x])"
      using Cons Suc by (auto simp: unique_keys_def live_keys_Cons split: if_splits)
    then show ?thesis
      using Cons.prems Suc live_keys_update_subset [of used key t j x]
      by (auto simp: unique_keys_def live_keys_Cons split: if_splits)
  qed
qed simp

lemma unique_keys_update_same:
  "\<lbrakk> unique_keys used key t; i < length t; used x = used (t ! i); used x \<Longrightarrow> key x = key (t ! i) \<rbrakk>
   \<Longrightarrow> unique_keys used key (t[i := x])"
  using live_keys_update_same [of i t used x key] by (simp add: unique_keys_def)

text \<open>
  The contract of a table of slots keyed by \<open>key\<close>: a slot is claimed by overwriting a free one
  with a slot of a key that no live slot has, and released by overwriting it with the all-zero
  slot \<open>nil\<close>. A client sees the table as the map from keys to slots that \<open>slot_of\<close> gives.
\<close>

definition slot_of :: "('a \<Rightarrow> bool) \<Rightarrow> ('a \<Rightarrow> 'k) \<Rightarrow> 'a list \<Rightarrow> 'k \<Rightarrow> 'a option" where
  "slot_of used key t k = find (\<lambda>x. used x \<and> key x = k) t"

lemma option_iffI: "(\<And>y. a = Some y \<longleftrightarrow> b = Some y) \<Longrightarrow> a = b"
  by (cases a; cases b) auto

lemma find_first_idx: "find P xs = map_option ((!) xs) (first_idx P xs)"
  by (induction xs) (auto simp: option.map_comp comp_def)

locale keyed_slots =
  fixes used :: "'a \<Rightarrow> bool" and key :: "'a \<Rightarrow> 'k" and nil :: 'a
  assumes nil_free: "\<not> used nil"
begin

lemma find_key_eq:
  assumes "unique_keys used key t" "i < length t" "used (t ! i)"
  shows "first_idx (\<lambda>x. used x \<and> key x = key (t ! i)) t = Some i"
proof -
  obtain j where j: "first_idx (\<lambda>x. used x \<and> key x = key (t ! i)) t = Some j"
    using assms first_idx_exI [of "t ! i" t] by force
  then show ?thesis
    using first_idx_SomeD [OF j] unique_keys_nth [OF assms(1), of j i] assms by auto
qed

lemma slot_of_live:
  "unique_keys used key t \<Longrightarrow> i < length t \<Longrightarrow> used (t ! i) \<Longrightarrow> slot_of used key t (key (t ! i)) = Some (t ! i)"
  by (simp add: slot_of_def find_first_idx find_key_eq)

lemma slot_of_None: "slot_of used key t k = None \<longleftrightarrow> k \<notin> set (live_keys used key t)"
  by (auto simp: slot_of_def find_None_iff set_live_keys)

lemma slot_of_SomeD: "slot_of used key t k = Some x \<Longrightarrow> x \<in> set t \<and> used x \<and> key x = k"
  by (auto simp: slot_of_def find_Some_iff)

lemma claim_unique:
  assumes "unique_keys used key t" "first_idx (\<lambda>x. \<not> used x) t = Some i"
    and "slot_of used key t (key x) = None"
  shows "unique_keys used key (t[i := x])"
  using assms first_idx_SomeD [OF assms(2)] by (auto intro: unique_keys_insert simp: slot_of_None)

lemma slot_of_claim:
  assumes "unique_keys used key t" "i < length t" "\<not> used (t ! i)" "used x"
    and "slot_of used key t (key x) = None"
  shows "slot_of used key (t[i := x]) = (slot_of used key t)(key x \<mapsto> x)"
proof
  fix k
  have u: "unique_keys used key (t[i := x])"
    using assms by (intro unique_keys_insert) (simp_all add: slot_of_None)
  show "slot_of used key (t[i := x]) k = ((slot_of used key t)(key x \<mapsto> x)) k"
  proof (cases "k = key x")
    case True
    then show ?thesis using slot_of_live [OF u, of i] assms by simp
  next
    case False
    then have "(used (t[i := x] ! j) \<and> key (t[i := x] ! j) = k) = (used (t ! j) \<and> key (t ! j) = k)"
      if "j < length t" for j using that assms by (cases "j = i") auto
    then have "map (\<lambda>y. used y \<and> key y = k) (t[i := x]) = map (\<lambda>y. used y \<and> key y = k) t"
      by (intro nth_equalityI) auto
    moreover have "first_idx P xs = first_idx (\<lambda>b. b) (map P xs)" for P and xs :: "'a list"
      by (induction xs) auto
    ultimately have fi: "first_idx (\<lambda>y. used y \<and> key y = k) (t[i := x])
        = first_idx (\<lambda>y. used y \<and> key y = k) t" by metis
    have "j \<noteq> i" if "first_idx (\<lambda>y. used y \<and> key y = k) t = Some j" for j
      using first_idx_SomeD [OF that] assms by auto
    then show ?thesis using False
      by (cases "first_idx (\<lambda>y. used y \<and> key y = k) t") (auto simp: slot_of_def find_first_idx fi)
  qed
qed

lemma slot_of_release:
  assumes "unique_keys used key t" "i < length t" "used (t ! i)"
  shows "slot_of used key (t[i := nil]) (key (t ! i)) = None"
proof -
  have "\<not> (\<exists>y \<in> set (t[i := nil]). used y \<and> key y = key (t ! i))"
  proof
    assume "\<exists>y \<in> set (t[i := nil]). used y \<and> key y = key (t ! i)"
    then obtain j where j: "j < length t" "used (t[i := nil] ! j)" "key (t[i := nil] ! j) = key (t ! i)"
      by (auto simp: in_set_conv_nth)
    then show False using unique_keys_nth [OF assms(1), of j i] assms nil_free by (cases "j = i") auto
  qed
  then show ?thesis by (auto simp: slot_of_None set_live_keys)
qed

lemma slot_of_iff:
  assumes "unique_keys used key t"
  shows "slot_of used key t k = Some x \<longleftrightarrow> (\<exists>i < length t. t ! i = x \<and> used x \<and> key x = k)"
proof
  assume "slot_of used key t k = Some x"
  then show "\<exists>i < length t. t ! i = x \<and> used x \<and> key x = k" by (metis slot_of_SomeD in_set_conv_nth)
next
  assume "\<exists>i < length t. t ! i = x \<and> used x \<and> key x = k"
  then show "slot_of used key t k = Some x" using slot_of_live [OF assms] by blast
qed

lemma slot_of_replace:
  assumes "unique_keys used key t" "i < length t" "used (t ! i)" "used x" "key x = key (t ! i)"
  shows "slot_of used key (t[i := x]) = (slot_of used key t)(key x \<mapsto> x)"
proof
  fix k
  have u: "unique_keys used key (t[i := x])" using assms by (intro unique_keys_update_same) auto
  show "slot_of used key (t[i := x]) k = ((slot_of used key t)(key x \<mapsto> x)) k"
  proof (cases "k = key x")
    case True
    then show ?thesis using slot_of_live [OF u, of i] assms by simp
  next
    case False
    have "slot_of used key (t[i := x]) k = Some y \<longleftrightarrow> slot_of used key t k = Some y" for y
      unfolding slot_of_iff [OF u] slot_of_iff [OF assms(1)]
      using False assms by (metis length_list_update nth_list_update_eq nth_list_update_neq)
    then show ?thesis using False by (auto intro: option_iffI)
  qed
qed

text \<open>Clearing the slots that satisfy \<open>P\<close> removes exactly their keys.\<close>

lemma prune_unique:
  assumes "unique_keys used key t"
  shows "unique_keys used key (map (\<lambda>x. if P x then nil else x) t)"
proof (rule unique_keysI)
  fix i j
  let ?t = "map (\<lambda>x. if P x then nil else x) t"
  assume "i < length ?t" "j < length ?t" "used (?t ! i)" "used (?t ! j)" "key (?t ! i) = key (?t ! j)"
  then show "i = j" using unique_keys_nth [OF assms, of i j] nil_free by (auto split: if_splits)
qed

lemma slot_of_prune:
  assumes "unique_keys used key t"
  shows "slot_of used key (map (\<lambda>x. if P x then nil else x) t) k =
    (case slot_of used key t k of None \<Rightarrow> None | Some x \<Rightarrow> if P x then None else Some x)"
proof (rule option_iffI)
  fix y
  let ?t = "map (\<lambda>x. if P x then nil else x) t"
  let ?r = "case slot_of used key t k of None \<Rightarrow> None | Some x \<Rightarrow> if P x then None else Some x"
  show "slot_of used key ?t k = Some y \<longleftrightarrow> ?r = Some y"
  proof
    assume "slot_of used key ?t k = Some y"
    then obtain i where i: "i < length t" "?t ! i = y" "used y" "key y = k"
      unfolding slot_of_iff [OF prune_unique [OF assms]] by auto
    then have "\<not> P (t ! i)" "t ! i = y" using nil_free by (auto split: if_splits)
    then show "?r = Some y" using i slot_of_live [OF assms, of i] by auto
  next
    assume r: "?r = Some y"
    then have "slot_of used key t k = Some y" "\<not> P y" by (auto split: option.splits if_splits)
    then show "slot_of used key ?t k = Some y"
      unfolding slot_of_iff [OF prune_unique [OF assms]] slot_of_iff [OF assms] by auto
  qed
qed

lemma slot_of_release_map:
  assumes "unique_keys used key t" "i < length t" "used (t ! i)"
  shows "slot_of used key (t[i := nil]) = (slot_of used key t)(key (t ! i) := None)"
proof
  fix k
  have "t[i := nil] ! j = map (\<lambda>x. if used x \<and> key x = key (t ! i) then nil else x) t ! j" if "j < length t" for j
    using that assms unique_keys_nth [OF assms(1) that assms(2)] by (cases "j = i") auto
  then have "t[i := nil] = map (\<lambda>x. if used x \<and> key x = key (t ! i) then nil else x) t"
    by (intro nth_equalityI) simp_all
  then have "slot_of used key (t[i := nil]) k =
      (case slot_of used key t k of None \<Rightarrow> None | Some x \<Rightarrow> if used x \<and> key x = key (t ! i) then None else Some x)"
    by (simp only: slot_of_prune [OF assms(1)])
  then show "slot_of used key (t[i := nil]) k = ((slot_of used key t)(key (t ! i) := None)) k"
    using slot_of_SomeD [of t k] by (cases "slot_of used key t k") auto
qed

lemma release_unique: "unique_keys used key t \<Longrightarrow> unique_keys used key (t[i := nil])"
  using nil_free by (rule unique_keys_clear [rotated])

lemma reset_unique: "unique_keys used key (replicate n nil)"
  using nil_free by (simp add: unique_keys_def live_keys_replicate)

end

section \<open>Pairwise facts about an array\<close>

lemma sorted_wrt_update:
  assumes "sorted_wrt R xs" "\<And>x y. R x y \<Longrightarrow> R y x"
    and "\<And>j. j < length xs \<Longrightarrow> j \<noteq> i \<Longrightarrow> R y (xs ! j)"
  shows "sorted_wrt R (xs[i := y])"
  unfolding sorted_wrt_iff_nth_less
proof (intro allI impI)
  fix j k
  assume jk: "j < k" "k < length (xs[i := y])"
  have old: "R (xs ! j) (xs ! k)" using assms(1) jk by (simp add: sorted_wrt_iff_nth_less)
  consider "j = i" | "k = i" | "j \<noteq> i" "k \<noteq> i" by blast
  then show "R (xs[i := y] ! j) (xs[i := y] ! k)"
    using jk old assms(2) [of y "xs ! j"] assms(3) [of k] assms(3) [of j] by cases auto
qed

lemma list_all_update: "list_all P xs \<Longrightarrow> P y \<Longrightarrow> list_all P (xs[i := y])"
  using set_update_subset_insert [of xs i y] by (auto simp: list_all_iff)

lemma sum_list_map_update:
  fixes f :: "'a \<Rightarrow> nat"
  assumes "i < length xs"
  shows "sum_list (map f (xs[i := y])) + f (xs ! i) = sum_list (map f xs) + f y"
proof -
  have "f (xs ! i) \<le> sum_list (map f xs)" using assms by (simp add: member_le_sum_list)
  then show ?thesis using assms by (simp add: map_update sum_list_update)
qed

lemma sum_list_member_le: "x \<in> set xs \<Longrightarrow> f x \<le> sum_list (map f xs)" for f :: "'a \<Rightarrow> nat"
  by (simp add: member_le_sum_list)

section \<open>Rounding up to a power of two\<close>

text \<open>\<open>(x + a - 1) & ~(a - 1)\<close> on 32-bit unsigned integers; the sum wraps.\<close>

definition align_up :: "u32 \<Rightarrow> u32 \<Rightarrow> u32" where
  "align_up x a = (x + a - 1) AND NOT (a - 1)"

lemma nat_and_pred_pow2: "n AND (n - 1) = 0 \<Longrightarrow> n \<noteq> 0 \<Longrightarrow> \<exists>k. n = 2 ^ k" for n :: nat
proof (induction n rule: less_induct)
  case (less n)
  show ?case
  proof (cases "even n")
    case True
    then obtain m where m: "n = 2 * m" by blast
    with less.prems have m0: "m \<noteq> 0" by simp
    have "n - 1 = 2 * (m - 1) + 1" using m m0 by simp
    then have "n AND (n - 1) = 2 * (m AND (m - 1))"
      using m by (subst and_rec) simp
    with less.prems have "m AND (m - 1) = 0" by simp
    with less.IH [of m] m m0 obtain k where "m = 2 ^ k" by auto
    then have "n = 2 ^ Suc k" using m by simp
    then show ?thesis by blast
  next
    case False
    then obtain m where m: "n = 2 * m + 1" using oddE by blast
    then have "n AND (n - 1) = 2 * m" by (subst and_rec) simp
    with less.prems m have "n = 2 ^ 0" by simp
    then show ?thesis by blast
  qed
qed

lemma pow2_wordE:
  fixes a :: "'a::len word"
  assumes "a \<noteq> 0" "a AND (a - 1) = 0"
  obtains k where "k < LENGTH('a)" "a = 2 ^ k" "unat a = 2 ^ k"
proof -
  have "unat a AND (unat a - 1) = unat (a AND (a - 1))"
    using assms(1) by (simp add: unsigned_and_eq unat_minus_one)
  then have "unat a AND (unat a - 1) = 0" using assms(2) by simp
  with nat_and_pred_pow2 [of "unat a"] assms(1) obtain k where k: "unat a = 2 ^ k"
    by (auto simp: unat_eq_0)
  moreover have "unat a < 2 ^ LENGTH('a)" by (rule unsigned_less)
  ultimately have "k < LENGTH('a)" using power_less_imp_less_exp [of "2::nat" k "LENGTH('a)"] by simp
  moreover have "a = 2 ^ k" using k by (metis of_nat_numeral of_nat_power of_nat_unat ucast_id)
  ultimately show ?thesis using that k by blast
qed

lemma unat_and_not_mask: "unat ((y::'a::len word) AND NOT (2 ^ k - 1)) = unat y - unat y mod 2 ^ k"
proof -
  have "NOT y AND take_bit k y = 0" by (auto simp: bit_eq_iff bit_simps)
  then have "y - take_bit k y = y AND NOT (take_bit k y)" by (rule disjunctive_diff_eq_and_not)
  also have "\<dots> = y AND NOT (mask k)" by (auto simp: bit_eq_iff bit_simps)
  finally have eq: "y AND NOT (2 ^ k - 1) = y - take_bit k y" by (simp add: mask_eq_exp_minus_1)
  have tb: "unat (take_bit k y) = unat y mod 2 ^ k"
    unfolding unsigned_take_bit_eq by (rule take_bit_eq_mod)
  then have "take_bit k y \<le> y" by (simp add: word_le_nat_alt)
  then show ?thesis by (simp add: eq unat_sub tb)
qed

lemma align_up_dvd:
  assumes "a \<noteq> 0" "a AND (a - 1) = 0"
  shows "unat a dvd unat (align_up x a)"
proof -
  obtain k where k: "a = 2 ^ k" "unat a = 2 ^ k" using pow2_wordE [OF assms] by metis
  show ?thesis unfolding align_up_def using k(2) by (simp add: k(1) unat_and_not_mask dvd_minus_mod)
qed

text \<open>Without wrap-around the result is the least multiple of \<open>a\<close> that is not below \<open>x\<close>.\<close>

lemma align_up_nat:
  assumes "a \<noteq> 0" "a AND (a - 1) = 0" "unat x + unat a \<le> 2 ^ 32"
  shows "unat x \<le> unat (align_up x a)" and "unat (align_up x a) < unat x + unat a"
proof -
  obtain k where k: "a = 2 ^ k" "unat a = 2 ^ k" using pow2_wordE [OF assms(1,2)] by metis
  have a0: "0 < unat a" using assms(1) by (simp add: unat_gt_0)
  have "x + a - 1 = x + (a - 1)" by simp
  then have "unat (x + a - 1) = unat x + (unat a - 1)"
    using assms a0 unat_add_32 [of x "a - 1"]
    by (simp add: unat_minus_one \<open>x + a - 1 = x + (a - 1)\<close> del: add_diff_eq)
  then have e: "unat (align_up x a) = (unat x + (unat a - 1)) - (unat x + (unat a - 1)) mod unat a"
    unfolding align_up_def using k by (simp add: unat_and_not_mask)
  have m: "(unat x + (unat a - 1)) mod unat a < unat a" using a0 by simp
  show "unat x \<le> unat (align_up x a)" using e m a0 by linarith
  show "unat (align_up x a) < unat x + unat a" using e a0 by linarith
qed

lemma align_up_le:
  assumes "a \<noteq> 0" "a AND (a - 1) = 0" "unat x + unat a \<le> 2 ^ 32" "unat x \<le> m" "unat a dvd m"
  shows "unat (align_up x a) \<le> m"
proof (rule ccontr)
  assume "\<not> unat (align_up x a) \<le> m"
  then have gt: "m < unat (align_up x a)" by simp
  obtain c where c: "unat (align_up x a) = unat a * c" using align_up_dvd [OF assms(1,2)] by blast
  obtain d where d: "m = unat a * d" using assms(5) by blast
  have "d < c" using gt c d by simp
  then have "unat a * Suc d \<le> unat a * c" by (intro mult_le_mono) simp_all
  then have "m + unat a \<le> unat (align_up x a)" using c d by simp
  then show False using align_up_nat(2) [OF assms(1-3)] assms(4) by simp
qed

end
