(* ===== verification/Mem_Pool.thy ===== *)
theory Mem_Pool
  imports Virt_Prelude
begin

text \<open>
  \<open>drivers/amba_virt/tools/virt_mem_pool.c\<close>: the extent manager of \<open>amba-virt-server\<close>. Each tenant
  (a guest, named by its vsock cid) owns a pool record: a BAR of \<open>bar_size\<close> bytes, a quota, at most
  eight device partitions (each with an optional RPC arena) and at most 32 dynamic extents. The
  integer flags \<open>in_use\<close> are booleans here; the mutexes only serialise the operations and leave no
  trace in the model. The three placement searches are \<open>while\<close> loops whose candidate offset is
  recomputed with wrapping arithmetic, so they are \<open>partial_function (option)\<close>: \<open>None\<close> is a search
  that never returns. \<open>Mem_Pool_Search\<close> proves when they return and what.
\<close>

section \<open>Data\<close>

record virt_dev_partition =
  dp_dev_type :: u32
  dp_base_offset :: u32
  dp_size :: u32
  dp_rpc_arena_offset :: u32
  dp_rpc_arena_size :: u32
  dp_flags :: u32
  dp_in_use :: bool

record virt_mem_extent =
  ex_offset :: u32
  ex_size :: u32
  ex_dev_type :: u32
  ex_flags :: u32
  ex_in_use :: bool

record virt_tenant_pool =
  tp_cid :: u32
  tp_tenant_idx :: u32
  tp_bar_size :: u32
  tp_quota_min :: u32
  tp_quota_max :: u32
  tp_allocated_bytes :: u32
  tp_high_water_mark :: u32
  tp_devices :: "virt_dev_partition list"
  tp_extents :: "virt_mem_extent list"
  tp_in_use :: bool

record mem_pool_state =
  g_tenant_pools :: "virt_tenant_pool list"
  g_default_bar_size :: u32
  g_pool_initialized :: bool

record amba_virt_dev_bounds_req =
  rq_dev_type :: u32
  rq_requested_size :: u32
  rq_preferred_offset :: u32
  rq_rpc_arena_size :: u32
  rq_align :: u32
  rq_flags :: u32

record amba_virt_dev_bounds_resp =
  rs_status :: int
  rs_err_code :: u32
  rs_granted_offset :: u32
  rs_granted_size :: u32
  rs_rpc_arena_offset :: u32
  rs_max_avail_size :: u32
  rs_suggested_offset :: u32
  rs_colliding_dev :: u32

record amba_virt_mem_req =
  mq_op :: u32
  mq_size :: u32
  mq_align :: u32
  mq_dev_affinity :: u32
  mq_bar_offset :: u32
  mq_flags :: u32

record amba_virt_mem_resp =
  mr_status :: int
  mr_bar_offset :: u32
  mr_allocated_size :: u32
  mr_phys_addr :: u64
  mr_total_allocated :: u32
  mr_total_free :: u32

text \<open>The guest's shared memory as the server maps it; \<open>None\<close> stands for NULL and \<open>(unsigned char *)-1\<close>.\<close>

type_synonym shm_map = "(nat \<Rightarrow> u8) option"

abbreviation (input) VIRT_MEM_MAX_TENANTS :: nat where "VIRT_MEM_MAX_TENANTS \<equiv> 8"
abbreviation (input) VIRT_MEM_MAX_DEVICES :: nat where "VIRT_MEM_MAX_DEVICES \<equiv> 8"
abbreviation (input) VIRT_MEM_MAX_EXTENTS :: nat where "VIRT_MEM_MAX_EXTENTS \<equiv> 32"

abbreviation (input) DEV_TYPE_NONE :: u32 where "DEV_TYPE_NONE \<equiv> 0"
abbreviation (input) DEV_TYPE_CAVALRY :: u32 where "DEV_TYPE_CAVALRY \<equiv> 1"
abbreviation (input) DEV_TYPE_GDMA :: u32 where "DEV_TYPE_GDMA \<equiv> 2"
abbreviation (input) DEV_TYPE_IAV :: u32 where "DEV_TYPE_IAV \<equiv> 3"
abbreviation (input) MAX_DEV_TYPES :: u32 where "MAX_DEV_TYPES \<equiv> 8"
abbreviation (input) OFFSET_AUTO :: u32 where "OFFSET_AUTO \<equiv> 0xFFFFFFFF"
abbreviation (input) DEV_F_BEST_EFFORT :: u32 where "DEV_F_BEST_EFFORT \<equiv> 2"
abbreviation (input) DEV_F_REPLACE :: u32 where "DEV_F_REPLACE \<equiv> 4"
abbreviation (input) DEV_F_ZERO_INIT :: u32 where "DEV_F_ZERO_INIT \<equiv> 8"

abbreviation (input) ERR_NONE :: u32 where "ERR_NONE \<equiv> 0"
abbreviation (input) ERR_QUOTA_EXCEEDED :: u32 where "ERR_QUOTA_EXCEEDED \<equiv> 2"
abbreviation (input) ERR_HOST_OOM :: u32 where "ERR_HOST_OOM \<equiv> 3"
abbreviation (input) ERR_OFFSET_COLLISION :: u32 where "ERR_OFFSET_COLLISION \<equiv> 4"
abbreviation (input) ERR_DEV_ALREADY_REG :: u32 where "ERR_DEV_ALREADY_REG \<equiv> 5"
abbreviation (input) ERR_INVALID_ALIGN :: u32 where "ERR_INVALID_ALIGN \<equiv> 6"
abbreviation (input) ERR_UNKNOWN_DEVICE :: u32 where "ERR_UNKNOWN_DEVICE \<equiv> 7"
abbreviation (input) ERR_BAR_OVERFLOW :: u32 where "ERR_BAR_OVERFLOW \<equiv> 8"

definition zero_dev :: virt_dev_partition where
  "zero_dev = \<lparr> dp_dev_type = 0, dp_base_offset = 0, dp_size = 0, dp_rpc_arena_offset = 0,
     dp_rpc_arena_size = 0, dp_flags = 0, dp_in_use = False \<rparr>"

definition zero_extent :: virt_mem_extent where
  "zero_extent = \<lparr> ex_offset = 0, ex_size = 0, ex_dev_type = 0, ex_flags = 0, ex_in_use = False \<rparr>"

definition zero_pool :: virt_tenant_pool where
  "zero_pool = \<lparr> tp_cid = 0, tp_tenant_idx = 0, tp_bar_size = 0, tp_quota_min = 0, tp_quota_max = 0,
     tp_allocated_bytes = 0, tp_high_water_mark = 0,
     tp_devices = replicate VIRT_MEM_MAX_DEVICES zero_dev,
     tp_extents = replicate VIRT_MEM_MAX_EXTENTS zero_extent, tp_in_use = False \<rparr>"

definition zero_resp :: amba_virt_dev_bounds_resp where
  "zero_resp = \<lparr> rs_status = 0, rs_err_code = 0, rs_granted_offset = 0, rs_granted_size = 0,
     rs_rpc_arena_offset = 0, rs_max_avail_size = 0, rs_suggested_offset = 0, rs_colliding_dev = 0 \<rparr>"

definition zero_mem_resp :: amba_virt_mem_resp where
  "zero_mem_resp = \<lparr> mr_status = 0, mr_bar_offset = 0, mr_allocated_size = 0, mr_phys_addr = 0,
     mr_total_allocated = 0, mr_total_free = 0 \<rparr>"

section \<open>Tenants\<close>

definition virt_mem_pool_init :: "u32 \<Rightarrow> mem_pool_state \<Rightarrow> mem_pool_state" where
  "virt_mem_pool_init default_bar_size st =
     (let d = (if default_bar_size > 0 then default_bar_size else g_default_bar_size st)
      in st\<lparr> g_default_bar_size := d,
             g_tenant_pools := replicate VIRT_MEM_MAX_TENANTS
               (zero_pool\<lparr> tp_bar_size := d, tp_quota_max := d \<rparr>),
             g_pool_initialized := True \<rparr>)"

definition virt_mem_pool_cleanup :: "mem_pool_state \<Rightarrow> mem_pool_state" where
  "virt_mem_pool_cleanup st =
     st\<lparr> g_tenant_pools := replicate VIRT_MEM_MAX_TENANTS zero_pool, g_pool_initialized := False \<rparr>"

definition pool_entry_release :: "virt_tenant_pool \<Rightarrow> virt_tenant_pool" where
  "pool_entry_release p =
     p\<lparr> tp_devices := map (\<lambda>d. d\<lparr> dp_in_use := False \<rparr>) (tp_devices p),
        tp_extents := map (\<lambda>e. e\<lparr> ex_in_use := False \<rparr>) (tp_extents p),
        tp_allocated_bytes := 0, tp_in_use := False \<rparr>"

definition holds_cid :: "u32 \<Rightarrow> virt_tenant_pool \<Rightarrow> bool" where
  "holds_cid cid p \<longleftrightarrow> tp_in_use p \<and> tp_cid p = cid"

definition reclaim_index :: "u32 \<Rightarrow> u32 \<Rightarrow> virt_tenant_pool list \<Rightarrow> virt_tenant_pool list" where
  "reclaim_index cid tenant_idx ps =
     map (\<lambda>p. if tp_in_use p \<and> tp_cid p \<noteq> cid \<and> tp_tenant_idx p = tenant_idx
              then pool_entry_release p else p) ps"

definition update_tenant :: "u32 \<Rightarrow> u32 \<Rightarrow> u32 \<Rightarrow> virt_tenant_pool \<Rightarrow> virt_tenant_pool" where
  "update_tenant tenant_idx bar_size quota_max p =
     p\<lparr> tp_tenant_idx := tenant_idx,
        tp_bar_size := (if bar_size > 0 then bar_size else tp_bar_size p),
        tp_quota_max := (if quota_max > 0 then quota_max else tp_quota_max p) \<rparr>"

definition claim_tenant :: "u32 \<Rightarrow> u32 \<Rightarrow> u32 \<Rightarrow> u32 \<Rightarrow> u32 \<Rightarrow> virt_tenant_pool \<Rightarrow> virt_tenant_pool" where
  "claim_tenant default_bar cid tenant_idx bar_size quota_max p =
     (let bar = (if bar_size > 0 then bar_size else default_bar)
      in p\<lparr> tp_cid := cid, tp_tenant_idx := tenant_idx, tp_bar_size := bar,
            tp_quota_max := (if quota_max > 0 then quota_max else bar), tp_quota_min := 0,
            tp_allocated_bytes := 0, tp_high_water_mark := 0, tp_in_use := True \<rparr>)"

definition virt_mem_pool_register_tenant ::
    "u32 \<Rightarrow> u32 \<Rightarrow> u32 \<Rightarrow> u32 \<Rightarrow> mem_pool_state \<Rightarrow> mem_pool_state \<times> int" where
  "virt_mem_pool_register_tenant cid tenant_idx bar_size quota_max st =
     (if \<not> g_pool_initialized st then (st, - EINVAL)
      else
        let ps = reclaim_index cid tenant_idx (g_tenant_pools st) in
        case first_idx (holds_cid cid) ps of
          Some i \<Rightarrow>
            (st\<lparr> g_tenant_pools := ps[i := update_tenant tenant_idx bar_size quota_max (ps ! i)] \<rparr>, 0)
        | None \<Rightarrow>
            (case first_idx (\<lambda>p. \<not> tp_in_use p) ps of
               Some i \<Rightarrow>
                 (st\<lparr> g_tenant_pools := ps[i := claim_tenant (g_default_bar_size st) cid tenant_idx
                                              bar_size quota_max (ps ! i)] \<rparr>, 0)
             | None \<Rightarrow> (st\<lparr> g_tenant_pools := ps \<rparr>, - ENOSPC)))"

definition virt_mem_pool_unregister_tenant :: "u32 \<Rightarrow> mem_pool_state \<Rightarrow> mem_pool_state \<times> int" where
  "virt_mem_pool_unregister_tenant cid st =
     (case first_idx (holds_cid cid) (g_tenant_pools st) of
        Some i \<Rightarrow>
          (st\<lparr> g_tenant_pools := (g_tenant_pools st)[i := pool_entry_release (g_tenant_pools st ! i)] \<rparr>, 0)
      | None \<Rightarrow> (st, - ENOENT))"

definition virt_mem_pool_get_tenant :: "u32 \<Rightarrow> mem_pool_state \<Rightarrow> nat option" where
  "virt_mem_pool_get_tenant cid st =
     (if g_pool_initialized st then first_idx (holds_cid cid) (g_tenant_pools st) else None)"

definition virt_mem_pool_set_quota :: "u32 \<Rightarrow> u32 \<Rightarrow> mem_pool_state \<Rightarrow> mem_pool_state \<times> int" where
  "virt_mem_pool_set_quota cid quota_mb st =
     (let quota_bytes = (ucast quota_mb :: u64) * 1024 * 1024
      in case virt_mem_pool_get_tenant cid st of
           None \<Rightarrow> (st, - ENOENT)
         | Some i \<Rightarrow>
             if quota_bytes > ucast (tp_bar_size (g_tenant_pools st ! i)) then (st, - ERANGE)
             else (st\<lparr> g_tenant_pools := (g_tenant_pools st)
                        [i := (g_tenant_pools st ! i)\<lparr> tp_quota_max := ucast quota_bytes \<rparr>] \<rparr>, 0))"

definition virt_mem_pool_get_quota :: "u32 \<Rightarrow> mem_pool_state \<Rightarrow> int + u32 \<times> u32" where
  "virt_mem_pool_get_quota cid st =
     (case virt_mem_pool_get_tenant cid st of
        None \<Rightarrow> Inl (- ENOENT)
      | Some i \<Rightarrow> Inr (tp_quota_max (g_tenant_pools st ! i), tp_allocated_bytes (g_tenant_pools st ! i)))"

section \<open>Device partitions\<close>

definition ranges_overlap :: "u64 \<Rightarrow> u64 \<Rightarrow> u64 \<Rightarrow> u64 \<Rightarrow> bool" where
  "ranges_overlap s1 e1 s2 e2 \<longleftrightarrow> s1 < e2 \<and> e1 > s2"

definition avail :: "u32 \<Rightarrow> u32 \<Rightarrow> u32" where
  "avail quota_max allocated = (if quota_max > allocated then quota_max - allocated else 0)"

definition dev_end :: "virt_dev_partition \<Rightarrow> u32" where
  "dev_end d = dp_base_offset d + dp_size d"

definition arena_end :: "virt_dev_partition \<Rightarrow> u32" where
  "arena_end d = dp_rpc_arena_offset d + dp_rpc_arena_size d"

text \<open>\<open>(d_end > a_end) ? d_end : a_end\<close>: where the searches resume after a hit.\<close>

definition dev_next :: "virt_dev_partition \<Rightarrow> u32" where
  "dev_next d = (if dev_end d > arena_end d then dev_end d else arena_end d)"

text \<open>A half-open range \<open>[s, e)\<close> against a live device: its partition, and its arena if it has one.\<close>

definition hits_dev :: "u32 \<Rightarrow> u32 \<Rightarrow> virt_dev_partition \<Rightarrow> bool" where
  "hits_dev s e d \<longleftrightarrow>
     ranges_overlap (ucast s) (ucast e) (ucast (dp_base_offset d)) (ucast (dev_end d)) \<or>
     (dp_rpc_arena_size d > 0 \<and>
      ranges_overlap (ucast s) (ucast e) (ucast (dp_rpc_arena_offset d)) (ucast (arena_end d)))"

definition collides :: "u32 \<Rightarrow> u32 \<Rightarrow> u32 \<Rightarrow> u32 \<Rightarrow> u32 \<Rightarrow> virt_dev_partition \<Rightarrow> bool" where
  "collides dev_start dev_e arena_start arena_e arena_sz d \<longleftrightarrow>
     hits_dev dev_start dev_e d \<or> (arena_sz > 0 \<and> hits_dev arena_start arena_e d)"

text \<open>
  The loops over \<open>pool->devices\<close> skip the slot being replaced and the free slots and stop at the
  first device that satisfies \<open>P\<close>.
\<close>

definition other_devs :: "nat option \<Rightarrow> virt_dev_partition list \<Rightarrow> virt_dev_partition list" where
  "other_devs existing ds = map snd (filter (\<lambda>(i, d). existing \<noteq> Some i \<and> dp_in_use d) (enumerate 0 ds))"

definition first_other :: "(virt_dev_partition \<Rightarrow> bool) \<Rightarrow> nat option \<Rightarrow> virt_dev_partition list \<Rightarrow>
    virt_dev_partition option" where
  "first_other P existing ds = find P (other_devs existing ds)"

definition eff_align :: "amba_virt_dev_bounds_req \<Rightarrow> u32" where
  "eff_align req =
     (if rq_align req = 0
      then (if rq_dev_type req = DEV_TYPE_CAVALRY \<or> rq_dev_type req = DEV_TYPE_IAV then 0x00200000 else 4096)
      else rq_align req)"

definition bad_align :: "u32 \<Rightarrow> bool" where
  "bad_align align \<longleftrightarrow> align < 4096 \<or> align AND (align - 1) \<noteq> 0"

definition arena_bytes :: "amba_virt_dev_bounds_req \<Rightarrow> u32" where
  "arena_bytes req =
     (if rq_rpc_arena_size req > 0 then (rq_rpc_arena_size req + 4095) AND NOT 4095 else rq_rpc_arena_size req)"

text \<open>Step 3, the quota ceiling: the size to place, or \<open>None\<close> for QUOTA_EXCEEDED.\<close>

definition quota_clamp :: "amba_virt_dev_bounds_req \<Rightarrow> u32 \<Rightarrow> u32 \<Rightarrow> u32 \<Rightarrow> u32 \<Rightarrow> u32 option" where
  "quota_clamp req align req_size arena_sz avail_quota =
     (if (ucast req_size :: u64) + ucast arena_sz > ucast avail_quota then
        if rq_flags req AND DEV_F_BEST_EFFORT \<noteq> 0 \<and> rq_dev_type req \<noteq> DEV_TYPE_CAVALRY
           \<and> rq_dev_type req \<noteq> DEV_TYPE_GDMA then
          if avail_quota > arena_sz then
            let clamped = (avail_quota - arena_sz) AND NOT (align - 1)
            in if clamped > 0 then Some clamped else None
          else None
        else None
      else Some req_size)"

text \<open>The scan for \<open>suggested_offset\<close> after a collision: \<open>Some None\<close> when the BAR is exhausted.\<close>

partial_function (option) suggest_search ::
    "virt_dev_partition list \<Rightarrow> u32 \<Rightarrow> u32 \<Rightarrow> u32 \<Rightarrow> u32 \<Rightarrow> u32 option option" where
  "suggest_search others align total_span bar_size cand =
     (if cand + total_span \<le> bar_size then
        (case find (hits_dev cand (cand + total_span)) others of
           Some d \<Rightarrow> suggest_search others align total_span bar_size (align_up (dev_next d) align)
         | None \<Rightarrow> Some (Some cand))
      else Some None)"

text \<open>The layout AUTO placement tries at \<open>cand\<close>: the arena first, then the aligned partition.\<close>

definition auto_dev_start :: "u32 \<Rightarrow> u32 \<Rightarrow> u32 \<Rightarrow> u32" where
  "auto_dev_start align arena_sz cand = (if arena_sz > 0 then align_up (cand + arena_sz) align else cand)"

definition auto_arena_start :: "u32 \<Rightarrow> u32 \<Rightarrow> u32" where
  "auto_arena_start arena_sz cand = (if arena_sz > 0 then cand else 0)"

definition auto_arena_end :: "u32 \<Rightarrow> u32 \<Rightarrow> u32" where
  "auto_arena_end arena_sz cand = (if arena_sz > 0 then cand + arena_sz else 0)"

text \<open>
  The first-fit loop. Its result is the final \<open>cand\<close> with \<open>dev_start\<close> and \<open>dev_end\<close> as the last
  iteration left them.
\<close>

partial_function (option) auto_search ::
    "virt_dev_partition list \<Rightarrow> u32 \<Rightarrow> u32 \<Rightarrow> u32 \<Rightarrow> u32 \<Rightarrow> u32 \<Rightarrow> u32 \<Rightarrow> u32 \<Rightarrow> (u32 \<times> u32 \<times> u32) option" where
  "auto_search others align req_size arena_sz bar_size cand dev_start dev_e =
     (if (ucast cand :: u64) + (ucast req_size + ucast arena_sz) \<le> ucast bar_size then
        (let ds = auto_dev_start align arena_sz cand; de = ds + req_size in
         if de > bar_size then Some (cand, ds, de)
         else
           (case find (collides ds de (auto_arena_start arena_sz cand) (auto_arena_end arena_sz cand) arena_sz)
                  others of
              Some d \<Rightarrow>
                auto_search others align req_size arena_sz bar_size
                  (align_up (dev_next d) (if arena_sz > 0 then 4096 else align)) ds de
            | None \<Rightarrow> Some (cand, ds, de)))
      else Some (cand, dev_start, dev_e))"

text \<open>
  Step 4: \<open>Inl\<close> is the error response, \<open>Inr (dev_start, arena_start)\<close> the place found.
\<close>

definition place_preferred :: "virt_tenant_pool \<Rightarrow> nat option \<Rightarrow> u32 \<Rightarrow> u32 \<Rightarrow> u32 \<Rightarrow> u32 \<Rightarrow> u32 \<Rightarrow>
    (amba_virt_dev_bounds_resp + u32 \<times> u32) option" where
  "place_preferred pool existing align req_size arena_sz avail_quota offset =
     (let dev_start = offset; dev_e = dev_start + req_size;
          arena_start = (if arena_sz > 0 then dev_e else 0);
          arena_e = (if arena_sz > 0 then arena_start + arena_sz else 0)
      in if arena_e > tp_bar_size pool \<or> dev_e > tp_bar_size pool then
           Some (Inl (zero_resp\<lparr> rs_status := - ERANGE, rs_err_code := ERR_BAR_OVERFLOW,
                                 rs_max_avail_size := avail_quota \<rparr>))
         else
           (case first_other (collides dev_start dev_e arena_start arena_e arena_sz) existing (tp_devices pool) of
              None \<Rightarrow> Some (Inr (dev_start, arena_start))
            | Some d \<Rightarrow>
                (case suggest_search (other_devs existing (tp_devices pool)) align (req_size + arena_sz)
                        (tp_bar_size pool) (align_up (dev_next d) align) of
                   None \<Rightarrow> None
                 | Some sug \<Rightarrow>
                     Some (Inl (zero_resp\<lparr> rs_status := - EEXIST, rs_err_code := ERR_OFFSET_COLLISION,
                             rs_colliding_dev := dp_dev_type d,
                             rs_suggested_offset := (case sug of Some c \<Rightarrow> c | None \<Rightarrow> 0) \<rparr>)))))"

definition place_auto :: "virt_tenant_pool \<Rightarrow> nat option \<Rightarrow> u32 \<Rightarrow> u32 \<Rightarrow> u32 \<Rightarrow> u32 \<Rightarrow>
    (amba_virt_dev_bounds_resp + u32 \<times> u32) option" where
  "place_auto pool existing align req_size arena_sz avail_quota =
     (case auto_search (other_devs existing (tp_devices pool)) align req_size arena_sz (tp_bar_size pool) 0 0 0 of
        None \<Rightarrow> None
      | Some (cand, dev_start, dev_e) \<Rightarrow>
          if (ucast cand :: u64) + (ucast req_size + ucast arena_sz) > ucast (tp_bar_size pool)
             \<or> dev_e > tp_bar_size pool
          then Some (Inl (zero_resp\<lparr> rs_status := - ENOMEM, rs_err_code := ERR_HOST_OOM,
                                     rs_max_avail_size := avail_quota \<rparr>))
          else Some (Inr (dev_start, auto_arena_start arena_sz cand)))"

definition memset0 :: "u32 \<Rightarrow> u32 \<Rightarrow> (nat \<Rightarrow> u8) \<Rightarrow> nat \<Rightarrow> u8" where
  "memset0 start n m = (\<lambda>a. if unat start \<le> a \<and> a < unat start + unat n then 0 else m a)"

text \<open>Steps 5 and 6: the target slot, the commit, the response and the zeroing of the granted ranges.\<close>

definition commit_bounds :: "virt_tenant_pool \<Rightarrow> amba_virt_dev_bounds_req \<Rightarrow> shm_map \<Rightarrow> nat option \<Rightarrow> u32 \<Rightarrow>
    u32 \<Rightarrow> u32 \<Rightarrow> u32 \<Rightarrow> u32 \<Rightarrow> virt_tenant_pool \<times> amba_virt_dev_bounds_resp \<times> shm_map" where
  "commit_bounds pool req shm existing allocated_excl req_size arena_sz dev_start arena_start =
     (case (case existing of Some i \<Rightarrow> Some i | None \<Rightarrow> first_idx (\<lambda>d. \<not> dp_in_use d) (tp_devices pool)) of
        None \<Rightarrow> (pool, zero_resp\<lparr> rs_status := - ENOMEM, rs_err_code := ERR_HOST_OOM \<rparr>, shm)
      | Some target \<Rightarrow>
          let arena_off = (if arena_sz > 0 then arena_start else 0);
              allocated = allocated_excl + req_size + arena_sz;
              pool' = pool\<lparr>
                tp_devices := (tp_devices pool)[target :=
                  \<lparr> dp_dev_type = rq_dev_type req, dp_base_offset = dev_start, dp_size = req_size,
                    dp_rpc_arena_offset = arena_off, dp_rpc_arena_size = arena_sz,
                    dp_flags = rq_flags req, dp_in_use = True \<rparr>],
                tp_allocated_bytes := allocated,
                tp_high_water_mark := (if allocated > tp_high_water_mark pool then allocated
                                       else tp_high_water_mark pool) \<rparr>;
              resp = zero_resp\<lparr> rs_status := 0, rs_err_code := ERR_NONE, rs_granted_offset := dev_start,
                rs_granted_size := req_size, rs_rpc_arena_offset := arena_off,
                rs_max_avail_size := avail (tp_quota_max pool) allocated \<rparr>;
              shm' = (if rq_flags req AND DEV_F_ZERO_INIT \<noteq> 0
                      then map_option (\<lambda>m. if arena_sz > 0
                                           then memset0 arena_start arena_sz (memset0 dev_start req_size m)
                                           else memset0 dev_start req_size m) shm
                      else shm)
          in (pool', resp, shm'))"

definition existing_slot :: "virt_tenant_pool \<Rightarrow> u32 \<Rightarrow> nat option" where
  "existing_slot pool dev_type = first_idx (\<lambda>d. dp_in_use d \<and> dp_dev_type d = dev_type) (tp_devices pool)"

definition allocated_excluding :: "virt_tenant_pool \<Rightarrow> nat option \<Rightarrow> u32" where
  "allocated_excluding pool existing =
     (case existing of
        None \<Rightarrow> tp_allocated_bytes pool
      | Some i \<Rightarrow>
          let old = dp_size (tp_devices pool ! i) + dp_rpc_arena_size (tp_devices pool ! i)
          in if tp_allocated_bytes pool \<ge> old then tp_allocated_bytes pool - old else 0)"

text \<open>\<open>set_device_bounds_locked\<close> is the body that runs under \<open>pool->lock\<close>, in the order of the source.\<close>

definition set_device_bounds_locked :: "amba_virt_dev_bounds_req \<Rightarrow> shm_map \<Rightarrow> virt_tenant_pool \<Rightarrow>
    (virt_tenant_pool \<times> amba_virt_dev_bounds_resp \<times> shm_map) option" where
  "set_device_bounds_locked req shm pool =
     (let align = eff_align req in
      if bad_align align then
        Some (pool, zero_resp\<lparr> rs_status := - EINVAL, rs_err_code := ERR_INVALID_ALIGN \<rparr>, shm)
      else
      let req_size0 = align_up (rq_requested_size req) align;
          arena_sz = arena_bytes req;
          free_now = avail (tp_quota_max pool) (tp_allocated_bytes pool);
          overflow = Some (pool, zero_resp\<lparr> rs_status := - ERANGE, rs_err_code := ERR_BAR_OVERFLOW,
                                           rs_max_avail_size := free_now \<rparr>, shm)
      in
      if (ucast req_size0 :: u64) + ucast arena_sz > ucast (tp_bar_size pool) then overflow
      else if rq_preferred_offset req \<noteq> OFFSET_AUTO \<and> rq_preferred_offset req mod align \<noteq> 0 then
        Some (pool, zero_resp\<lparr> rs_status := - EINVAL, rs_err_code := ERR_INVALID_ALIGN,
                               rs_suggested_offset := align_up (rq_preferred_offset req) align \<rparr>, shm)
      else if rq_preferred_offset req \<noteq> OFFSET_AUTO
              \<and> (ucast (rq_preferred_offset req) :: u64) + ucast req_size0 > ucast (tp_bar_size pool)
      then overflow
      else
      let existing = existing_slot pool (rq_dev_type req) in
      if existing \<noteq> None \<and> rq_flags req AND DEV_F_REPLACE = 0 then
        Some (pool, zero_resp\<lparr> rs_status := - EBUSY, rs_err_code := ERR_DEV_ALREADY_REG,
                               rs_max_avail_size := free_now \<rparr>, shm)
      else
      let allocated_excl = allocated_excluding pool existing;
          avail_quota = avail (tp_quota_max pool) allocated_excl
      in
      case quota_clamp req align req_size0 arena_sz avail_quota of
        None \<Rightarrow> Some (pool, zero_resp\<lparr> rs_status := - ENOMEM, rs_err_code := ERR_QUOTA_EXCEEDED,
                                        rs_max_avail_size := avail_quota \<rparr>, shm)
      | Some req_size \<Rightarrow>
          (case (if rq_preferred_offset req \<noteq> OFFSET_AUTO
                 then place_preferred pool existing align req_size arena_sz avail_quota (rq_preferred_offset req)
                 else place_auto pool existing align req_size arena_sz avail_quota) of
             None \<Rightarrow> None
           | Some (Inl resp) \<Rightarrow> Some (pool, resp, shm)
           | Some (Inr (dev_start, arena_start)) \<Rightarrow>
               Some (commit_bounds pool req shm existing allocated_excl req_size arena_sz dev_start arena_start)))"

text \<open>The \<open>req\<close> and \<open>resp\<close> pointers are tested together: \<open>None\<close> is a call with either of them NULL.\<close>

definition virt_mem_pool_set_device_bounds :: "u32 \<Rightarrow> amba_virt_dev_bounds_req option \<Rightarrow> shm_map \<Rightarrow>
    mem_pool_state \<Rightarrow> (mem_pool_state \<times> int \<times> amba_virt_dev_bounds_resp option \<times> shm_map) option" where
  "virt_mem_pool_set_device_bounds cid req_ptr shm st =
     (case req_ptr of
        None \<Rightarrow> Some (st, - EINVAL, None, shm)
      | Some req \<Rightarrow>
          if rq_dev_type req = DEV_TYPE_NONE \<or> rq_dev_type req \<ge> MAX_DEV_TYPES then
            Some (st, 0, Some (zero_resp\<lparr> rs_status := - EINVAL, rs_err_code := ERR_UNKNOWN_DEVICE \<rparr>), shm)
          else if rq_requested_size req = 0 then
            Some (st, 0, Some (zero_resp\<lparr> rs_status := - EINVAL, rs_err_code := ERR_INVALID_ALIGN \<rparr>), shm)
          else
            (case virt_mem_pool_get_tenant cid st of
               None \<Rightarrow>
                 Some (st, 0, Some (zero_resp\<lparr> rs_status := - ENOMEM, rs_err_code := ERR_HOST_OOM \<rparr>), shm)
             | Some i \<Rightarrow>
                 map_option (\<lambda>(pool, resp, shm').
                     (st\<lparr> g_tenant_pools := (g_tenant_pools st)[i := pool] \<rparr>, 0, Some resp, shm'))
                   (set_device_bounds_locked req shm (g_tenant_pools st ! i))))"

definition release_device_bounds_locked :: "u32 \<Rightarrow> virt_tenant_pool \<Rightarrow> virt_tenant_pool \<times> int" where
  "release_device_bounds_locked dev_type pool =
     (case existing_slot pool dev_type of
        None \<Rightarrow> (pool, - ENOENT)
      | Some i \<Rightarrow>
          let d = tp_devices pool ! i; freed = dp_size d + dp_rpc_arena_size d
          in (pool\<lparr> tp_allocated_bytes := (if tp_allocated_bytes pool \<ge> freed
                                           then tp_allocated_bytes pool - freed else 0),
                    tp_devices := (tp_devices pool)[i := d\<lparr> dp_in_use := False \<rparr>] \<rparr>, 0))"

definition virt_mem_pool_release_device_bounds :: "u32 \<Rightarrow> u32 \<Rightarrow> mem_pool_state \<Rightarrow> mem_pool_state \<times> int" where
  "virt_mem_pool_release_device_bounds cid dev_type st =
     (case virt_mem_pool_get_tenant cid st of
        None \<Rightarrow> (st, - ENOENT)
      | Some i \<Rightarrow>
          let (pool, rc) = release_device_bounds_locked dev_type (g_tenant_pools st ! i)
          in (st\<lparr> g_tenant_pools := (g_tenant_pools st)[i := pool] \<rparr>, rc))"

definition virt_mem_pool_get_device_bounds :: "u32 \<Rightarrow> u32 \<Rightarrow> mem_pool_state \<Rightarrow>
    int + u32 \<times> u32 \<times> u32 \<times> u32" where
  "virt_mem_pool_get_device_bounds cid dev_type st =
     (case virt_mem_pool_get_tenant cid st of
        None \<Rightarrow> Inl (- ENOENT)
      | Some i \<Rightarrow>
          (case existing_slot (g_tenant_pools st ! i) dev_type of
             None \<Rightarrow> Inl (- ENOENT)
           | Some j \<Rightarrow>
               let d = tp_devices (g_tenant_pools st ! i) ! j
               in Inr (dp_base_offset d, dp_size d, dp_rpc_arena_offset d, dp_rpc_arena_size d)))"

section \<open>Dynamic extents\<close>

definition ext_end :: "virt_mem_extent \<Rightarrow> u32" where
  "ext_end e = ex_offset e + ex_size e"

definition hits_ext :: "u32 \<Rightarrow> u32 \<Rightarrow> virt_mem_extent \<Rightarrow> bool" where
  "hits_ext s e x \<longleftrightarrow>
     ex_in_use x \<and> ranges_overlap (ucast s) (ucast e) (ucast (ex_offset x)) (ucast (ext_end x))"

partial_function (option) extent_search ::
    "virt_dev_partition list \<Rightarrow> virt_mem_extent list \<Rightarrow> u32 \<Rightarrow> u32 \<Rightarrow> u32 \<Rightarrow> u32 \<Rightarrow> u32 option" where
  "extent_search devs exts align alloc_sz bar_size cand =
     (if cand + alloc_sz \<le> bar_size then
        (case find (\<lambda>d. dp_in_use d \<and> hits_dev cand (cand + alloc_sz) d) devs of
           Some d \<Rightarrow> extent_search devs exts align alloc_sz bar_size (align_up (dev_next d) align)
         | None \<Rightarrow>
             (case find (hits_ext cand (cand + alloc_sz)) exts of
                Some x \<Rightarrow> extent_search devs exts align alloc_sz bar_size (align_up (ext_end x) align)
              | None \<Rightarrow> Some cand))
      else Some cand)"

definition alloc_extent_locked :: "amba_virt_mem_req \<Rightarrow> shm_map \<Rightarrow> u64 \<Rightarrow> virt_tenant_pool \<Rightarrow>
    (virt_tenant_pool \<times> amba_virt_mem_resp \<times> shm_map) option" where
  "alloc_extent_locked req shm phys_base pool =
     (let align = (if mq_align req \<noteq> 0 then mq_align req else 4096) in
      if bad_align align then Some (pool, zero_mem_resp\<lparr> mr_status := - EINVAL \<rparr>, shm)
      else
      let alloc_sz = align_up (mq_size req) align;
          avail_quota = avail (tp_quota_max pool) (tp_allocated_bytes pool);
          refuse = (\<lambda>status. Some (pool, zero_mem_resp\<lparr> mr_status := status,
             mr_total_allocated := tp_allocated_bytes pool, mr_total_free := avail_quota \<rparr>, shm))
      in
      if alloc_sz = 0 then Some (pool, zero_mem_resp\<lparr> mr_status := - EINVAL \<rparr>, shm)
      else if alloc_sz > tp_bar_size pool then refuse (- ERANGE)
      else if alloc_sz > avail_quota then refuse (- ENOMEM)
      else
        (case first_idx (\<lambda>x. \<not> ex_in_use x) (tp_extents pool) of
           None \<Rightarrow> refuse (- ENOMEM)
         | Some slot \<Rightarrow>
             (case extent_search (tp_devices pool) (tp_extents pool) align alloc_sz (tp_bar_size pool) 0 of
                None \<Rightarrow> None
              | Some cand \<Rightarrow>
                  if cand + alloc_sz > tp_bar_size pool then refuse (- ENOMEM)
                  else
                    let allocated = tp_allocated_bytes pool + alloc_sz in
                    Some (pool\<lparr> tp_extents := (tp_extents pool)[slot :=
                              \<lparr> ex_offset = cand, ex_size = alloc_sz, ex_dev_type = mq_dev_affinity req,
                                ex_flags = mq_flags req, ex_in_use = True \<rparr>],
                            tp_allocated_bytes := allocated,
                            tp_high_water_mark := (if allocated > tp_high_water_mark pool then allocated
                                                   else tp_high_water_mark pool) \<rparr>,
                          zero_mem_resp\<lparr> mr_status := 0, mr_bar_offset := cand, mr_allocated_size := alloc_sz,
                            mr_phys_addr := (if phys_base \<noteq> 0 then phys_base + ucast cand else 0),
                            mr_total_allocated := allocated,
                            mr_total_free := avail (tp_quota_max pool) allocated \<rparr>,
                          if mq_flags req AND DEV_F_ZERO_INIT \<noteq> 0
                          then map_option (memset0 cand alloc_sz) shm else shm))))"

definition virt_mem_pool_alloc_extent :: "u32 \<Rightarrow> amba_virt_mem_req option \<Rightarrow> shm_map \<Rightarrow> u64 \<Rightarrow>
    mem_pool_state \<Rightarrow> (mem_pool_state \<times> int \<times> amba_virt_mem_resp option \<times> shm_map) option" where
  "virt_mem_pool_alloc_extent cid req_ptr shm phys_base st =
     (case req_ptr of
        None \<Rightarrow> Some (st, - EINVAL, None, shm)
      | Some req \<Rightarrow>
          (case virt_mem_pool_get_tenant cid st of
             None \<Rightarrow> Some (st, 0, Some (zero_mem_resp\<lparr> mr_status := - ENOENT \<rparr>), shm)
           | Some i \<Rightarrow>
               map_option (\<lambda>(pool, resp, shm').
                   (st\<lparr> g_tenant_pools := (g_tenant_pools st)[i := pool] \<rparr>, 0, Some resp, shm'))
                 (alloc_extent_locked req shm phys_base (g_tenant_pools st ! i))))"

text \<open>
  \<open>free_extent\<close> fills the fields of the caller's response one by one, so the response is passed in;
  a NULL response is not filled, which changes nothing else.
\<close>

definition free_extent_locked :: "u32 \<Rightarrow> amba_virt_mem_resp \<Rightarrow> virt_tenant_pool \<Rightarrow>
    virt_tenant_pool \<times> int \<times> amba_virt_mem_resp" where
  "free_extent_locked bar_offset resp pool =
     (case first_idx (\<lambda>x. ex_in_use x \<and> ex_offset x = bar_offset) (tp_extents pool) of
        Some i \<Rightarrow>
          let sz = ex_size (tp_extents pool ! i);
              allocated = (if tp_allocated_bytes pool \<ge> sz then tp_allocated_bytes pool - sz else 0)
          in (pool\<lparr> tp_allocated_bytes := allocated,
                    tp_extents := (tp_extents pool)[i := (tp_extents pool ! i)\<lparr> ex_in_use := False \<rparr>] \<rparr>,
              0,
              resp\<lparr> mr_status := 0, mr_bar_offset := bar_offset, mr_allocated_size := sz,
                    mr_total_allocated := allocated,
                    mr_total_free := avail (tp_quota_max pool) allocated \<rparr>)
      | None \<Rightarrow>
          (pool, - ENOENT,
           resp\<lparr> mr_status := - ENOENT, mr_total_allocated := tp_allocated_bytes pool,
                 mr_total_free := avail (tp_quota_max pool) (tp_allocated_bytes pool) \<rparr>))"

definition virt_mem_pool_free_extent :: "u32 \<Rightarrow> u32 \<Rightarrow> amba_virt_mem_resp \<Rightarrow> mem_pool_state \<Rightarrow>
    mem_pool_state \<times> int \<times> amba_virt_mem_resp" where
  "virt_mem_pool_free_extent cid bar_offset resp st =
     (case virt_mem_pool_get_tenant cid st of
        None \<Rightarrow> (st, - ENOENT, resp)
      | Some i \<Rightarrow>
          let (pool, rc, resp') = free_extent_locked bar_offset resp (g_tenant_pools st ! i)
          in (st\<lparr> g_tenant_pools := (g_tenant_pools st)[i := pool] \<rparr>, rc, resp'))"

section \<open>Validation of a guest range\<close>

definition within :: "u32 \<Rightarrow> u32 \<Rightarrow> u32 \<Rightarrow> u32 \<Rightarrow> bool" where
  "within bar_offset len start span \<longleftrightarrow>
     bar_offset \<ge> start \<and> (ucast bar_offset :: u64) + ucast len \<le> ucast start + ucast span"

definition range_ok :: "u32 \<Rightarrow> u32 \<Rightarrow> virt_tenant_pool \<Rightarrow> bool" where
  "range_ok bar_offset len pool \<longleftrightarrow>
     list_ex (\<lambda>d. dp_in_use d \<and>
        (within bar_offset len (dp_base_offset d) (dp_size d) \<or>
         (dp_rpc_arena_size d > 0 \<and> within bar_offset len (dp_rpc_arena_offset d) (dp_rpc_arena_size d))))
       (tp_devices pool) \<or>
     list_ex (\<lambda>x. ex_in_use x \<and> within bar_offset len (ex_offset x) (ex_size x)) (tp_extents pool)"

definition virt_mem_pool_validate_range :: "u32 \<Rightarrow> u32 \<Rightarrow> u32 \<Rightarrow> mem_pool_state \<Rightarrow> int" where
  "virt_mem_pool_validate_range cid bar_offset len st =
     (case virt_mem_pool_get_tenant cid st of
        None \<Rightarrow> - ENOENT
      | Some i \<Rightarrow> if range_ok bar_offset len (g_tenant_pools st ! i) then 0 else - EFAULT)"

text \<open>The searches evaluate by their defining equations.\<close>

declare suggest_search.simps [code] auto_search.simps [code] extent_search.simps [code]

end
