(* ===== verification/Mem_Pool_Search.thy ===== *)
theory Mem_Pool_Search
  imports Mem_Pool
begin

text \<open>
  What the placement searches of \<open>virt_mem_pool.c\<close> find. A live device is two regions of the BAR (its
  partition and its arena), a live extent is one. Regions are pairs of start and length on \<open>nat\<close>, so
  that the facts below speak of real byte ranges and not of wrapped sums. For a BAR below 2 GiB every
  search returns, because its candidate offset grows at each hit and stays at most \<open>2 ^ 31\<close>, and the
  offset it returns is aligned and free.
\<close>

section \<open>Regions\<close>

definition apart :: "nat \<times> nat \<Rightarrow> nat \<times> nat \<Rightarrow> bool" where
  "apart r q \<longleftrightarrow> snd r = 0 \<or> snd q = 0 \<or> fst r + snd r \<le> fst q \<or> fst q + snd q \<le> fst r"

definition region_bytes :: "nat \<times> nat \<Rightarrow> nat set" where
  "region_bytes r = {fst r ..< fst r + snd r}"

lemma apart_bytes: "apart r q \<longleftrightarrow> region_bytes r \<inter> region_bytes q = {}"
proof
  assume "region_bytes r \<inter> region_bytes q = {}"
  then have "max (fst r) (fst q) \<notin> region_bytes r \<inter> region_bytes q" by simp
  then show "apart r q" by (auto simp: apart_def region_bytes_def)
qed (auto simp: apart_def region_bytes_def)

lemma apart_sym: "apart r q \<Longrightarrow> apart q r"
  by (auto simp: apart_def)

definition regions_apart :: "(nat \<times> nat) list \<Rightarrow> (nat \<times> nat) list \<Rightarrow> bool" where
  "regions_apart rs qs \<longleftrightarrow> list_all (\<lambda>r. list_all (apart r) qs) rs"

lemma regions_apart_iff: "regions_apart rs qs \<longleftrightarrow> (\<forall>r \<in> set rs. \<forall>q \<in> set qs. apart r q)"
  by (simp add: regions_apart_def list_all_iff)

lemma regions_apart_sym: "regions_apart rs qs \<Longrightarrow> regions_apart qs rs"
  by (auto simp: regions_apart_iff intro: apart_sym)

lemma regions_apart_Nil [simp]: "regions_apart [] qs" "regions_apart rs []"
  by (simp_all add: regions_apart_iff)

definition dev_regions :: "virt_dev_partition \<Rightarrow> (nat \<times> nat) list" where
  "dev_regions d = (if dp_in_use d
     then [(unat (dp_base_offset d), unat (dp_size d)), (unat (dp_rpc_arena_offset d), unat (dp_rpc_arena_size d))]
     else [])"

definition ext_regions :: "virt_mem_extent \<Rightarrow> (nat \<times> nat) list" where
  "ext_regions x = (if ex_in_use x then [(unat (ex_offset x), unat (ex_size x))] else [])"

definition in_bar :: "u32 \<Rightarrow> (nat \<times> nat) list \<Rightarrow> bool" where
  "in_bar bar rs \<longleftrightarrow> list_all (\<lambda>(s, n). s + n \<le> unat bar) rs"

definition dev_wf :: "u32 \<Rightarrow> virt_dev_partition \<Rightarrow> bool" where
  "dev_wf bar d \<longleftrightarrow> in_bar bar (dev_regions d) \<and>
     (dp_in_use d \<longrightarrow> apart (unat (dp_base_offset d), unat (dp_size d))
                          (unat (dp_rpc_arena_offset d), unat (dp_rpc_arena_size d)))"

definition ext_wf :: "u32 \<Rightarrow> virt_mem_extent \<Rightarrow> bool" where
  "ext_wf bar x \<longleftrightarrow> in_bar bar (ext_regions x) \<and> (ex_in_use x \<longrightarrow> ex_size x \<noteq> 0)"

lemma dev_wf_ends:
  assumes "dev_wf bar d" "dp_in_use d"
  shows "unat (dev_end d) = unat (dp_base_offset d) + unat (dp_size d)"
    and "unat (arena_end d) = unat (dp_rpc_arena_offset d) + unat (dp_rpc_arena_size d)"
    and "unat (dev_end d) \<le> unat bar" and "unat (arena_end d) \<le> unat bar"
proof -
  have b: "unat (dp_base_offset d) + unat (dp_size d) \<le> unat bar"
    "unat (dp_rpc_arena_offset d) + unat (dp_rpc_arena_size d) \<le> unat bar"
    using assms by (auto simp: dev_wf_def in_bar_def dev_regions_def)
  moreover have "unat bar < 2 ^ 32" by (rule unat_u32_less)
  ultimately show "unat (dev_end d) = unat (dp_base_offset d) + unat (dp_size d)"
    "unat (arena_end d) = unat (dp_rpc_arena_offset d) + unat (dp_rpc_arena_size d)"
    unfolding dev_end_def arena_end_def by (intro unat_add_32; simp)+
  with b show "unat (dev_end d) \<le> unat bar" "unat (arena_end d) \<le> unat bar" by simp_all
qed

lemma ext_wf_end:
  assumes "ext_wf bar x" "ex_in_use x"
  shows "unat (ext_end x) = unat (ex_offset x) + unat (ex_size x)" and "unat (ext_end x) \<le> unat bar"
proof -
  have b: "unat (ex_offset x) + unat (ex_size x) \<le> unat bar"
    using assms by (auto simp: ext_wf_def in_bar_def ext_regions_def)
  moreover have "unat bar < 2 ^ 32" by (rule unat_u32_less)
  ultimately show "unat (ext_end x) = unat (ex_offset x) + unat (ex_size x)"
    unfolding ext_end_def by (intro unat_add_32) simp
  with b show "unat (ext_end x) \<le> unat bar" by simp
qed

text \<open>A miss is real disjointness, a hit makes the search move forward.\<close>

lemma ranges_overlap_u32 [word_to_nat]:
  "ranges_overlap (ucast (s1::u32)) (ucast (e1::u32)) (ucast (s2::u32)) (ucast (e2::u32)) \<longleftrightarrow>
     unat s1 < unat e2 \<and> unat s2 < unat e1"
  by (simp add: ranges_overlap_def) (simp add: word_less_nat_alt)

lemma no_overlap_apart:
  assumes "\<not> ranges_overlap (ucast (s::u32)) (ucast (e::u32)) (ucast (s2::u32)) (ucast (e2::u32))"
    and "unat e = unat s + n" "unat e2 = unat s2 + m"
  shows "apart (unat s, n) (unat s2, m)"
  using assms by (auto simp: ranges_overlap_u32 apart_def)

lemma miss_dev_apart:
  assumes "\<not> hits_dev s e d" "dev_wf bar d" "unat e = unat s + n"
  shows "regions_apart [(unat s, n)] (dev_regions d)"
proof (cases "dp_in_use d")
  case True
  note ends = dev_wf_ends [OF assms(2) True]
  have "apart (unat s, n) (unat (dp_base_offset d), unat (dp_size d))"
    using assms(1,3) ends(1) by (intro no_overlap_apart) (auto simp: hits_dev_def)
  moreover have "apart (unat s, n) (unat (dp_rpc_arena_offset d), unat (dp_rpc_arena_size d))"
  proof (cases "dp_rpc_arena_size d > 0")
    case True
    then show ?thesis using assms(1,3) ends(2) by (intro no_overlap_apart) (auto simp: hits_dev_def)
  next
    case False
    then have "dp_rpc_arena_size d = 0" by (simp add: word_gt_0)
    then show ?thesis by (simp add: apart_def)
  qed
  ultimately show ?thesis by (simp add: regions_apart_def dev_regions_def True)
qed (simp add: dev_regions_def)

lemma miss_ext_apart:
  assumes "\<not> hits_ext s e x" "ext_wf bar x" "unat e = unat s + n"
  shows "regions_apart [(unat s, n)] (ext_regions x)"
proof (cases "ex_in_use x")
  case True
  have "apart (unat s, n) (unat (ex_offset x), unat (ex_size x))"
    using assms(1,3) ext_wf_end(1) [OF assms(2) True] True by (intro no_overlap_apart) (auto simp: hits_ext_def)
  then show ?thesis by (simp add: regions_apart_def ext_regions_def True)
qed (simp add: ext_regions_def)

lemma dev_next_le: "dev_wf bar d \<Longrightarrow> dp_in_use d \<Longrightarrow> unat (dev_next d) \<le> unat bar"
  using dev_wf_ends by (simp add: dev_next_def)

lemma hit_dev_next: "hits_dev s e d \<Longrightarrow> unat s < unat (dev_next d)"
  by (auto simp: hits_dev_def ranges_overlap_u32 dev_next_def word_less_nat_alt)

lemma hit_ext_next: "hits_ext s e x \<Longrightarrow> unat s < unat (ext_end x)"
  by (auto simp: hits_ext_def ranges_overlap_u32)

section \<open>The step of a search\<close>

lemma good_align:
  assumes "\<not> bad_align a"
  shows "a \<noteq> 0" and "a AND (a - 1) = 0" and "unat a dvd 2 ^ 31" and "unat a \<le> 2 ^ 31"
proof -
  show a0: "a \<noteq> 0" and aa: "a AND (a - 1) = 0" using assms by (auto simp: bad_align_def)
  obtain k where k: "k < LENGTH(32)" "unat a = 2 ^ k" using pow2_wordE [OF a0 aa] by metis
  then have "(2::nat) ^ k dvd 2 ^ 31" by (intro le_imp_power_dvd) simp
  then show "unat a dvd 2 ^ 31" using k by simp
  then show "unat a \<le> 2 ^ 31" by (rule dvd_imp_le) simp
qed

lemma step_cand:
  assumes "\<not> bad_align a" "unat bar < 2 ^ 31" "unat n \<le> unat bar" "unat c < unat n"
  shows "2 ^ 31 - unat (align_up n a) < 2 ^ 31 - unat c" and "unat (align_up n a) \<le> 2 ^ 31"
    and "unat a dvd unat (align_up n a)"
proof -
  note g = good_align [OF assms(1)]
  have s: "unat n + unat a \<le> 2 ^ 32" using g(4) assms by simp
  have lt: "unat c < unat (align_up n a)" using align_up_nat(1) [OF g(1,2) s] assms(4) by simp
  show le: "unat (align_up n a) \<le> 2 ^ 31" using assms by (intro align_up_le [OF g(1,2) s _ g(3)]) simp
  show "2 ^ 31 - unat (align_up n a) < 2 ^ 31 - unat c" using lt le by (intro diff_less_mono2) simp_all
  show "unat a dvd unat (align_up n a)" by (rule align_up_dvd [OF g(1,2)])
qed

lemma cand_sum: "unat c \<le> 2 ^ 31 \<Longrightarrow> unat n \<le> unat bar \<Longrightarrow> unat (bar::u32) < 2 ^ 31 \<Longrightarrow>
    unat ((c::u32) + n) = unat c + unat n"
  by (rule unat_add_32) simp

lemmas search_step = step_cand cand_sum

section \<open>Extents\<close>

lemma extent_search_spec:
  assumes "\<not> bad_align a" "unat bar < 2 ^ 31" "unat n \<le> unat bar"
    and "list_all (dev_wf bar) devs" "list_all (ext_wf bar) exts"
  shows "unat c \<le> 2 ^ 31 \<Longrightarrow> unat a dvd unat c \<Longrightarrow>
    \<exists>r. extent_search devs exts a n bar c = Some r \<and> unat r \<le> 2 ^ 31 \<and> unat a dvd unat r \<and>
      (r + n \<le> bar \<longrightarrow>
        list_all (\<lambda>d. regions_apart [(unat r, unat n)] (dev_regions d)) devs \<and>
        list_all (\<lambda>x. regions_apart [(unat r, unat n)] (ext_regions x)) exts)"
proof (induction "2 ^ 31 - unat c" arbitrary: c rule: less_induct)
  case less
  note sum = cand_sum [OF less.prems(1) assms(3,2)]
  let ?P = "\<lambda>d. dp_in_use d \<and> hits_dev c (c + n) d"
  let ?Q = "hits_ext c (c + n)"
  show ?case
  proof (cases "c + n \<le> bar")
    case False
    then show ?thesis using less.prems by (subst extent_search.simps) simp
  next
    case fits: True
    show ?thesis
    proof (cases "find ?P devs")
      case (Some d)
      then have d: "d \<in> set devs" "dp_in_use d" "hits_dev c (c + n) d" by (auto simp: find_Some_iff)
      then have "unat (dev_next d) \<le> unat bar" using assms(4) dev_next_le by (simp add: list_all_iff)
      note st = step_cand [OF assms(1,2) this hit_dev_next [OF d(3)]]
      show ?thesis using less.hyps [OF st] fits Some
        by (subst extent_search.simps) simp
    next
      case no_dev: None
      show ?thesis
      proof (cases "find ?Q exts")
        case (Some x)
        then have x: "x \<in> set exts" "?Q x" by (auto simp: find_Some_iff)
        then have "ex_in_use x" by (simp add: hits_ext_def)
        then have "unat (ext_end x) \<le> unat bar" using assms(5) x ext_wf_end(2) by (simp add: list_all_iff)
        note st = step_cand [OF assms(1,2) this hit_ext_next [OF x(2)]]
        show ?thesis using less.hyps [OF st] fits Some no_dev
          by (subst extent_search.simps) simp
      next
        case no_ext: None
        have "regions_apart [(unat c, unat n)] (dev_regions d)" if "d \<in> set devs" for d
        proof (cases "dp_in_use d")
          case True
          then show ?thesis
            using that no_dev assms(4) sum by (intro miss_dev_apart) (auto simp: find_None_iff list_all_iff)
        qed (simp add: dev_regions_def)
        moreover have "regions_apart [(unat c, unat n)] (ext_regions x)" if "x \<in> set exts" for x
          using that no_ext assms(5) sum by (intro miss_ext_apart) (auto simp: find_None_iff list_all_iff)
        ultimately show ?thesis
          using fits no_dev no_ext less.prems by (subst extent_search.simps) (simp add: list_all_iff)
      qed
    qed
  qed
qed

section \<open>Devices\<close>

lemma set_other_devs:
  "set (other_devs existing ds) = {ds ! i |i. i < length ds \<and> existing \<noteq> Some i \<and> dp_in_use (ds ! i)}"
  by (auto simp: other_devs_def in_set_enumerate_eq image_def)

lemma other_devs_live:
  "list_all (dev_wf bar) ds \<Longrightarrow> list_all (\<lambda>d. dev_wf bar d \<and> dp_in_use d) (other_devs existing ds)"
  by (auto simp: list_all_iff set_other_devs)

lemma suggest_search_spec:
  assumes "\<not> bad_align a" "unat bar < 2 ^ 31" "unat n \<le> unat bar"
    and "list_all (\<lambda>d. dev_wf bar d \<and> dp_in_use d) others"
  shows "unat c \<le> 2 ^ 31 \<Longrightarrow> unat a dvd unat c \<Longrightarrow>
    \<exists>r. suggest_search others a n bar c = Some r \<and>
      (\<forall>s. r = Some s \<longrightarrow> unat a dvd unat s \<and> unat s + unat n \<le> unat bar \<and>
        list_all (\<lambda>d. regions_apart [(unat s, unat n)] (dev_regions d)) others)"
proof (induction "2 ^ 31 - unat c" arbitrary: c rule: less_induct)
  case less
  note sum = cand_sum [OF less.prems(1) assms(3,2)]
  show ?case
  proof (cases "c + n \<le> bar")
    case False
    then show ?thesis by (subst suggest_search.simps) simp
  next
    case fits: True
    show ?thesis
    proof (cases "find (hits_dev c (c + n)) others")
      case (Some d)
      then have d: "d \<in> set others" "hits_dev c (c + n) d" by (auto simp: find_Some_iff)
      then have "unat (dev_next d) \<le> unat bar" using assms(4) dev_next_le by (simp add: list_all_iff)
      note st = step_cand [OF assms(1,2) this hit_dev_next [OF d(2)]]
      show ?thesis using less.hyps [OF st] fits Some by (subst suggest_search.simps) simp
    next
      case None
      have "regions_apart [(unat c, unat n)] (dev_regions d)" if "d \<in> set others" for d
        using that None assms(4) sum by (intro miss_dev_apart) (auto simp: find_None_iff list_all_iff)
      then show ?thesis using fits None less.prems sum
        by (subst suggest_search.simps) (simp add: list_all_iff word_le_nat_alt)
    qed
  qed
qed

lemma not_bad_4096: "\<not> bad_align 4096"
  by (simp add: bad_align_def)

text \<open>The layout tried at a candidate that fits: no sum wraps, the arena lies below the partition.\<close>

lemma auto_layout:
  assumes "\<not> bad_align a" "unat bar < 2 ^ 31" "unat c + unat n + unat z \<le> unat bar"
    and "z = 0 \<Longrightarrow> unat a dvd unat c"
  shows "unat (auto_arena_end z c) = unat (auto_arena_start z c) + unat z"
    and "unat c + unat z \<le> unat (auto_dev_start a z c)"
    and "unat (auto_dev_start a z c + n) = unat (auto_dev_start a z c) + unat n"
    and "unat a dvd unat (auto_dev_start a z c)"
    and "apart (unat (auto_dev_start a z c), unat n) (unat (auto_arena_start z c), unat z)"
proof -
  note g = good_align [OF assms(1)]
  have s: "unat (c + z) = unat c + unat z" using assms by (intro unat_add_32) simp
  have w: "unat (c + z) + unat a \<le> 2 ^ 32" using s assms g(4) by simp
  have up: "unat (align_up (c + z) a) \<le> 2 ^ 31" using s assms by (intro align_up_le [OF g(1,2) w _ g(3)]) simp
  show "unat (auto_arena_end z c) = unat (auto_arena_start z c) + unat z"
    using s by (auto simp: auto_arena_end_def auto_arena_start_def word_gt_0)
  show ds: "unat c + unat z \<le> unat (auto_dev_start a z c)"
    using s align_up_nat(1) [OF g(1,2) w] by (auto simp: auto_dev_start_def word_gt_0)
  have "unat (auto_dev_start a z c) \<le> 2 ^ 31"
    using up assms by (auto simp: auto_dev_start_def)
  then show "unat (auto_dev_start a z c + n) = unat (auto_dev_start a z c) + unat n"
    using assms by (intro unat_add_32) simp
  show "unat a dvd unat (auto_dev_start a z c)"
    using assms(4) align_up_dvd [OF g(1,2)] by (auto simp: auto_dev_start_def word_gt_0)
  show "apart (unat (auto_dev_start a z c), unat n) (unat (auto_arena_start z c), unat z)"
    using ds by (auto simp: apart_def auto_arena_start_def)
qed

lemma miss_collides_apart:
  assumes "\<not> collides ds (ds + n) s e z d" "dev_wf bar d"
    and "unat (ds + n) = unat ds + unat n" "unat e = unat s + unat z"
  shows "regions_apart [(unat ds, unat n), (unat s, unat z)] (dev_regions d)"
proof -
  have "regions_apart [(unat ds, unat n)] (dev_regions d)"
    using assms by (intro miss_dev_apart) (auto simp: collides_def)
  moreover have "regions_apart [(unat s, unat z)] (dev_regions d)"
  proof (cases "z > 0")
    case True
    then show ?thesis using assms by (intro miss_dev_apart) (auto simp: collides_def)
  next
    case False
    then have "z = 0" by (simp add: word_gt_0)
    then show ?thesis by (simp add: regions_apart_iff apart_def)
  qed
  ultimately show ?thesis by (simp add: regions_apart_def)
qed

lemma hit_collides_next:
  assumes "collides ds de (auto_arena_start z c) e z d" "unat c \<le> unat ds"
  shows "unat c < unat (dev_next d)"
proof (cases "hits_dev ds de d")
  case True
  then show ?thesis using hit_dev_next [of ds de d] assms(2) by simp
next
  case False
  then have "hits_dev c e d" using assms(1) by (auto simp: collides_def auto_arena_start_def)
  then show ?thesis by (rule hit_dev_next)
qed

definition free_place :: "virt_dev_partition list \<Rightarrow> u32 \<Rightarrow> u32 \<Rightarrow> u32 \<Rightarrow> u32 \<Rightarrow> u32 \<Rightarrow> u32 \<Rightarrow> bool" where
  "free_place others bar a n z ds s \<longleftrightarrow>
     unat a dvd unat ds \<and> unat ds + unat n \<le> unat bar \<and> unat s + unat z \<le> unat bar \<and>
     apart (unat ds, unat n) (unat s, unat z) \<and>
     list_all (\<lambda>d. regions_apart [(unat ds, unat n), (unat s, unat z)] (dev_regions d)) others"

lemma auto_search_spec:
  assumes "\<not> bad_align a" "unat bar < 2 ^ 31" "unat n + unat z \<le> unat bar"
    and "list_all (\<lambda>d. dev_wf bar d \<and> dp_in_use d) others"
    and "stp = (if z > 0 then 4096 else a)"
  shows "unat c \<le> 2 ^ 31 \<Longrightarrow> unat stp dvd unat c \<Longrightarrow>
    \<exists>c' ds de. auto_search others a n z bar c ds0 de0 = Some (c', ds, de) \<and>
      (unat c' + (unat n + unat z) \<le> unat bar \<and> unat de \<le> unat bar \<longrightarrow>
        free_place others bar a n z ds (auto_arena_start z c'))"
proof (induction "2 ^ 31 - unat c" arbitrary: c ds0 de0 rule: less_induct)
  case less
  have fit: "(ucast c :: u64) + (ucast n + ucast z) \<le> ucast bar \<longleftrightarrow> unat c + (unat n + unat z) \<le> unat bar"
  proof -
    have "unat ((ucast c :: u64) + (ucast n + ucast z)) = unat c + (unat n + unat z)"
      using unat_u32_less [of c] unat_u32_less [of n] unat_u32_less [of z]
      by (subst unat_add_lem [THEN iffD1]) (simp_all add: unat_sum_32_64)
    then show ?thesis by (simp add: word_le_nat_alt)
  qed
  have gs: "\<not> bad_align stp" using assms(1,5) not_bad_4096 by simp
  let ?ds = "auto_dev_start a z c" and ?as = "auto_arena_start z c" and ?ae = "auto_arena_end z c"
  show ?case
  proof (cases "unat c + (unat n + unat z) \<le> unat bar")
    case False
    then show ?thesis using fit by (subst auto_search.simps) simp
  next
    case fits: True
    then have fits': "unat c + unat n + unat z \<le> unat bar" by simp
    have al: "z = 0 \<Longrightarrow> unat a dvd unat c" using less.prems(2) assms(5) by simp
    have lay: "unat ?ae = unat ?as + unat z" "unat c + unat z \<le> unat ?ds"
      "unat (?ds + n) = unat ?ds + unat n" "unat a dvd unat ?ds" "apart (unat ?ds, unat n) (unat ?as, unat z)"
      using auto_layout [OF assms(1,2) fits' al] by simp_all
    show ?thesis
    proof (cases "?ds + n > bar")
      case True
      then show ?thesis using fits fit by (subst auto_search.simps) (simp add: Let_def word_less_nat_alt)
    next
      case de: False
      show ?thesis
      proof (cases "find (collides ?ds (?ds + n) ?as ?ae z) others")
        case (Some d)
        then have d: "d \<in> set others" "collides ?ds (?ds + n) ?as ?ae z d" by (auto simp: find_Some_iff)
        then have "unat (dev_next d) \<le> unat bar" using assms(4) dev_next_le by (simp add: list_all_iff)
        note st = step_cand [OF gs assms(2) this hit_collides_next [OF d(2)]]
        show ?thesis using less.hyps [OF st] lay(2) fits fit de Some assms(5)
          by (subst auto_search.simps) (simp add: Let_def)
      next
        case None
        have "regions_apart [(unat ?ds, unat n), (unat ?as, unat z)] (dev_regions d)" if "d \<in> set others" for d
          using that None assms(4) lay by (intro miss_collides_apart) (auto simp: find_None_iff list_all_iff)
        moreover have "unat ?as + unat z \<le> unat bar" using fits by (simp add: auto_arena_start_def)
        moreover have "unat ?ds + unat n \<le> unat bar" using de lay(3) by (simp add: word_less_nat_alt)
        ultimately have "free_place others bar a n z ?ds ?as"
          using lay by (simp add: free_place_def list_all_iff)
        then show ?thesis using fits fit de None by (subst auto_search.simps) (simp add: Let_def)
      qed
    qed
  qed
qed

end
