(* ===== verification/Mem_Pool_Correct.thy ===== *)
theory Mem_Pool_Correct
  imports Mem_Pool_Search
begin

text \<open>
  The invariant of a tenant's pool and what every operation of \<open>virt_mem_pool.c\<close> does to it: the
  grants are aligned, lie inside the BAR, stay within the quota and do not share a byte with a grant
  of the same kind, and \<open>allocated_bytes\<close> is the sum of the live grants.
\<close>

section \<open>The pool invariant\<close>

definition dev_bytes :: "virt_dev_partition \<Rightarrow> nat" where
  "dev_bytes d = sum_list (map snd (dev_regions d))"

definition ext_bytes :: "virt_mem_extent \<Rightarrow> nat" where
  "ext_bytes x = sum_list (map snd (ext_regions x))"

definition live_bytes :: "virt_tenant_pool \<Rightarrow> nat" where
  "live_bytes p = sum_list (map dev_bytes (tp_devices p)) + sum_list (map ext_bytes (tp_extents p))"

definition devs_apart :: "virt_dev_partition \<Rightarrow> virt_dev_partition \<Rightarrow> bool" where
  "devs_apart d d' \<longleftrightarrow> regions_apart (dev_regions d) (dev_regions d')"

definition exts_apart :: "virt_mem_extent \<Rightarrow> virt_mem_extent \<Rightarrow> bool" where
  "exts_apart x x' \<longleftrightarrow> regions_apart (ext_regions x) (ext_regions x')"

definition pool_wf :: "virt_tenant_pool \<Rightarrow> bool" where
  "pool_wf p \<longleftrightarrow>
     length (tp_devices p) = VIRT_MEM_MAX_DEVICES \<and> length (tp_extents p) = VIRT_MEM_MAX_EXTENTS \<and>
     unat (tp_bar_size p) < 2 ^ 31 \<and>
     list_all (dev_wf (tp_bar_size p)) (tp_devices p) \<and> sorted_wrt devs_apart (tp_devices p) \<and>
     list_all (ext_wf (tp_bar_size p)) (tp_extents p) \<and> sorted_wrt exts_apart (tp_extents p) \<and>
     unique_keys dp_in_use dp_dev_type (tp_devices p) \<and>
     unat (tp_allocated_bytes p) = live_bytes p"

lemma devs_apart_sym: "devs_apart d d' \<Longrightarrow> devs_apart d' d"
  by (simp add: devs_apart_def regions_apart_sym)

lemma exts_apart_sym: "exts_apart x x' \<Longrightarrow> exts_apart x' x"
  by (simp add: exts_apart_def regions_apart_sym)

lemma dev_bytes_live: "dp_in_use d \<Longrightarrow> dev_bytes d = unat (dp_size d) + unat (dp_rpc_arena_size d)"
  by (simp add: dev_bytes_def dev_regions_def)

lemma dead_dev [simp]: "\<not> dp_in_use d \<Longrightarrow> dev_regions d = []" "\<not> dp_in_use d \<Longrightarrow> dev_bytes d = 0"
  by (simp_all add: dev_bytes_def dev_regions_def)

lemma dead_ext [simp]: "\<not> ex_in_use x \<Longrightarrow> ext_regions x = []" "\<not> ex_in_use x \<Longrightarrow> ext_bytes x = 0"
  by (simp_all add: ext_bytes_def ext_regions_def)

lemma ext_bytes_live: "ex_in_use x \<Longrightarrow> ext_bytes x = unat (ex_size x)"
  by (simp add: ext_bytes_def ext_regions_def)

interpretation dev_table: keyed_slots dp_in_use dp_dev_type zero_dev
  by unfold_locales (simp add: zero_dev_def)

lemma existing_slotD:
  assumes "existing_slot p t = Some i"
  shows "i < length (tp_devices p)" and "dp_in_use (tp_devices p ! i)" and "dp_dev_type (tp_devices p ! i) = t"
  using first_idx_SomeD [OF assms [unfolded existing_slot_def]] by auto

lemma dev_bytes_le_allocated:
  assumes "pool_wf p" "i < length (tp_devices p)" "dp_in_use (tp_devices p ! i)"
  shows "unat (dp_size (tp_devices p ! i) + dp_rpc_arena_size (tp_devices p ! i)) = dev_bytes (tp_devices p ! i)"
    and "dev_bytes (tp_devices p ! i) \<le> unat (tp_allocated_bytes p)"
proof -
  have le: "dev_bytes (tp_devices p ! i) \<le> sum_list (map dev_bytes (tp_devices p))"
    using assms(2) by (intro sum_list_member_le) simp
  then show le': "dev_bytes (tp_devices p ! i) \<le> unat (tp_allocated_bytes p)"
    using assms(1) by (simp add: pool_wf_def live_bytes_def)
  show "unat (dp_size (tp_devices p ! i) + dp_rpc_arena_size (tp_devices p ! i)) = dev_bytes (tp_devices p ! i)"
    using le' unat_u32_less [of "tp_allocated_bytes p"] dev_bytes_live [OF assms(3)]
    by (simp add: unat_add_32)
qed

text \<open>\<open>allocated_excl\<close> counts exactly the grants that the request does not replace.\<close>

lemma unat_allocated_excluding:
  assumes "pool_wf p" "ex = existing_slot p t"
  shows "unat (allocated_excluding p ex) + (case ex of None \<Rightarrow> 0 | Some i \<Rightarrow> dev_bytes (tp_devices p ! i))
    = live_bytes p"
proof (cases ex)
  case None
  then show ?thesis using assms(1) by (simp add: allocated_excluding_def pool_wf_def)
next
  case (Some i)
  note e = existing_slotD [OF Some [unfolded assms(2)]]
  note b = dev_bytes_le_allocated [OF assms(1) e(1,2)]
  then have "dp_size (tp_devices p ! i) + dp_rpc_arena_size (tp_devices p ! i) \<le> tp_allocated_bytes p"
    by (simp add: word_le_nat_alt)
  then have "unat (allocated_excluding p ex) = unat (tp_allocated_bytes p) - dev_bytes (tp_devices p ! i)"
    using Some b(1) by (simp add: allocated_excluding_def Let_def unat_sub)
  then show ?thesis using Some b(2) assms(1) by (simp add: pool_wf_def)
qed

lemma unat_avail: "unat (avail q a) = unat q - unat a"
  by (auto simp: avail_def unat_sub word_less_nat_alt word_le_nat_alt)

section \<open>The quota ceiling\<close>

lemma dvd_and_not_mask:
  "\<not> bad_align a \<Longrightarrow> unat a dvd unat (x AND NOT (a - 1)) \<and> unat (x AND NOT (a - 1)) \<le> unat x"
proof -
  assume "\<not> bad_align a"
  then obtain k where k: "a = 2 ^ k" "unat a = 2 ^ k" using pow2_wordE good_align(1,2) by metis
  show ?thesis using k(2) by (simp add: k(1) unat_and_not_mask dvd_minus_mod)
qed

lemma quota_clampD:
  assumes "quota_clamp req a n0 z av = Some n" "\<not> bad_align a" "unat a dvd unat n0"
  shows "unat n + unat z \<le> unat av" and "unat a dvd unat n" and "unat n \<le> unat n0"
    and "n = n0 \<or> rq_flags req AND DEV_F_BEST_EFFORT \<noteq> 0"
proof -
  have gt: "(ucast n0 :: u64) + ucast z > ucast av \<longleftrightarrow> unat av < unat n0 + unat z"
    by (simp add: word_less_nat_alt unat_sum_32_64)
  let ?c = "(av - z) AND NOT (a - 1)"
  have "unat n + unat z \<le> unat av \<and> unat a dvd unat n \<and> unat n \<le> unat n0"
  proof (cases "unat av < unat n0 + unat z")
    case False
    then show ?thesis using assms gt by (simp add: quota_clamp_def)
  next
    case True
    then have n: "n = ?c" "av > z" using assms(1) gt by (auto simp: quota_clamp_def Let_def split: if_splits)
    have "unat (av - z) = unat av - unat z" using n(2) by (simp add: unat_sub)
    then show ?thesis using n dvd_and_not_mask [OF assms(2), of "av - z"] True
      by (auto simp: word_less_nat_alt)
  qed
  then show "unat n + unat z \<le> unat av" "unat a dvd unat n" "unat n \<le> unat n0" by auto
  show "n = n0 \<or> rq_flags req AND DEV_F_BEST_EFFORT \<noteq> 0"
    using assms(1) by (auto simp: quota_clamp_def split: if_splits)
qed

section \<open>Placement\<close>

lemma pool_wf_bar: "pool_wf p \<Longrightarrow> unat (tp_bar_size p) < 2 ^ 31"
  by (simp add: pool_wf_def)

lemma pool_wf_others:
  "pool_wf p \<Longrightarrow> list_all (\<lambda>d. dev_wf (tp_bar_size p) d \<and> dp_in_use d) (other_devs ex (tp_devices p))"
  by (simp add: pool_wf_def other_devs_live)

lemma place_preferred_spec:
  assumes wf: "pool_wf p" and al: "\<not> bad_align a" and sz: "unat n + unat z \<le> unat (tp_bar_size p)"
    and off: "off mod a = 0" and fit: "unat off + unat n \<le> unat (tp_bar_size p)"
  shows "\<exists>r. place_preferred p ex a n z av off = Some r \<and>
    (case r of Inl resp \<Rightarrow> rs_status resp \<noteq> 0
     | Inr (ds, s) \<Rightarrow> ds = off \<and> free_place (other_devs ex (tp_devices p)) (tp_bar_size p) a n z ds s)"
proof -
  let ?bar = "tp_bar_size p" and ?others = "other_devs ex (tp_devices p)"
  let ?as = "if z > 0 then off + n else 0" and ?ae = "if z > 0 then off + n + z else 0"
  note bar = pool_wf_bar [OF wf]
  have de: "unat (off + n) = unat off + unat n" using fit bar by (intro unat_add_32) simp
  have "unat (off + n + z) = unat off + unat n + unat z"
    using unat_add_32 [of "off + n" z] de fit sz bar by simp
  then have ae: "unat ?ae = unat ?as + unat z" using de by (auto simp: word_gt_0)
  have nz: "unat (n + z) = unat n + unat z" using sz bar by (intro unat_add_32) simp
  show ?thesis
  proof (cases "?ae > ?bar \<or> off + n > ?bar")
    case True
    then show ?thesis by (auto simp: place_preferred_def Let_def split: if_splits)
  next
    case inside: False
    show ?thesis
    proof (cases "find (collides off (off + n) ?as ?ae z) ?others")
      case (Some d)
      then have "d \<in> set ?others" by (auto simp: find_Some_iff)
      then have d: "unat (dev_next d) \<le> unat ?bar"
        using pool_wf_others [OF wf] dev_next_le by (auto simp: list_all_iff)
      have c0: "unat (dev_next d) + unat a \<le> 2 ^ 32" using d bar good_align(4) [OF al] by simp
      have "unat (align_up (dev_next d) a) \<le> 2 ^ 31"
        using d bar by (intro align_up_le [OF good_align(1,2) [OF al] c0 _ good_align(3) [OF al]]) simp
      moreover have "unat (n + z) \<le> unat ?bar" using nz sz by simp
      ultimately obtain r where "suggest_search ?others a (n + z) ?bar (align_up (dev_next d) a) = Some r"
        using suggest_search_spec [OF al bar _ pool_wf_others [OF wf]] align_up_dvd [OF good_align(1,2) [OF al]]
        by blast
      then show ?thesis using inside Some by (auto simp: place_preferred_def Let_def first_other_def)
    next
      case None
      have "regions_apart [(unat off, unat n), (unat ?as, unat z)] (dev_regions d)" if "d \<in> set ?others" for d
        using that None pool_wf_others [OF wf] de ae
        by (intro miss_collides_apart) (auto simp: find_None_iff list_all_iff)
      moreover have "unat a dvd unat off" using off by (metis dvd_eq_mod_eq_0 unat_mod unsigned_0)
      moreover have "unat ?as + unat z \<le> unat ?bar" using inside ae by (simp add: word_less_nat_alt not_less)
      moreover have "apart (unat off, unat n) (unat ?as, unat z)"
        using de by (auto simp: apart_def word_gt_0)
      ultimately have "free_place ?others ?bar a n z off ?as"
        using fit by (simp add: free_place_def list_all_iff)
      then show ?thesis using inside None
        by (cases "z > 0") (simp_all add: place_preferred_def Let_def first_other_def)
    qed
  qed
qed

lemma place_auto_spec:
  assumes wf: "pool_wf p" and al: "\<not> bad_align a" and sz: "unat n + unat z \<le> unat (tp_bar_size p)"
  shows "\<exists>r. place_auto p ex a n z av = Some r \<and>
    (case r of Inl resp \<Rightarrow> rs_status resp \<noteq> 0
     | Inr (ds, s) \<Rightarrow> free_place (other_devs ex (tp_devices p)) (tp_bar_size p) a n z ds s)"
proof -
  let ?bar = "tp_bar_size p" and ?others = "other_devs ex (tp_devices p)"
  obtain c ds de where r: "auto_search ?others a n z ?bar 0 0 0 = Some (c, ds, de)"
    and ok: "unat c + (unat n + unat z) \<le> unat ?bar \<and> unat de \<le> unat ?bar \<longrightarrow>
        free_place ?others ?bar a n z ds (auto_arena_start z c)"
    using auto_search_spec [OF al pool_wf_bar [OF wf] sz pool_wf_others [OF wf] refl, of 0 ex 0 0] by auto
  have "unat ((ucast c :: u64) + (ucast n + ucast z)) = unat c + (unat n + unat z)"
    using unat_u32_less [of c] unat_u32_less [of n] unat_u32_less [of z]
    by (subst unat_add_lem [THEN iffD1]) (simp_all add: unat_sum_32_64)
  then show ?thesis using r ok by (auto simp: place_auto_def word_less_nat_alt not_less)
qed

section \<open>The commit\<close>

lemma free_place_no_arena:
  "free_place others bar a n 0 ds s \<Longrightarrow> free_place others bar a n 0 ds 0"
  by (auto simp: free_place_def apart_def regions_apart_def list_all_iff)

lemma free_place_dev_wf:
  assumes "free_place others bar a (dp_size D) (dp_rpc_arena_size D) (dp_base_offset D) (dp_rpc_arena_offset D)"
  shows "dev_wf bar D" and "d \<in> set others \<Longrightarrow> devs_apart D d"
  using assms by (auto simp: free_place_def dev_wf_def in_bar_def dev_regions_def devs_apart_def list_all_iff)

lemma pool_wf_set_dev:
  assumes wf: "pool_wf p" and i: "i < length (tp_devices p)" and D: "dp_in_use D" "dp_dev_type D = t"
    and ex: "ex = existing_slot p t"
    and slot: "ex = Some i \<or> ex = None \<and> \<not> dp_in_use (tp_devices p ! i)"
    and fp: "free_place (other_devs ex (tp_devices p)) (tp_bar_size p) a
               (dp_size D) (dp_rpc_arena_size D) (dp_base_offset D) (dp_rpc_arena_offset D)"
    and al: "unat al = unat (allocated_excluding p ex) + dev_bytes D"
  shows "pool_wf (p\<lparr> tp_devices := (tp_devices p)[i := D], tp_allocated_bytes := al, tp_high_water_mark := h \<rparr>)"
proof -
  have apart: "devs_apart D (tp_devices p ! j)" if "j < length (tp_devices p)" "j \<noteq> i" for j
  proof (cases "dp_in_use (tp_devices p ! j)")
    case True
    then have "tp_devices p ! j \<in> set (other_devs ex (tp_devices p))"
      using that slot by (auto simp: set_other_devs)
    then show ?thesis by (rule free_place_dev_wf(2) [OF fp])
  qed (simp add: devs_apart_def)
  have uniq: "unique_keys dp_in_use dp_dev_type ((tp_devices p)[i := D])"
  proof (cases ex)
    case None
    then have "t \<notin> set (live_keys dp_in_use dp_dev_type (tp_devices p))"
      using ex by (auto simp: existing_slot_def slot_simps)
    then show ?thesis using None slot i wf D by (intro unique_keys_insert) (auto simp: pool_wf_def)
  next
    case (Some k)
    then have "k = i" using slot by simp
    then show ?thesis using existing_slotD [of p t i] Some ex i wf D
      by (intro unique_keys_update_same) (auto simp: pool_wf_def)
  qed
  have "dev_bytes (tp_devices p ! i) = (case ex of None \<Rightarrow> 0 | Some k \<Rightarrow> dev_bytes (tp_devices p ! k))"
    using slot by auto
  then have "unat al = live_bytes (p\<lparr> tp_devices := (tp_devices p)[i := D] \<rparr>)"
    using al unat_allocated_excluding [OF wf ex] sum_list_map_update [OF i, of dev_bytes D]
    by (simp add: live_bytes_def)
  then show ?thesis
    using wf uniq apart free_place_dev_wf(1) [OF fp]
    by (auto simp: pool_wf_def live_bytes_def intro: list_all_update sorted_wrt_update devs_apart_sym)
qed

definition granted_dev :: "amba_virt_dev_bounds_req \<Rightarrow> u32 \<Rightarrow> u32 \<Rightarrow> u32 \<Rightarrow> u32 \<Rightarrow> virt_dev_partition" where
  "granted_dev req n z ds s =
     \<lparr> dp_dev_type = rq_dev_type req, dp_base_offset = ds, dp_size = n,
       dp_rpc_arena_offset = (if z > 0 then s else 0), dp_rpc_arena_size = z,
       dp_flags = rq_flags req, dp_in_use = True \<rparr>"

lemma commit_bounds_cases:
  assumes wf: "pool_wf p" and ex: "ex = existing_slot p (rq_dev_type req)"
    and fp: "free_place (other_devs ex (tp_devices p)) (tp_bar_size p) a n z ds s"
    and q: "unat n + unat z \<le> unat (avail (tp_quota_max p) (allocated_excluding p ex))"
    and c: "commit_bounds p req shm ex (allocated_excluding p ex) n z ds s = (p', resp, shm')"
  obtains (full) "rs_status resp = - ENOMEM" "p' = p" "shm' = shm"
  | (granted) i where "rs_status resp = 0" "pool_wf p'" "i < length (tp_devices p)"
      "ex = Some i \<or> ex = None \<and> \<not> dp_in_use (tp_devices p ! i)"
      "tp_devices p' = (tp_devices p)[i := granted_dev req n z ds s]"
      "tp_extents p' = tp_extents p" "tp_bar_size p' = tp_bar_size p" "tp_quota_max p' = tp_quota_max p"
      "unat (tp_allocated_bytes p') \<le> max (unat (tp_quota_max p)) (unat (tp_allocated_bytes p))"
      "rs_granted_offset resp = ds" "rs_granted_size resp = n"
      "rs_rpc_arena_offset resp = (if z > 0 then s else 0)"
      "shm' = (if rq_flags req AND DEV_F_ZERO_INIT \<noteq> 0
               then map_option (\<lambda>m. if z > 0 then memset0 s z (memset0 ds n m) else memset0 ds n m) shm else shm)"
proof -
  let ?tgt = "case ex of Some i \<Rightarrow> Some i | None \<Rightarrow> first_idx (\<lambda>d. \<not> dp_in_use d) (tp_devices p)"
  show ?thesis
  proof (cases ?tgt)
    case None
    then have "rs_status resp = - ENOMEM" "p' = p" "shm' = shm"
      using c by (auto simp: commit_bounds_def)
    then show ?thesis by (rule full)
  next
    case (Some i)
    have slot: "ex = Some i \<or> ex = None \<and> \<not> dp_in_use (tp_devices p ! i)" and i: "i < length (tp_devices p)"
      using Some ex existing_slotD(1) [of p _ i] first_idx_SomeD [of "\<lambda>d. \<not> dp_in_use d" "tp_devices p" i]
      by (auto split: option.splits)
    let ?e = "allocated_excluding p ex" and ?D = "granted_dev req n z ds s"
    have sum: "unat (?e + n + z) = unat ?e + unat n + unat z
        \<and> unat ?e + unat n + unat z \<le> max (unat (tp_quota_max p)) (unat ?e)"
    proof (cases "unat n + unat z = 0")
      case True
      then show ?thesis by (simp add: unat_eq_0)
    next
      case False
      then have le: "unat ?e + unat n + unat z \<le> unat (tp_quota_max p)" using q unfolding unat_avail by linarith
      then show ?thesis
        using unat_u32_less [of "tp_quota_max p"] unat_add_32 [of ?e n] unat_add_32 [of "?e + n" z] by simp
    qed
    have D: "dp_in_use ?D" "dp_dev_type ?D = rq_dev_type req" by (simp_all add: granted_dev_def)
    have fpD: "free_place (other_devs ex (tp_devices p)) (tp_bar_size p) a
               (dp_size ?D) (dp_rpc_arena_size ?D) (dp_base_offset ?D) (dp_rpc_arena_offset ?D)"
      using fp free_place_no_arena by (auto simp: granted_dev_def word_gt_0)
    have al: "unat (?e + n + z) = unat ?e + dev_bytes ?D"
      using sum dev_bytes_live [OF D(1)] by (simp add: granted_dev_def)
    note wf' = pool_wf_set_dev [OF wf i D ex slot fpD al]
    have "unat ?e \<le> unat (tp_allocated_bytes p)"
      using unat_allocated_excluding [OF wf ex] wf by (simp add: pool_wf_def)
    then show ?thesis
      using c Some sum wf' by (intro granted [of i, OF _ _ i slot]) (auto simp: commit_bounds_def Let_def granted_dev_def)
  qed
qed

text \<open>
  Every call under the pool lock returns; it either refuses and changes nothing, or commits at a
  free place.
\<close>

lemma set_device_bounds_cases:
  assumes wf: "pool_wf p"
  obtains (refused) resp where "set_device_bounds_locked req shm p = Some (p, resp, shm)" "rs_status resp \<noteq> 0"
  | (placed) n ds s ex where "\<not> bad_align (eff_align req)" "ex = existing_slot p (rq_dev_type req)"
      "ex = None \<or> rq_flags req AND DEV_F_REPLACE \<noteq> 0"
      "free_place (other_devs ex (tp_devices p)) (tp_bar_size p) (eff_align req) n (arena_bytes req) ds s"
      "unat n + unat (arena_bytes req) \<le> unat (avail (tp_quota_max p) (allocated_excluding p ex))"
      "unat (eff_align req) dvd unat n"
      "unat n \<le> unat (align_up (rq_requested_size req) (eff_align req))"
      "n = align_up (rq_requested_size req) (eff_align req) \<or> rq_flags req AND DEV_F_BEST_EFFORT \<noteq> 0"
      "rq_preferred_offset req \<noteq> OFFSET_AUTO \<Longrightarrow> ds = rq_preferred_offset req"
      "set_device_bounds_locked req shm p
         = Some (commit_bounds p req shm ex (allocated_excluding p ex) n (arena_bytes req) ds s)"
proof -
  let ?a = "eff_align req" and ?z = "arena_bytes req" and ?off = "rq_preferred_offset req"
  let ?n0 = "align_up (rq_requested_size req) ?a" and ?ex = "existing_slot p (rq_dev_type req)"
  let ?av = "avail (tp_quota_max p) (allocated_excluding p ?ex)"
  let ?over = "(ucast ?n0 :: u64) + ucast ?z > ucast (tp_bar_size p)"
  let ?mis = "?off \<noteq> OFFSET_AUTO \<and> ?off mod ?a \<noteq> 0"
  let ?out = "?off \<noteq> OFFSET_AUTO \<and> (ucast ?off :: u64) + ucast ?n0 > ucast (tp_bar_size p)"
  let ?dup = "?ex \<noteq> None \<and> rq_flags req AND DEV_F_REPLACE = 0"
  let ?R = "\<exists>resp. set_device_bounds_locked req shm p = Some (p, resp, shm) \<and> rs_status resp \<noteq> 0"
  note defs = set_device_bounds_locked_def Let_def if_True if_False
  consider (bad) "bad_align ?a" | (over) "\<not> bad_align ?a" ?over | (mis) "\<not> bad_align ?a" "\<not> ?over" ?mis
    | (out) "\<not> bad_align ?a" "\<not> ?over" "\<not> ?mis" ?out
    | (dup) "\<not> bad_align ?a" "\<not> ?over" "\<not> ?mis" "\<not> ?out" ?dup
    | (quota) "\<not> bad_align ?a" "\<not> ?over" "\<not> ?mis" "\<not> ?out" "\<not> ?dup" "quota_clamp req ?a ?n0 ?z ?av = None"
    | (ok) n where "\<not> bad_align ?a" "\<not> ?over" "\<not> ?mis" "\<not> ?out" "\<not> ?dup" "quota_clamp req ?a ?n0 ?z ?av = Some n"
    by (metis not_None_eq)
  then show ?thesis
  proof cases
    case bad
    then have ?R by (simp only: defs) simp
    then show ?thesis using refused by blast
  next
    case over
    then have ?R by (simp only: defs) simp
    then show ?thesis using refused by blast
  next
    case mis
    then have ?R by (simp only: defs) simp
    then show ?thesis using refused by blast
  next
    case out
    then have ?R by (simp only: defs) simp
    then show ?thesis using refused by blast
  next
    case dup
    then have ?R by (simp only: defs) simp
    then show ?thesis using refused by blast
  next
    case quota
    then have ?R by (simp only: defs option.case) simp
    then show ?thesis using refused by blast
  next
    case (ok n)
    note al = ok(1) and n = ok(6)
    have "unat ?a dvd unat ?n0" using align_up_dvd good_align(1,2) [OF al] by blast
    note qc = quota_clampD [OF n al this]
    have sz: "unat n + unat ?z \<le> unat (tp_bar_size p)"
      using ok(2) qc(3) by (simp add: word_less_nat_alt unat_sum_32_64)
    let ?place = "if ?off \<noteq> OFFSET_AUTO then place_preferred p ?ex ?a n ?z ?av ?off
                  else place_auto p ?ex ?a n ?z ?av"
    have "\<exists>r. ?place = Some r \<and> (case r of Inl resp \<Rightarrow> rs_status resp \<noteq> 0
        | Inr (ds, s) \<Rightarrow> (?off \<noteq> OFFSET_AUTO \<longrightarrow> ds = ?off) \<and>
            free_place (other_devs ?ex (tp_devices p)) (tp_bar_size p) ?a n ?z ds s)"
    proof (cases "?off = OFFSET_AUTO")
      case True
      then show ?thesis using place_auto_spec [OF wf al sz, of ?ex ?av] by (auto split: sum.splits)
    next
      case False
      then have "?off mod ?a = 0" "unat ?off + unat n \<le> unat (tp_bar_size p)"
        using ok(3,4) qc(3) by (simp_all add: word_less_nat_alt unat_sum_32_64)
      then show ?thesis using place_preferred_spec [OF wf al sz, of ?off ?ex ?av] False by (auto split: sum.splits)
    qed
    then obtain r where r: "?place = Some r"
      and spec: "case r of Inl resp \<Rightarrow> rs_status resp \<noteq> 0
        | Inr (ds, s) \<Rightarrow> (?off \<noteq> OFFSET_AUTO \<longrightarrow> ds = ?off) \<and>
            free_place (other_devs ?ex (tp_devices p)) (tp_bar_size p) ?a n ?z ds s" by blast
    have eq: "set_device_bounds_locked req shm p = (case r of Inl resp \<Rightarrow> Some (p, resp, shm)
        | Inr (ds, s) \<Rightarrow> Some (commit_bounds p req shm ?ex (allocated_excluding p ?ex) n ?z ds s))"
      using ok r by (simp only: defs option.case)
    show ?thesis
    proof (cases r)
      case (Inl resp)
      then show ?thesis using eq spec by (intro refused) auto
    next
      case (Inr q)
      then obtain ds s where "q = (ds, s)" by (cases q)
      with Inr eq spec show ?thesis
        using ok(5) by (intro placed [OF al refl _ _ qc]) auto
    qed
  qed
qed

section \<open>Releasing a device\<close>

lemma pool_wf_drop_dev:
  assumes wf: "pool_wf p" and i: "i < length (tp_devices p)" "dp_in_use (tp_devices p ! i)"
    and al: "unat al = unat (tp_allocated_bytes p) - dev_bytes (tp_devices p ! i)" and D: "\<not> dp_in_use D"
  shows "pool_wf (p\<lparr> tp_allocated_bytes := al, tp_devices := (tp_devices p)[i := D] \<rparr>)"
proof -
  have "unat al = live_bytes (p\<lparr> tp_devices := (tp_devices p)[i := D] \<rparr>)"
    using al wf dev_bytes_le_allocated(2) [OF wf i] sum_list_map_update [OF i(1), of dev_bytes D] D
    by (simp add: live_bytes_def pool_wf_def)
  moreover have "dev_wf (tp_bar_size p) D" using D by (simp add: dev_wf_def in_bar_def)
  moreover have "devs_apart D d" for d using D by (simp add: devs_apart_def)
  ultimately show ?thesis
    using wf D
    by (auto simp: pool_wf_def live_bytes_def intro: list_all_update sorted_wrt_update devs_apart_sym
        unique_keys_clear)
qed

lemma release_device_bounds_wf:
  assumes wf: "pool_wf p" and r: "release_device_bounds_locked t p = (p', rc)"
  shows "pool_wf p'" and "rc = 0 \<longleftrightarrow> t \<in> set (live_keys dp_in_use dp_dev_type (tp_devices p))"
    and "tp_bar_size p' = tp_bar_size p"
proof -
  have "pool_wf p' \<and> (rc = 0 \<longleftrightarrow> t \<in> set (live_keys dp_in_use dp_dev_type (tp_devices p)))
      \<and> tp_bar_size p' = tp_bar_size p"
  proof (cases "existing_slot p t")
    case None
    then have "t \<notin> set (live_keys dp_in_use dp_dev_type (tp_devices p))"
      by (auto simp: existing_slot_def slot_simps)
    then show ?thesis using None wf r by (auto simp: release_device_bounds_locked_def)
  next
    case (Some i)
    note e = existing_slotD [OF Some]
    note b = dev_bytes_le_allocated [OF wf e(1,2)]
    let ?f = "dp_size (tp_devices p ! i) + dp_rpc_arena_size (tp_devices p ! i)"
    have le: "?f \<le> tp_allocated_bytes p" using b by (simp add: word_le_nat_alt)
    then have "unat (tp_allocated_bytes p - ?f) = unat (tp_allocated_bytes p) - dev_bytes (tp_devices p ! i)"
      using b(1) by (simp add: unat_sub)
    note wf' = pool_wf_drop_dev [OF wf e(1,2) this, of "(tp_devices p ! i)\<lparr> dp_in_use := False \<rparr>"]
    have "t \<in> set (live_keys dp_in_use dp_dev_type (tp_devices p))"
      using e nth_mem [OF e(1)] by (auto simp: set_live_keys)
    then show ?thesis using Some le r wf' by (auto simp: release_device_bounds_locked_def Let_def)
  qed
  then show "pool_wf p'" "rc = 0 \<longleftrightarrow> t \<in> set (live_keys dp_in_use dp_dev_type (tp_devices p))"
    "tp_bar_size p' = tp_bar_size p" by auto
qed

section \<open>Extents\<close>

lemma pool_wf_add_ext:
  assumes wf: "pool_wf p" and i: "i < length (tp_extents p)" "\<not> ex_in_use (tp_extents p ! i)"
    and E: "ext_wf (tp_bar_size p) E" "ex_in_use E"
    and apart: "list_all (\<lambda>x. regions_apart (ext_regions E) (ext_regions x)) (tp_extents p)"
    and al: "unat al = unat (tp_allocated_bytes p) + ext_bytes E"
  shows "pool_wf (p\<lparr> tp_extents := (tp_extents p)[i := E], tp_allocated_bytes := al, tp_high_water_mark := h \<rparr>)"
proof -
  have "unat al = live_bytes (p\<lparr> tp_extents := (tp_extents p)[i := E] \<rparr>)"
    using al wf sum_list_map_update [OF i(1), of ext_bytes E] i(2)
    by (simp add: live_bytes_def pool_wf_def)
  moreover have "exts_apart E (tp_extents p ! j)" if "j < length (tp_extents p)" for j
    using that apart by (simp add: exts_apart_def list_all_length)
  ultimately show ?thesis
    using wf E
    by (auto simp: pool_wf_def live_bytes_def intro: list_all_update sorted_wrt_update exts_apart_sym)
qed

definition new_extent :: "amba_virt_mem_req \<Rightarrow> u32 \<Rightarrow> u32 \<Rightarrow> virt_mem_extent" where
  "new_extent req c n = \<lparr> ex_offset = c, ex_size = n, ex_dev_type = mq_dev_affinity req,
     ex_flags = mq_flags req, ex_in_use = True \<rparr>"

abbreviation mem_align :: "amba_virt_mem_req \<Rightarrow> u32" where
  "mem_align req \<equiv> (if mq_align req \<noteq> 0 then mq_align req else 4096)"

lemma alloc_extent_cases:
  assumes wf: "pool_wf p"
  obtains (refused) resp where "alloc_extent_locked req shm base p = Some (p, resp, shm)" "mr_status resp \<noteq> 0"
  | (granted) i c p' resp where
      "alloc_extent_locked req shm base p
         = Some (p', resp, if mq_flags req AND DEV_F_ZERO_INIT \<noteq> 0
                           then map_option (memset0 c (align_up (mq_size req) (mem_align req))) shm else shm)"
      "mr_status resp = 0" "pool_wf p'" "i < length (tp_extents p)" "\<not> ex_in_use (tp_extents p ! i)"
      "tp_extents p' = (tp_extents p)[i := new_extent req c (align_up (mq_size req) (mem_align req))]"
      "tp_devices p' = tp_devices p" "tp_bar_size p' = tp_bar_size p" "tp_quota_max p' = tp_quota_max p"
      "unat (tp_allocated_bytes p') = unat (tp_allocated_bytes p) + unat (align_up (mq_size req) (mem_align req))"
      "unat (tp_allocated_bytes p') \<le> unat (tp_quota_max p)"
      "mr_bar_offset resp = c" "mr_allocated_size resp = align_up (mq_size req) (mem_align req)"
      "align_up (mq_size req) (mem_align req) \<noteq> 0" "unat (mem_align req) dvd unat c"
      "unat c + unat (align_up (mq_size req) (mem_align req)) \<le> unat (tp_bar_size p)"
      "list_all (\<lambda>d. regions_apart [(unat c, unat (align_up (mq_size req) (mem_align req)))] (dev_regions d)) (tp_devices p)"
      "list_all (\<lambda>x. regions_apart [(unat c, unat (align_up (mq_size req) (mem_align req)))] (ext_regions x)) (tp_extents p)"
proof -
  let ?a = "mem_align req" and ?bar = "tp_bar_size p"
  let ?n = "align_up (mq_size req) ?a" and ?av = "avail (tp_quota_max p) (tp_allocated_bytes p)"
  let ?R = "\<exists>resp. alloc_extent_locked req shm base p = Some (p, resp, shm) \<and> mr_status resp \<noteq> 0"
  note defs = alloc_extent_locked_def Let_def if_True if_False
  let ?slot = "first_idx (\<lambda>x. \<not> ex_in_use x) (tp_extents p)"
  consider (bad) "bad_align ?a \<or> ?n = 0 \<or> ?n > ?bar \<or> ?n > ?av \<or> ?slot = None"
    | (ok) i where "\<not> bad_align ?a" "?n \<noteq> 0" "\<not> ?n > ?bar" "\<not> ?n > ?av" "?slot = Some i"
    by (metis not_None_eq)
  then show ?thesis
  proof cases
    case bad
    then have ?R by (auto simp: alloc_extent_locked_def Let_def)
    then show ?thesis using refused by blast
  next
    case (ok i)
    note bar = pool_wf_bar [OF wf]
    have n: "unat ?n \<le> unat ?bar" using ok(3) by (simp add: word_less_nat_alt)
    obtain c where c: "extent_search (tp_devices p) (tp_extents p) ?a ?n ?bar 0 = Some c" "unat c \<le> 2 ^ 31"
        "unat ?a dvd unat c"
      and free: "c + ?n \<le> ?bar \<longrightarrow>
        list_all (\<lambda>d. regions_apart [(unat c, unat ?n)] (dev_regions d)) (tp_devices p) \<and>
        list_all (\<lambda>x. regions_apart [(unat c, unat ?n)] (ext_regions x)) (tp_extents p)"
      using extent_search_spec [OF ok(1) bar n, of "tp_devices p" "tp_extents p" 0] wf
      by (auto simp: pool_wf_def)
    have cn: "unat (c + ?n) = unat c + unat ?n" using cand_sum [OF c(2) n bar] .
    show ?thesis
    proof (cases "c + ?n > ?bar")
      case True
      then have ?R using ok c(1) by (simp only: defs option.case) simp
      then show ?thesis using refused by blast
    next
      case False
      then have fits: "c + ?n \<le> ?bar" by simp
      then have le: "unat c + unat ?n \<le> unat ?bar" using cn by (simp add: word_le_nat_alt)
      have q: "unat (tp_allocated_bytes p) + unat ?n \<le> unat (tp_quota_max p)"
      proof -
        have "unat ?n \<le> unat (tp_quota_max p) - unat (tp_allocated_bytes p)"
          using ok(4) by (simp add: word_less_nat_alt unat_avail)
        moreover have "0 < unat ?n" using ok(2) by (simp add: unat_gt_0)
        ultimately show ?thesis by linarith
      qed
      then have sum: "unat (tp_allocated_bytes p + ?n) = unat (tp_allocated_bytes p) + unat ?n"
        using unat_u32_less [of "tp_quota_max p"] by (intro unat_add_32) simp
      have i: "i < length (tp_extents p)" "\<not> ex_in_use (tp_extents p ! i)"
        using first_idx_SomeD [OF ok(5)] by auto
      let ?E = "new_extent req c ?n"
      have E: "ext_wf ?bar ?E" "ex_in_use ?E" "ext_bytes ?E = unat ?n" "ext_regions ?E = [(unat c, unat ?n)]"
        using le ok(2) by (simp_all add: ext_wf_def in_bar_def ext_regions_def ext_bytes_def new_extent_def)
      let ?p = "p\<lparr> tp_extents := (tp_extents p)[i := ?E],
             tp_allocated_bytes := tp_allocated_bytes p + ?n,
             tp_high_water_mark := (if tp_allocated_bytes p + ?n > tp_high_water_mark p
               then tp_allocated_bytes p + ?n else tp_high_water_mark p) \<rparr>"
      let ?resp = "zero_mem_resp\<lparr> mr_status := 0, mr_bar_offset := c, mr_allocated_size := ?n,
             mr_phys_addr := (if base \<noteq> 0 then base + ucast c else 0),
             mr_total_allocated := tp_allocated_bytes p + ?n,
             mr_total_free := avail (tp_quota_max p) (tp_allocated_bytes p + ?n) \<rparr>"
      have eq: "alloc_extent_locked req shm base p
         = Some (?p, ?resp, if mq_flags req AND DEV_F_ZERO_INIT \<noteq> 0 then map_option (memset0 c ?n) shm else shm)"
        using ok c(1) False by (simp only: defs option.case new_extent_def)
      have wf': "pool_wf ?p" using free fits sum E by (intro pool_wf_add_ext [OF wf i E(1,2)]) auto
      show ?thesis using wf' i sum q ok(2) c(3) le free fits by (intro granted [OF eq]) auto
    qed
  qed
qed

lemma live_ext_offset_unique:
  assumes wf: "pool_wf p" and i: "i < length (tp_extents p)" "ex_in_use (tp_extents p ! i)"
    and j: "j < length (tp_extents p)" "ex_in_use (tp_extents p ! j)"
    and eq: "ex_offset (tp_extents p ! i) = ex_offset (tp_extents p ! j)"
  shows "i = j"
proof (rule ccontr)
  assume "i \<noteq> j"
  have ord: "exts_apart (tp_extents p ! a) (tp_extents p ! b)" if "a < b" "b < length (tp_extents p)" for a b
    using wf that by (auto simp: pool_wf_def sorted_wrt_iff_nth_less)
  have "exts_apart (tp_extents p ! i) (tp_extents p ! j)"
    using ord [of i j] ord [of j i] i(1) j(1) \<open>i \<noteq> j\<close> exts_apart_sym by (cases "i < j") auto
  moreover have "ex_size (tp_extents p ! i) \<noteq> 0" "ex_size (tp_extents p ! j) \<noteq> 0"
    using wf i j by (auto simp: pool_wf_def list_all_length ext_wf_def)
  ultimately show False
    using i(2) j(2) eq by (auto simp: exts_apart_def regions_apart_def ext_regions_def apart_def unat_eq_0)
qed

lemma ext_size_le:
  assumes "pool_wf p" "i < length (tp_extents p)" "ex_in_use (tp_extents p ! i)"
  shows "unat (ex_size (tp_extents p ! i)) \<le> unat (tp_allocated_bytes p)"
proof -
  have "ext_bytes (tp_extents p ! i) \<le> sum_list (map ext_bytes (tp_extents p))"
    using assms(2) by (intro sum_list_member_le) simp
  then show ?thesis using ext_bytes_live [OF assms(3)] assms(1) by (simp add: pool_wf_def live_bytes_def)
qed

lemma free_extent_wf:
  assumes wf: "pool_wf p" and r: "free_extent_locked off resp p = (p', rc, resp')"
  shows "pool_wf p'" and "tp_bar_size p' = tp_bar_size p" and "tp_devices p' = tp_devices p"
proof -
  have "pool_wf p' \<and> tp_bar_size p' = tp_bar_size p \<and> tp_devices p' = tp_devices p"
  proof (cases "first_idx (\<lambda>x. ex_in_use x \<and> ex_offset x = off) (tp_extents p)")
    case None
    then show ?thesis using wf r by (auto simp: free_extent_locked_def)
  next
    case (Some i)
    have i: "i < length (tp_extents p)" "ex_in_use (tp_extents p ! i)" using first_idx_SomeD [OF Some] by auto
    let ?sz = "ex_size (tp_extents p ! i)" and ?E = "(tp_extents p ! i)\<lparr> ex_in_use := False \<rparr>"
    have b: "ext_bytes (tp_extents p ! i) = unat ?sz" by (rule ext_bytes_live [OF i(2)])
    have le: "unat ?sz \<le> unat (tp_allocated_bytes p)" by (rule ext_size_le [OF wf i])
    then have al: "unat (tp_allocated_bytes p - ?sz) = unat (tp_allocated_bytes p) - unat ?sz"
      by (simp add: unat_sub word_le_nat_alt)
    let ?p = "p\<lparr> tp_allocated_bytes := tp_allocated_bytes p - ?sz, tp_extents := (tp_extents p)[i := ?E] \<rparr>"
    have "unat (tp_allocated_bytes ?p) = live_bytes ?p"
      using al wf b le sum_list_map_update [OF i(1), of ext_bytes ?E] by (simp add: pool_wf_def live_bytes_def)
    moreover have "ext_wf (tp_bar_size p) ?E" by (simp add: ext_wf_def in_bar_def)
    moreover have "exts_apart ?E x" for x by (simp add: exts_apart_def)
    ultimately have "pool_wf ?p" using wf
      by (auto simp: pool_wf_def live_bytes_def intro: list_all_update sorted_wrt_update exts_apart_sym)
    then show ?thesis using Some le r by (auto simp: free_extent_locked_def Let_def word_le_nat_alt)
  qed
  then show "pool_wf p'" "tp_bar_size p' = tp_bar_size p" "tp_devices p' = tp_devices p" by auto
qed

section \<open>What the operations leave alone\<close>

definition pool_id :: "virt_tenant_pool \<Rightarrow> u32 \<times> u32 \<times> u32 \<times> bool" where
  "pool_id p = (tp_cid p, tp_tenant_idx p, tp_bar_size p, tp_in_use p)"

lemma commit_bounds_id: "commit_bounds p req shm ex e n z ds s = (p', resp, shm') \<Longrightarrow> pool_id p' = pool_id p"
  by (auto simp: commit_bounds_def Let_def pool_id_def split: option.splits)

lemma set_device_bounds_result:
  assumes wf: "pool_wf p" and r: "set_device_bounds_locked req shm p = Some (p', resp, shm')"
  obtains (refused) "rs_status resp \<noteq> 0" "p' = p" "shm' = shm"
  | (granted) ex i n ds s where "rs_status resp = 0" "pool_wf p'" "pool_id p' = pool_id p"
      "tp_extents p' = tp_extents p" "tp_quota_max p' = tp_quota_max p"
      "\<not> bad_align (eff_align req)" "ex = existing_slot p (rq_dev_type req)"
      "ex = None \<or> rq_flags req AND DEV_F_REPLACE \<noteq> 0"
      "i < length (tp_devices p)" "ex = Some i \<or> ex = None \<and> \<not> dp_in_use (tp_devices p ! i)"
      "tp_devices p' = (tp_devices p)[i := granted_dev req n (arena_bytes req) ds s]"
      "free_place (other_devs ex (tp_devices p)) (tp_bar_size p) (eff_align req) n (arena_bytes req) ds s"
      "unat (eff_align req) dvd unat n"
      "unat n \<le> unat (align_up (rq_requested_size req) (eff_align req))"
      "n = align_up (rq_requested_size req) (eff_align req) \<or> rq_flags req AND DEV_F_BEST_EFFORT \<noteq> 0"
      "rq_preferred_offset req \<noteq> OFFSET_AUTO \<Longrightarrow> ds = rq_preferred_offset req"
      "unat (tp_allocated_bytes p') \<le> max (unat (tp_quota_max p)) (unat (tp_allocated_bytes p))"
      "rs_granted_offset resp = ds" "rs_granted_size resp = n"
      "rs_rpc_arena_offset resp = (if arena_bytes req > 0 then s else 0)"
      "shm' = (if rq_flags req AND DEV_F_ZERO_INIT \<noteq> 0
               then map_option (\<lambda>m. if arena_bytes req > 0 then memset0 s (arena_bytes req) (memset0 ds n m)
                                    else memset0 ds n m) shm else shm)"
  using wf
proof (rule set_device_bounds_cases [of p req shm])
  fix resp'
  assume "set_device_bounds_locked req shm p = Some (p, resp', shm)" "rs_status resp' \<noteq> 0"
  then show thesis using r refused by simp
next
  fix n ds s ex
  assume a: "ex = existing_slot p (rq_dev_type req)"
    "free_place (other_devs ex (tp_devices p)) (tp_bar_size p) (eff_align req) n (arena_bytes req) ds s"
    "unat n + unat (arena_bytes req) \<le> unat (avail (tp_quota_max p) (allocated_excluding p ex))"
    "set_device_bounds_locked req shm p
       = Some (commit_bounds p req shm ex (allocated_excluding p ex) n (arena_bytes req) ds s)"
    and b: "\<not> bad_align (eff_align req)" "ex = None \<or> rq_flags req AND DEV_F_REPLACE \<noteq> 0"
    "unat (eff_align req) dvd unat n"
    "unat n \<le> unat (align_up (rq_requested_size req) (eff_align req))"
    "n = align_up (rq_requested_size req) (eff_align req) \<or> rq_flags req AND DEV_F_BEST_EFFORT \<noteq> 0"
    "rq_preferred_offset req \<noteq> OFFSET_AUTO \<Longrightarrow> ds = rq_preferred_offset req"
  have c: "commit_bounds p req shm ex (allocated_excluding p ex) n (arena_bytes req) ds s = (p', resp, shm')"
    using a(4) r by simp
  show thesis
  proof (cases rule: commit_bounds_cases [OF wf a(1-3) c])
    case 1
    then show ?thesis by (intro refused) simp_all
  next
    case (2 i)
    show ?thesis
      by (rule granted [OF 2(1,2) commit_bounds_id [OF c] 2(6,8) b(1) a(1) b(2) 2(3,4,5) a(2) b(3-6) 2(9-13)])
  qed
qed

lemma alloc_extent_id:
  assumes "alloc_extent_locked req shm base p = Some (p', resp, shm')"
  shows "pool_id p' = pool_id p"
  using assms by (auto simp: alloc_extent_locked_def Let_def pool_id_def split: if_splits option.splits)

lemma release_device_bounds_id: "release_device_bounds_locked t p = (p', rc) \<Longrightarrow> pool_id p' = pool_id p"
  by (auto simp: release_device_bounds_locked_def Let_def pool_id_def split: option.splits)

lemma free_extent_id: "free_extent_locked off resp p = (p', rc, resp') \<Longrightarrow> pool_id p' = pool_id p"
  by (auto simp: free_extent_locked_def Let_def pool_id_def split: option.splits)

lemma set_device_bounds_wf:
  assumes "pool_wf p" "set_device_bounds_locked req shm p = Some (p', resp, shm')"
  shows "pool_wf p'" and "pool_id p' = pool_id p"
  using assms by (auto elim: set_device_bounds_result)

lemma alloc_extent_wf:
  assumes "pool_wf p" "alloc_extent_locked req shm base p = Some (p', resp, shm')"
  shows "pool_wf p'"
  using assms(1) by (rule alloc_extent_cases [of p req shm base]) (use assms in auto)

end
