(* ===== verification/Mem_Pool_Tenants.thy ===== *)
theory Mem_Pool_Tenants
  imports Mem_Pool_Correct
begin

text \<open>
  The table of tenant pools and the properties of \<open>virt_mem_pool.c\<close>: one live entry per cid and per
  slice index, every live entry well formed after every operation, and what a grant, a refusal and a
  range check mean for the bytes of the guest's BAR.
\<close>

section \<open>A tenant table\<close>

definition pool_dead :: "virt_tenant_pool \<Rightarrow> bool" where
  "pool_dead p \<longleftrightarrow> length (tp_devices p) = VIRT_MEM_MAX_DEVICES \<and> length (tp_extents p) = VIRT_MEM_MAX_EXTENTS \<and>
     list_all (\<lambda>d. \<not> dp_in_use d) (tp_devices p) \<and> list_all (\<lambda>x. \<not> ex_in_use x) (tp_extents p)"

definition entry_wf :: "u32 \<Rightarrow> virt_tenant_pool \<Rightarrow> bool" where
  "entry_wf B p \<longleftrightarrow> (if tp_in_use p then pool_wf p \<and> tp_bar_size p = B else pool_dead p)"

text \<open>
  \<open>mem_wf B\<close>: every live entry is well formed and has a BAR of \<open>B\<close> bytes, a free entry holds no
  live grant, and no two live entries share a cid or a slice index.
\<close>

definition mem_wf :: "u32 \<Rightarrow> mem_pool_state \<Rightarrow> bool" where
  "mem_wf B st \<longleftrightarrow>
     length (g_tenant_pools st) = VIRT_MEM_MAX_TENANTS \<and>
     list_all (entry_wf B) (g_tenant_pools st) \<and>
     unique_keys tp_in_use tp_cid (g_tenant_pools st) \<and>
     unique_keys tp_in_use tp_tenant_idx (g_tenant_pools st)"

interpretation cid_table: keyed_slots tp_in_use tp_cid zero_pool
  by unfold_locales (simp add: zero_pool_def)

interpretation index_table: keyed_slots tp_in_use tp_tenant_idx zero_pool
  by unfold_locales (simp add: zero_pool_def)

lemma pool_dead_release:
  "pool_wf p \<or> pool_dead p \<Longrightarrow> pool_dead (pool_entry_release p)"
  by (auto simp: pool_dead_def pool_entry_release_def pool_wf_def list_all_iff)

lemma dead_sums:
  assumes "pool_dead p"
  shows "sum_list (map dev_bytes (tp_devices p)) = 0" and "sum_list (map ext_bytes (tp_extents p)) = 0"
    and "list_all (dev_wf B) (tp_devices p)" and "list_all (ext_wf B) (tp_extents p)"
    and "sorted_wrt devs_apart (tp_devices p)" and "sorted_wrt exts_apart (tp_extents p)"
    and "unique_keys dp_in_use dp_dev_type (tp_devices p)"
  using assms
  by (auto simp: pool_dead_def list_all_iff sum_list_eq_0_iff dev_wf_def ext_wf_def in_bar_def
      sorted_wrt_iff_nth_less devs_apart_def exts_apart_def unique_keys_def live_keys_def filter_False)

lemma pool_wf_claim:
  assumes "pool_dead p" "unat B < 2 ^ 31" "0 < B"
  shows "pool_wf (claim_tenant d cid idx B q p)"
  using assms(2,3) dead_sums [OF assms(1)] assms(1)
  by (simp add: pool_wf_def claim_tenant_def Let_def live_bytes_def pool_dead_def)

lemma pool_wf_fields:
  assumes "pool_wf p" "tp_devices p' = tp_devices p" "tp_extents p' = tp_extents p"
    and "tp_bar_size p' = tp_bar_size p" "tp_allocated_bytes p' = tp_allocated_bytes p"
  shows "pool_wf p'"
  using assms by (simp add: pool_wf_def live_bytes_def)

lemma mem_wf_nth:
  "mem_wf B st \<Longrightarrow> i < length (g_tenant_pools st) \<Longrightarrow> tp_in_use (g_tenant_pools st ! i) \<Longrightarrow>
     pool_wf (g_tenant_pools st ! i) \<and> tp_bar_size (g_tenant_pools st ! i) = B"
  by (auto simp: mem_wf_def list_all_length entry_wf_def)

lemma get_tenantD:
  "virt_mem_pool_get_tenant cid st = Some i \<Longrightarrow>
     i < length (g_tenant_pools st) \<and> tp_in_use (g_tenant_pools st ! i) \<and> tp_cid (g_tenant_pools st ! i) = cid"
  by (auto simp: virt_mem_pool_get_tenant_def holds_cid_def split: if_splits dest: first_idx_SomeD)

text \<open>An operation under one pool's lock keeps the table: it may change anything but the entry's identity.\<close>

lemma mem_wf_update_pool:
  assumes wf: "mem_wf B st" and i: "i < length (g_tenant_pools st)" "tp_in_use (g_tenant_pools st ! i)"
    and p: "pool_wf p" "pool_id p = pool_id (g_tenant_pools st ! i)"
  shows "mem_wf B (st\<lparr> g_tenant_pools := (g_tenant_pools st)[i := p] \<rparr>)"
proof -
  have "unique_keys tp_in_use tp_cid ((g_tenant_pools st)[i := p])"
    "unique_keys tp_in_use tp_tenant_idx ((g_tenant_pools st)[i := p])"
    using wf i p by (auto simp: mem_wf_def pool_id_def intro: unique_keys_update_same)
  moreover have "entry_wf B p"
    using p i mem_wf_nth [OF wf i] by (simp add: entry_wf_def pool_id_def)
  ultimately show ?thesis using wf by (auto simp: mem_wf_def intro: list_all_update)
qed

text \<open>Reclaiming an index releases at most the entries of other cids on it.\<close>

lemma reclaim_live:
  "p \<in> set (reclaim_index cid idx ps) \<Longrightarrow> tp_in_use p \<Longrightarrow> p \<in> set ps \<and> (tp_cid p = cid \<or> tp_tenant_idx p \<noteq> idx)"
  by (auto simp: reclaim_index_def pool_entry_release_def split: if_splits)

lemma live_keys_reclaim:
  "live_keys tp_in_use f (reclaim_index cid idx ps)
     = map f (filter (\<lambda>p. tp_cid p = cid \<or> tp_tenant_idx p \<noteq> idx) (filter tp_in_use ps))"
  by (induction ps) (auto simp: reclaim_index_def live_keys_def pool_entry_release_def)

lemma unique_reclaim: "unique_keys tp_in_use f ps \<Longrightarrow> unique_keys tp_in_use f (reclaim_index cid idx ps)"
  using distinct_map_filter [of f "filter tp_in_use ps" "\<lambda>p. tp_cid p = cid \<or> tp_tenant_idx p \<noteq> idx"]
  by (simp only: unique_keys_def live_keys_reclaim) (simp only: live_keys_def)

lemma entry_wf_reclaim: "list_all (entry_wf B) ps \<Longrightarrow> list_all (entry_wf B) (reclaim_index cid idx ps)"
  by (auto simp: list_all_iff reclaim_index_def entry_wf_def pool_dead_release split: if_splits)
     (simp_all add: pool_entry_release_def)

lemma length_reclaim [simp]: "length (reclaim_index cid idx ps) = length ps"
  by (simp add: reclaim_index_def)

lemma holds_cid_other:
  assumes "\<not> tp_in_use (ps ! i) \<or> tp_cid (ps ! i) = cid" "i < length ps" "unique_keys tp_in_use tp_cid ps"
    and "first_idx (holds_cid cid) ps = None \<or> first_idx (holds_cid cid) ps = Some i"
    and "j < length ps" "j \<noteq> i" "tp_in_use (ps ! j)"
  shows "tp_cid (ps ! j) \<noteq> cid"
proof
  assume "tp_cid (ps ! j) = cid"
  then have h: "holds_cid cid (ps ! j)" using assms(7) by (simp add: holds_cid_def)
  then obtain k where "first_idx (holds_cid cid) ps = Some k"
    using assms(5) first_idx_exI [of "ps ! j" ps "holds_cid cid"] by auto
  then have "first_idx (holds_cid cid) ps = Some i" using assms(4) by simp
  then have "tp_in_use (ps ! i)" "tp_cid (ps ! i) = cid"
    using first_idx_SomeD [of "holds_cid cid" ps i] by (auto simp: holds_cid_def)
  then show False
    using unique_keys_nth [OF assms(3,5,2,7)] \<open>tp_cid (ps ! j) = cid\<close> assms(6) by simp
qed

lemma register_update_wf:
  assumes ps: "list_all (entry_wf B) ps" "unique_keys tp_in_use tp_cid ps" "unique_keys tp_in_use tp_tenant_idx ps"
    and re: "\<And>p. p \<in> set ps \<Longrightarrow> tp_in_use p \<Longrightarrow> tp_cid p = cid \<or> tp_tenant_idx p \<noteq> idx"
    and i: "i < length ps" "\<not> tp_in_use (ps ! i) \<or> tp_cid (ps ! i) = cid"
      "first_idx (holds_cid cid) ps = None \<or> first_idx (holds_cid cid) ps = Some i"
    and x: "entry_wf B x" "tp_cid x = cid" "tp_tenant_idx x = idx"
  shows "list_all (entry_wf B) (ps[i := x]) \<and> unique_keys tp_in_use tp_cid (ps[i := x]) \<and>
    unique_keys tp_in_use tp_tenant_idx (ps[i := x])"
proof -
  have o: "tp_cid (ps ! j) \<noteq> cid" if "j < length ps" "j \<noteq> i" "tp_in_use (ps ! j)" for j
    using holds_cid_other [OF i(2,1) ps(2) i(3) that] .
  moreover have "tp_tenant_idx (ps ! j) \<noteq> idx" if "j < length ps" "j \<noteq> i" "tp_in_use (ps ! j)" for j
    using re [of "ps ! j"] o [OF that] that by auto
  ultimately show ?thesis
    using ps x by (auto intro!: list_all_update unique_keys_replace)
qed

lemma register_tenant_wf:
  assumes wf: "mem_wf B st" and B: "0 < B" "unat B < 2 ^ 31" and init: "g_pool_initialized st"
    and r: "virt_mem_pool_register_tenant cid idx B q st = (st', rc)"
  shows "mem_wf B st' \<and> g_pool_initialized st' \<and> (rc = 0 \<or> rc = - ENOSPC) \<and>
    (rc = 0 \<longleftrightarrow> (\<exists>p \<in> set (g_tenant_pools st'). tp_in_use p \<and> tp_cid p = cid \<and> tp_tenant_idx p = idx))"
proof -
  let ?ps = "reclaim_index cid idx (g_tenant_pools st)"
  have ps: "list_all (entry_wf B) ?ps" "unique_keys tp_in_use tp_cid ?ps" "unique_keys tp_in_use tp_tenant_idx ?ps"
    "length ?ps = VIRT_MEM_MAX_TENANTS"
    using wf by (auto simp: mem_wf_def entry_wf_reclaim unique_reclaim)
  have re: "\<And>p. p \<in> set ?ps \<Longrightarrow> tp_in_use p \<Longrightarrow> tp_cid p = cid \<or> tp_tenant_idx p \<noteq> idx"
    using reclaim_live by blast
  show ?thesis
  proof (cases "first_idx (holds_cid cid) ?ps")
    case (Some i)
    have i: "i < length ?ps" "tp_in_use (?ps ! i)" "tp_cid (?ps ! i) = cid"
      using first_idx_SomeD [OF Some] by (auto simp: holds_cid_def)
    let ?x = "update_tenant idx B q (?ps ! i)"
    have w: "pool_wf (?ps ! i)" "tp_bar_size (?ps ! i) = B" using ps(1) i by (auto simp: list_all_length entry_wf_def)
    have "entry_wf B ?x"
      using pool_wf_fields [OF w(1), of ?x] w(2) i B by (simp add: entry_wf_def update_tenant_def)
    then have "list_all (entry_wf B) (?ps[i := ?x]) \<and> unique_keys tp_in_use tp_cid (?ps[i := ?x]) \<and>
        unique_keys tp_in_use tp_tenant_idx (?ps[i := ?x])"
      using i Some by (intro register_update_wf [OF ps(1-3) re]) (auto simp: update_tenant_def)
    moreover have "?x \<in> set (?ps[i := ?x])" using i by (simp add: set_update_memI)
    ultimately show ?thesis using r init Some ps(4) i
      by (auto simp: virt_mem_pool_register_tenant_def Let_def mem_wf_def
          intro!: bexI [of _ ?x]) (simp_all add: update_tenant_def)
  next
    case none: None
    show ?thesis
    proof (cases "first_idx (\<lambda>p. \<not> tp_in_use p) ?ps")
      case None
      then have "st' = st\<lparr> g_tenant_pools := ?ps \<rparr>" "rc = - ENOSPC"
        using r init none by (simp_all add: virt_mem_pool_register_tenant_def Let_def)
      moreover have "\<not> (\<exists>p \<in> set ?ps. tp_in_use p \<and> tp_cid p = cid)"
        using none by (auto simp: first_idx_None holds_cid_def)
      ultimately show ?thesis using ps init by (auto simp: mem_wf_def)
    next
      case (Some i)
      have i: "i < length ?ps" "\<not> tp_in_use (?ps ! i)" using first_idx_SomeD [OF Some] by auto
      let ?x = "claim_tenant (g_default_bar_size st) cid idx B q (?ps ! i)"
      have "pool_dead (?ps ! i)" using ps(1) i by (auto simp: list_all_length entry_wf_def)
      then have "entry_wf B ?x"
        using pool_wf_claim B by (simp add: entry_wf_def claim_tenant_def Let_def)
      then have "list_all (entry_wf B) (?ps[i := ?x]) \<and> unique_keys tp_in_use tp_cid (?ps[i := ?x]) \<and>
          unique_keys tp_in_use tp_tenant_idx (?ps[i := ?x])"
        using i none by (intro register_update_wf [OF ps(1-3) re]) (auto simp: claim_tenant_def Let_def)
      moreover have "?x \<in> set (?ps[i := ?x])" using i by (simp add: set_update_memI)
      ultimately show ?thesis using r init none Some ps(4) i
        by (auto simp: virt_mem_pool_register_tenant_def Let_def mem_wf_def
          intro!: bexI [of _ ?x]) (simp_all add: claim_tenant_def Let_def)
    qed
  qed
qed

section \<open>Runs of operations\<close>

text \<open>
  The requests the server serves, with every guest BAR of \<open>B\<close> bytes (the usable size of a slice).
  Zeroing writes only to the guest's memory, so the shared mapping is left out of the runs.
\<close>

datatype mem_op =
    Register u32 u32 u32
  | Unregister u32
  | Set_quota u32 u32
  | Set_bounds u32 amba_virt_dev_bounds_req
  | Release_bounds u32 u32
  | Alloc u32 amba_virt_mem_req u64
  | Free u32 u32

fun mem_step :: "u32 \<Rightarrow> mem_op \<Rightarrow> mem_pool_state \<Rightarrow> mem_pool_state option" where
  "mem_step B (Register cid idx quota) st = Some (fst (virt_mem_pool_register_tenant cid idx B quota st))"
| "mem_step B (Unregister cid) st = Some (fst (virt_mem_pool_unregister_tenant cid st))"
| "mem_step B (Set_quota cid mb) st = Some (fst (virt_mem_pool_set_quota cid mb st))"
| "mem_step B (Set_bounds cid req) st = map_option fst (virt_mem_pool_set_device_bounds cid (Some req) None st)"
| "mem_step B (Release_bounds cid t) st = Some (fst (virt_mem_pool_release_device_bounds cid t st))"
| "mem_step B (Alloc cid req base) st = map_option fst (virt_mem_pool_alloc_extent cid (Some req) None base st)"
| "mem_step B (Free cid off) st = Some (fst (virt_mem_pool_free_extent cid off zero_mem_resp st))"

fun mem_run :: "u32 \<Rightarrow> mem_op list \<Rightarrow> mem_pool_state \<Rightarrow> mem_pool_state option" where
  "mem_run B [] st = Some st"
| "mem_run B (op # ops) st = (case mem_step B op st of None \<Rightarrow> None | Some st' \<Rightarrow> mem_run B ops st')"

lemma mem_wf_unregister: "mem_wf B st \<Longrightarrow> mem_wf B (fst (virt_mem_pool_unregister_tenant cid st))"
proof -
  assume wf: "mem_wf B st"
  show ?thesis
  proof (cases "first_idx (holds_cid cid) (g_tenant_pools st)")
    case (Some i)
    have i: "i < length (g_tenant_pools st)" "tp_in_use (g_tenant_pools st ! i)"
      using first_idx_SomeD [OF Some] by (auto simp: holds_cid_def)
    let ?x = "pool_entry_release (g_tenant_pools st ! i)"
    have dead: "\<not> tp_in_use ?x" by (simp add: pool_entry_release_def)
    have "entry_wf B ?x" using mem_wf_nth [OF wf i] dead by (simp add: entry_wf_def pool_dead_release)
    then show ?thesis using wf Some dead
      by (auto simp: virt_mem_pool_unregister_tenant_def mem_wf_def intro: list_all_update unique_keys_clear)
  qed (simp add: virt_mem_pool_unregister_tenant_def wf)
qed

lemma get_tenant_wf: "mem_wf B st \<Longrightarrow> virt_mem_pool_get_tenant cid st = Some i \<Longrightarrow> pool_wf (g_tenant_pools st ! i)"
  using get_tenantD mem_wf_nth by blast

lemma mem_wf_locked:
  "\<lbrakk> mem_wf B st; virt_mem_pool_get_tenant cid st = Some i; pool_wf p; pool_id p = pool_id (g_tenant_pools st ! i) \<rbrakk>
   \<Longrightarrow> mem_wf B (st\<lparr> g_tenant_pools := (g_tenant_pools st)[i := p] \<rparr>)"
  using get_tenantD mem_wf_update_pool by blast

lemma mem_wf_set_quota:
  assumes "mem_wf B st"
  shows "mem_wf B (fst (virt_mem_pool_set_quota cid mb st))"
proof (cases "virt_mem_pool_get_tenant cid st")
  case (Some i)
  have "pool_wf ((g_tenant_pools st ! i)\<lparr> tp_quota_max := q \<rparr>)" for q
    using pool_wf_fields [OF get_tenant_wf [OF assms Some]] by simp
  then show ?thesis using mem_wf_locked [OF assms Some] Some assms
    by (simp add: virt_mem_pool_set_quota_def Let_def pool_id_def)
qed (simp add: virt_mem_pool_set_quota_def Let_def assms)

lemma mem_wf_set_bounds:
  assumes "mem_wf B st"
  shows "\<exists>r. virt_mem_pool_set_device_bounds cid req shm st = Some r \<and> mem_wf B (fst r) \<and>
    g_pool_initialized (fst r) = g_pool_initialized st"
proof (cases "virt_mem_pool_get_tenant cid st")
  case None
  then show ?thesis using assms by (cases req) (simp_all add: virt_mem_pool_set_device_bounds_def)
next
  case (Some i)
  note w = get_tenant_wf [OF assms Some]
  have "\<exists>p resp shm'. set_device_bounds_locked rq shm (g_tenant_pools st ! i) = Some (p, resp, shm') \<and>
      mem_wf B (st\<lparr> g_tenant_pools := (g_tenant_pools st)[i := p] \<rparr>)" for rq
  proof -
    obtain p resp shm' where r: "set_device_bounds_locked rq shm (g_tenant_pools st ! i) = Some (p, resp, shm')"
      using set_device_bounds_cases [OF w, of rq shm] by (metis prod_cases3)
    then show ?thesis using mem_wf_locked [OF assms Some set_device_bounds_wf [OF w r]] by blast
  qed
  then show ?thesis using Some assms
    by (cases req) (force simp: virt_mem_pool_set_device_bounds_def)+
qed

lemma mem_wf_alloc:
  assumes "mem_wf B st"
  shows "\<exists>r. virt_mem_pool_alloc_extent cid req shm base st = Some r \<and> mem_wf B (fst r) \<and>
    g_pool_initialized (fst r) = g_pool_initialized st"
proof (cases "virt_mem_pool_get_tenant cid st")
  case None
  then show ?thesis using assms by (cases req) (simp_all add: virt_mem_pool_alloc_extent_def)
next
  case (Some i)
  note w = get_tenant_wf [OF assms Some]
  have "\<exists>p resp shm'. alloc_extent_locked rq shm base (g_tenant_pools st ! i) = Some (p, resp, shm') \<and>
      mem_wf B (st\<lparr> g_tenant_pools := (g_tenant_pools st)[i := p] \<rparr>)" for rq
  proof -
    obtain p resp shm' where r: "alloc_extent_locked rq shm base (g_tenant_pools st ! i) = Some (p, resp, shm')"
      using alloc_extent_cases [OF w, of rq shm base] by metis
    then show ?thesis using mem_wf_locked [OF assms Some alloc_extent_wf [OF w r] alloc_extent_id [OF r]] by blast
  qed
  then show ?thesis using Some assms
    by (cases req) (force simp: virt_mem_pool_alloc_extent_def)+
qed

lemma mem_wf_release:
  assumes "mem_wf B st"
  shows "mem_wf B (fst (virt_mem_pool_release_device_bounds cid t st))"
proof (cases "virt_mem_pool_get_tenant cid st")
  case (Some i)
  obtain p rc where r: "release_device_bounds_locked t (g_tenant_pools st ! i) = (p, rc)"
    by (metis surj_pair)
  note w = get_tenant_wf [OF assms Some]
  show ?thesis
    using mem_wf_locked [OF assms Some release_device_bounds_wf(1) [OF w r] release_device_bounds_id [OF r]] Some r
    by (simp add: virt_mem_pool_release_device_bounds_def)
qed (simp add: virt_mem_pool_release_device_bounds_def assms)

lemma mem_wf_free:
  assumes "mem_wf B st"
  shows "mem_wf B (fst (virt_mem_pool_free_extent cid off resp st))"
proof (cases "virt_mem_pool_get_tenant cid st")
  case (Some i)
  obtain p rc resp' where r: "free_extent_locked off resp (g_tenant_pools st ! i) = (p, rc, resp')"
    by (metis prod_cases3)
  note w = get_tenant_wf [OF assms Some]
  show ?thesis
    using mem_wf_locked [OF assms Some free_extent_wf(1) [OF w r] free_extent_id [OF r]] Some r
    by (simp add: virt_mem_pool_free_extent_def)
qed (simp add: virt_mem_pool_free_extent_def assms)

lemma mem_step_init: "mem_step B op st = Some st' \<Longrightarrow> g_pool_initialized st' = g_pool_initialized st"
  by (cases op)
    (auto simp: virt_mem_pool_register_tenant_def virt_mem_pool_unregister_tenant_def virt_mem_pool_set_quota_def
      virt_mem_pool_set_device_bounds_def virt_mem_pool_release_device_bounds_def virt_mem_pool_alloc_extent_def
      virt_mem_pool_free_extent_def Let_def split: option.splits if_splits prod.splits)

lemma mem_step_wf:
  assumes wf: "mem_wf B st" and init: "g_pool_initialized st" and B: "0 < B" "unat B < 2 ^ 31"
  shows "\<exists>st'. mem_step B op st = Some st' \<and> mem_wf B st'"
proof (cases op)
  case (Register cid idx quota)
  then show ?thesis
    using register_tenant_wf [OF wf B init surjective_pairing, of cid idx quota] by simp
next
  case (Set_bounds cid req)
  then show ?thesis using mem_wf_set_bounds [OF wf, of cid "Some req" None] by auto
next
  case (Alloc cid req base)
  then show ?thesis using mem_wf_alloc [OF wf, of cid "Some req" None base] by auto
qed (simp_all add: wf mem_wf_unregister mem_wf_set_quota mem_wf_release mem_wf_free)

lemma mem_run_wf:
  assumes "mem_wf B st" "g_pool_initialized st" "0 < B" "unat B < 2 ^ 31"
  shows "\<exists>st'. mem_run B ops st = Some st' \<and> mem_wf B st'"
  using assms(1,2)
proof (induction ops arbitrary: st)
  case (Cons op ops)
  obtain st' where st': "mem_step B op st = Some st'" "mem_wf B st'"
    using mem_step_wf [OF Cons.prems assms(3,4)] by blast
  then show ?case using Cons.IH [OF st'(2)] mem_step_init [OF st'(1)] Cons.prems(2) by simp
qed simp

lemma mem_wf_init: "0 < B \<Longrightarrow> mem_wf B (virt_mem_pool_init B st)"
proof -
  assume "0 < B"
  have "pool_dead (zero_pool\<lparr> tp_bar_size := B, tp_quota_max := B \<rparr>)"
    by (simp add: pool_dead_def zero_pool_def zero_dev_def zero_extent_def list_all_iff)
  then show ?thesis
    by (simp add: mem_wf_def virt_mem_pool_init_def Let_def \<open>0 < B\<close> entry_wf_def list_all_iff zero_pool_def
        unique_keys_def live_keys_replicate)
qed

end
