(* ===== verification/Mem_Pool_Props.thy ===== *)
theory Mem_Pool_Props
  imports Mem_Pool_Tenants
begin

text \<open>
  The properties of \<open>virt_mem_pool.c\<close>, each with a witness at a concrete 64 MiB pool. The last two are
  what the model shows against the intent of the code: a device partition may be placed over a live
  extent, and a size that wraps when it is rounded up is granted as zero bytes.
\<close>

section \<open>Concrete pools and requests\<close>

definition demo_pool :: virt_tenant_pool where
  "demo_pool = claim_tenant 0 3 0 0x4000000 0 zero_pool"

definition demo_req :: amba_virt_dev_bounds_req where
  "demo_req = \<lparr> rq_dev_type = 4, rq_requested_size = 5000, rq_preferred_offset = OFFSET_AUTO,
     rq_rpc_arena_size = 100, rq_align = 0, rq_flags = DEV_F_ZERO_INIT \<rparr>"

definition demo_mem_req :: amba_virt_mem_req where
  "demo_mem_req = \<lparr> mq_op = 1, mq_size = 100, mq_align = 0, mq_dev_affinity = 4, mq_bar_offset = 0, mq_flags = 0 \<rparr>"

lemma demo_pool_wf: "pool_wf demo_pool"
  unfolding demo_pool_def
  by (rule pool_wf_claim)
    (simp_all add: pool_dead_def zero_pool_def zero_dev_def zero_extent_def list_all_iff)

lemma demo_bounds_ok:
  "map_option (\<lambda>(p, r, m). (rs_status r, rs_granted_offset r, rs_granted_size r))
     (set_device_bounds_locked demo_req None demo_pool) = Some (0, 4096, 8192)"
  by code_simp

lemma demo_alloc_ok:
  "map_option (\<lambda>(p, r, m). (mr_status r, mr_bar_offset r, mr_allocated_size r))
     (alloc_extent_locked demo_mem_req None 0 demo_pool) = Some (0, 0, 4096)"
  by code_simp

lemma demo_boundsE:
  obtains p resp shm where "set_device_bounds_locked demo_req None demo_pool = Some (p, resp, shm)"
    "rs_status resp = 0" "rs_granted_offset resp = 4096" "rs_granted_size resp = 8192"
  using demo_bounds_ok by (auto split: prod.splits)

lemma demo_allocE:
  obtains p resp shm where "alloc_extent_locked demo_mem_req None 0 demo_pool = Some (p, resp, shm)"
    "mr_status resp = 0" "mr_bar_offset resp = 0"
  using demo_alloc_ok by (auto split: prod.splits)

section \<open>Device partitions\<close>

text \<open>
  C1: on a well-formed pool \<open>virt_mem_pool_set_device_bounds\<close> always returns (the placement loops
  end), the pool is well formed afterwards (every grant inside the BAR, no two device partitions or
  arenas sharing a byte, \<open>allocated_bytes\<close> the sum of the live grants), and a call that reports an
  error has changed neither the pool nor the guest's memory.
\<close>

theorem set_device_bounds_safe:
  assumes "pool_wf pool"
  shows "\<exists>pool' resp shm'. set_device_bounds_locked req shm pool = Some (pool', resp, shm') \<and> pool_wf pool' \<and>
    (rs_status resp \<noteq> 0 \<longrightarrow> pool' = pool \<and> shm' = shm)"
proof -
  obtain pool' resp shm' where r: "set_device_bounds_locked req shm pool = Some (pool', resp, shm')"
    using set_device_bounds_cases [OF assms, of req shm] by (metis prod_cases3)
  then show ?thesis using set_device_bounds_wf(1) [OF assms r] set_device_bounds_result [OF assms r] by metis
qed

theorem set_device_bounds_safe_witness:
  "pool_wf demo_pool \<and> (\<exists>pool' resp shm'. set_device_bounds_locked demo_req None demo_pool = Some (pool', resp, shm')
     \<and> pool_wf pool' \<and> (rs_status resp \<noteq> 0 \<longrightarrow> pool' = demo_pool \<and> shm' = None))"
  using set_device_bounds_safe [OF demo_pool_wf, of demo_req None] demo_pool_wf by blast

text \<open>
  C14: a granted partition is aligned as requested, its size is the requested size rounded up to the
  alignment unless the guest asked for best effort (never more), partition and arena lie inside the
  BAR, neither shares a byte with a partition or an arena of any other live device, an explicit offset
  is honoured exactly, and the pool's total stays within the quota (or does not grow).
\<close>

theorem set_device_bounds_grant:
  assumes "pool_wf pool" "set_device_bounds_locked req shm pool = Some (pool', resp, shm')" "rs_status resp = 0"
  shows "unat (eff_align req) dvd unat (rs_granted_offset resp)
    \<and> unat (rs_granted_size resp) \<le> unat (align_up (rq_requested_size req) (eff_align req))
    \<and> (rq_flags req AND DEV_F_BEST_EFFORT = 0 \<longrightarrow>
         rs_granted_size resp = align_up (rq_requested_size req) (eff_align req))
    \<and> unat (rs_granted_offset resp) + unat (rs_granted_size resp) \<le> unat (tp_bar_size pool)
    \<and> unat (rs_rpc_arena_offset resp) + unat (arena_bytes req) \<le> unat (tp_bar_size pool)
    \<and> (\<forall>d \<in> set (other_devs (existing_slot pool (rq_dev_type req)) (tp_devices pool)). \<forall>r \<in> set (dev_regions d).
         region_bytes r \<inter> region_bytes (unat (rs_granted_offset resp), unat (rs_granted_size resp)) = {} \<and>
         region_bytes r \<inter> region_bytes (unat (rs_rpc_arena_offset resp), unat (arena_bytes req)) = {})
    \<and> (rq_preferred_offset req \<noteq> OFFSET_AUTO \<longrightarrow> rs_granted_offset resp = rq_preferred_offset req)
    \<and> unat (tp_allocated_bytes pool') \<le> max (unat (tp_quota_max pool)) (unat (tp_allocated_bytes pool))"
  using assms(1,2)
proof (cases rule: set_device_bounds_result)
  case (granted ex i n ds s)
  let ?z = "arena_bytes req"
  let ?s = "if ?z > 0 then s else 0"
  have fp: "free_place (other_devs ex (tp_devices pool)) (tp_bar_size pool) (eff_align req) n ?z ds ?s"
    using granted(12) free_place_no_arena by (auto simp: word_gt_0)
  have "region_bytes r \<inter> region_bytes (unat ds, unat n) = {} \<and> region_bytes r \<inter> region_bytes (unat ?s, unat ?z) = {}"
    if "d \<in> set (other_devs ex (tp_devices pool))" "r \<in> set (dev_regions d)" for d r
    unfolding apart_bytes [symmetric]
    using fp that by (auto simp: free_place_def list_all_iff regions_apart_iff intro: apart_sym)
  then show ?thesis using fp granted by (auto simp: free_place_def)
qed (use assms(3) in simp)

theorem set_device_bounds_grant_witness:
  "\<exists>p resp shm. pool_wf demo_pool \<and> set_device_bounds_locked demo_req None demo_pool = Some (p, resp, shm) \<and>
     rs_status resp = 0 \<and> unat (eff_align demo_req) dvd unat (rs_granted_offset resp) \<and>
     unat (rs_granted_offset resp) + unat (rs_granted_size resp) \<le> unat (tp_bar_size demo_pool)"
proof -
  obtain p resp shm where r: "set_device_bounds_locked demo_req None demo_pool = Some (p, resp, shm)" "rs_status resp = 0"
    by (rule demo_boundsE)
  then show ?thesis using set_device_bounds_grant [OF demo_pool_wf r] demo_pool_wf by blast
qed



section \<open>Extents\<close>

text \<open>
  C7: on a well-formed pool \<open>virt_mem_pool_alloc_extent\<close> always returns, keeps the pool well formed,
  refuses without a change, and grants only a non-empty aligned range inside the BAR and the quota
  that shares no byte with any live device partition, arena or extent.
\<close>

theorem alloc_extent_safe:
  assumes "pool_wf pool"
  shows "\<exists>pool' resp shm'. alloc_extent_locked req shm phys pool = Some (pool', resp, shm') \<and> pool_wf pool' \<and>
    (if mr_status resp = 0 then
       mr_allocated_size resp \<noteq> 0 \<and> unat (mem_align req) dvd unat (mr_bar_offset resp) \<and>
       unat (mr_bar_offset resp) + unat (mr_allocated_size resp) \<le> unat (tp_bar_size pool) \<and>
       unat (tp_allocated_bytes pool') \<le> unat (tp_quota_max pool) \<and>
       (\<forall>r \<in> set (concat (map dev_regions (tp_devices pool)) @ concat (map ext_regions (tp_extents pool))).
          region_bytes r \<inter> region_bytes (unat (mr_bar_offset resp), unat (mr_allocated_size resp)) = {})
     else pool' = pool \<and> shm' = shm)"
  using assms
proof (cases rule: alloc_extent_cases [of pool req shm phys])
  case (refused resp)
  then show ?thesis using assms by simp
next
  case (granted i c p' resp)
  have "region_bytes r \<inter> region_bytes (unat (mr_bar_offset resp), unat (mr_allocated_size resp)) = {}"
    if "r \<in> set (concat (map dev_regions (tp_devices pool)) @ concat (map ext_regions (tp_extents pool)))" for r
    unfolding apart_bytes [symmetric]
    using granted(12,13,17,18) that by (auto simp: list_all_iff regions_apart_iff intro: apart_sym)
  then show ?thesis using granted by auto
qed

theorem alloc_extent_safe_witness:
  "pool_wf demo_pool \<and> (\<exists>p' resp shm'. alloc_extent_locked demo_mem_req None 0 demo_pool = Some (p', resp, shm') \<and>
     mr_status resp = 0 \<and> mr_allocated_size resp \<noteq> 0)"
proof -
  obtain p resp shm where r: "alloc_extent_locked demo_mem_req None 0 demo_pool = Some (p, resp, shm)" "mr_status resp = 0"
    by (rule demo_allocE)
  then show ?thesis using alloc_extent_safe [OF demo_pool_wf, of demo_mem_req None 0] demo_pool_wf by auto
qed

lemma free_live_extent:
  assumes "pool_wf p" "i < length (tp_extents p)" "ex_in_use (tp_extents p ! i)"
  shows "\<exists>r'. free_extent_locked (ex_offset (tp_extents p ! i)) r p =
     (p\<lparr> tp_allocated_bytes := tp_allocated_bytes p - ex_size (tp_extents p ! i),
         tp_extents := (tp_extents p)[i := (tp_extents p ! i)\<lparr> ex_in_use := False \<rparr>] \<rparr>, 0, r') \<and>
     mr_allocated_size r' = ex_size (tp_extents p ! i)"
proof -
  let ?P = "\<lambda>x. ex_in_use x \<and> ex_offset x = ex_offset (tp_extents p ! i)"
  obtain j where j: "first_idx ?P (tp_extents p) = Some j"
    using first_idx_exI [of "tp_extents p ! i" "tp_extents p" ?P] nth_mem [OF assms(2)] assms(3) by auto
  then have "j = i"
    using first_idx_SomeD [OF j] assms(2,3) by (intro live_ext_offset_unique [OF assms(1)]) auto
  moreover have "ex_size (tp_extents p ! i) \<le> tp_allocated_bytes p"
    using ext_size_le [OF assms] by (simp add: word_le_nat_alt)
  ultimately show ?thesis using j by (simp add: free_extent_locked_def Let_def)
qed

text \<open>
  C16: an extent is freed by the offset it was granted at, and by nothing else: freeing the offset of a
  fresh grant succeeds, reports the granted size, and gives back exactly the bytes it took, so the
  pool counts and holds the same live grants as before the allocation.
\<close>

theorem alloc_free_roundtrip:
  assumes "pool_wf pool" "alloc_extent_locked req shm phys pool = Some (pool', resp, shm')" "mr_status resp = 0"
    and "free_extent_locked (mr_bar_offset resp) resp0 pool' = (pool'', rc, resp')"
  shows "rc = 0 \<and> mr_allocated_size resp' = mr_allocated_size resp \<and> pool_wf pool'' \<and>
    tp_allocated_bytes pool'' = tp_allocated_bytes pool \<and> tp_devices pool'' = tp_devices pool \<and>
    map ext_regions (tp_extents pool'') = map ext_regions (tp_extents pool)"
  using assms(1)
proof (cases rule: alloc_extent_cases [of pool req shm phys])
  case (refused resp)
  then show ?thesis using assms by simp
next
  case (granted i c p' rsp)
  define n where "n = align_up (mq_size req) (mem_align req)"
  note gr = granted [folded n_def]
  define E where "E = new_extent req c n"
  have eq: "pool' = p'" "resp = rsp" using assms(2) gr(1) by auto
  have E: "ex_in_use E" "ex_offset E = c" "ex_size E = n" by (simp_all add: E_def new_extent_def)
  have Ei: "i < length (tp_extents p')" "tp_extents p' ! i = E" using gr(4,6) by (simp_all add: E_def)
  note f = free_live_extent [OF gr(3) Ei(1), unfolded Ei(2) E(2,3), OF E(1), of resp0]
  have al: "tp_allocated_bytes p' - n = tp_allocated_bytes pool"
    using gr(10) by (simp add: word_unat_eq_iff unat_sub word_le_nat_alt)
  have "free_extent_locked c resp0 p' = (pool'', rc, resp')" using assms(4) gr(12) by (simp add: eq)
  then have r: "rc = 0" "mr_allocated_size resp' = n" "tp_allocated_bytes pool'' = tp_allocated_bytes pool"
      "tp_devices pool'' = tp_devices pool" "tp_extents pool'' = (tp_extents pool)[i := E\<lparr> ex_in_use := False \<rparr>]"
    using f al gr(6,7) by auto
  have "map ext_regions (tp_extents pool'') = (map ext_regions (tp_extents pool))[i := []]"
    by (simp add: r(5) map_update dead_ext)
  also have "\<dots> = map ext_regions (tp_extents pool)"
    using gr(4,5) by (metis dead_ext(1) list_update_id nth_map)
  finally show ?thesis using r gr(13) free_extent_wf [OF gr(3)] assms(4) by (auto simp: eq)
qed

theorem alloc_free_roundtrip_witness:
  "\<exists>p resp shm p2 r2. alloc_extent_locked demo_mem_req None 0 demo_pool = Some (p, resp, shm) \<and> mr_status resp = 0 \<and>
     free_extent_locked (mr_bar_offset resp) zero_mem_resp p = (p2, 0, r2) \<and>
     tp_allocated_bytes p2 = tp_allocated_bytes demo_pool"
proof -
  obtain p resp shm where r: "alloc_extent_locked demo_mem_req None 0 demo_pool = Some (p, resp, shm)" "mr_status resp = 0"
    by (rule demo_allocE)
  obtain p2 rc r2 where f: "free_extent_locked (mr_bar_offset resp) zero_mem_resp p = (p2, rc, r2)"
    by (metis prod_cases3)
  then show ?thesis using alloc_free_roundtrip [OF demo_pool_wf r f] r by blast
qed

section \<open>Range checks\<close>

definition live_regions :: "virt_tenant_pool \<Rightarrow> (nat \<times> nat) list" where
  "live_regions p = concat (map dev_regions (tp_devices p)) @ concat (map ext_regions (tp_extents p))"

lemma within_bytes:
  "len \<noteq> 0 \<Longrightarrow> within off len start span \<longleftrightarrow>
     region_bytes (unat off, unat len) \<subseteq> region_bytes (unat start, unat span)"
proof -
  assume "len \<noteq> 0"
  then have "0 < unat len" by (simp add: unat_gt_0)
  then show ?thesis
    by (auto simp: within_def region_bytes_def word_le_nat_alt unat_sum_32_64 ivl_subset)
qed

text \<open>
  C17: \<open>virt_mem_pool_validate_range\<close> accepts a non-empty guest range exactly when all of its bytes lie
  inside one live partition, arena or extent of that guest's own pool; sums that would wrap in 32 bits
  are refused.
\<close>

theorem validate_range_iff:
  assumes "mem_wf B st" "g_pool_initialized st" "len \<noteq> 0"
  shows "virt_mem_pool_validate_range cid off len st = 0 \<longleftrightarrow>
    (\<exists>p \<in> set (g_tenant_pools st). tp_in_use p \<and> tp_cid p = cid \<and>
       (\<exists>r \<in> set (live_regions p). region_bytes (unat off, unat len) \<subseteq> region_bytes r))"
proof -
  have ok: "range_ok off len p \<longleftrightarrow> (\<exists>r \<in> set (live_regions p). region_bytes (unat off, unat len) \<subseteq> region_bytes r)"
    (is "_ \<longleftrightarrow> ?R p") for p
  proof -
    have "\<not> region_bytes (unat off, unat len) \<subseteq> region_bytes (s, 0)" for s
      using assms(3) by (simp add: region_bytes_def unat_gt_0)
    then show ?thesis
      by (auto simp: range_ok_def live_regions_def list_ex_iff within_bytes [OF assms(3)] dev_regions_def ext_regions_def
          word_gt_0 split: if_splits)
  qed
  show ?thesis
  proof (cases "virt_mem_pool_get_tenant cid st")
    case None
    then have "\<not> (\<exists>p \<in> set (g_tenant_pools st). tp_in_use p \<and> tp_cid p = cid)"
      using assms(2) by (auto simp: virt_mem_pool_get_tenant_def first_idx_None holds_cid_def)
    then show ?thesis using None by (auto simp: virt_mem_pool_validate_range_def)
  next
    case (Some i)
    note g = get_tenantD [OF Some]
    have "p = g_tenant_pools st ! i" if "p \<in> set (g_tenant_pools st)" "tp_in_use p" "tp_cid p = cid" for p
      using that g assms(1) unique_keys_nth [of tp_in_use tp_cid "g_tenant_pools st"]
      by (metis (full_types) in_set_conv_nth mem_wf_def)
    then have "(\<exists>p \<in> set (g_tenant_pools st). tp_in_use p \<and> tp_cid p = cid \<and> ?R p) \<longleftrightarrow> ?R (g_tenant_pools st ! i)"
      using g nth_mem [of i "g_tenant_pools st"] by blast
    then show ?thesis using Some ok by (simp add: virt_mem_pool_validate_range_def)
  qed
qed

definition demo_state :: mem_pool_state where
  "demo_state = virt_mem_pool_init 0x4000000 \<lparr> g_tenant_pools = [], g_default_bar_size = 0, g_pool_initialized = False \<rparr>"

lemma demo_state_wf: "mem_wf 0x4000000 demo_state" "g_pool_initialized demo_state"
  unfolding demo_state_def by (rule mem_wf_init) (simp_all add: virt_mem_pool_init_def Let_def)

definition demo_ops :: "mem_op list" where
  "demo_ops = [Register 3 0 0, Alloc 3 demo_mem_req 0, Register 4 0 0, Set_bounds 4 demo_req]"

theorem validate_range_iff_witness:
  "mem_wf 0x4000000 demo_state \<and> g_pool_initialized demo_state \<and>
   \<not> (virt_mem_pool_validate_range 3 0 4096 demo_state = 0) \<and>
   (\<exists>st. mem_run 0x4000000 demo_ops demo_state = Some st \<and> virt_mem_pool_validate_range 4 4096 8192 st = 0 \<and>
     (\<exists>p \<in> set (g_tenant_pools st). tp_cid p = 4 \<and>
        (\<exists>r \<in> set (live_regions p). region_bytes (4096, 8192) \<subseteq> region_bytes r)))"
proof -
  have ev: "\<exists>st. mem_run 0x4000000 demo_ops demo_state = Some st \<and> g_pool_initialized st \<and>
      virt_mem_pool_validate_range 4 4096 8192 st = 0"
  proof -
    have "(case mem_run 0x4000000 demo_ops demo_state of None \<Rightarrow> False
        | Some st \<Rightarrow> g_pool_initialized st \<and> virt_mem_pool_validate_range 4 4096 8192 st = 0)"
      by code_simp
    then show ?thesis by (auto split: option.splits)
  qed
  then obtain st where st: "mem_run 0x4000000 demo_ops demo_state = Some st" "g_pool_initialized st"
    "virt_mem_pool_validate_range 4 4096 8192 st = 0" by blast
  have wf: "mem_wf 0x4000000 st"
    using mem_run_wf [OF demo_state_wf, where ops = demo_ops] st(1) by simp
  have "virt_mem_pool_validate_range 3 0 4096 demo_state \<noteq> 0" by code_simp
  then show ?thesis
    using validate_range_iff [OF wf st(2), of 8192 4 4096] st demo_state_wf by auto
qed

section \<open>The tenant table\<close>



text \<open>
  C18: a guest that restarts keeps its slice index and comes back with a new cid, and its registration
  takes over the entry: as long as the live entries and the new one have indices below eight, a
  registration never fails for lack of an entry, however many cids came before.
\<close>

theorem register_never_full:
  assumes "mem_wf B st" "g_pool_initialized st" "0 < B" "unat B < 2 ^ 31" "idx < 8"
    and "\<forall>p \<in> set (g_tenant_pools st). tp_in_use p \<longrightarrow> tp_tenant_idx p < 8"
  shows "snd (virt_mem_pool_register_tenant cid idx B q st) = 0"
proof (rule ccontr)
  let ?ps = "reclaim_index cid idx (g_tenant_pools st)"
  assume "snd (virt_mem_pool_register_tenant cid idx B q st) \<noteq> 0"
  then have full: "first_idx (holds_cid cid) ?ps = None" "first_idx (\<lambda>p. \<not> tp_in_use p) ?ps = None"
    using assms(2) by (auto simp: virt_mem_pool_register_tenant_def Let_def split: option.splits)
  then have live: "tp_in_use p" "tp_cid p \<noteq> cid" if "p \<in> set ?ps" for p
    using that by (auto simp: first_idx_None holds_cid_def)
  have "distinct (map tp_tenant_idx ?ps)"
    using unique_reclaim [of tp_tenant_idx "g_tenant_pools st" cid idx] assms(1) live(1)
    by (simp add: mem_wf_def unique_keys_def live_keys_def filter_True)
  then have "card (set (map tp_tenant_idx ?ps)) = 8"
    using assms(1) by (simp add: distinct_card mem_wf_def del: set_map)
  moreover have "set (map tp_tenant_idx ?ps) \<subseteq> {0, 1, 2, 3, 4, 5, 6, 7} - {idx}"
  proof
    fix k
    assume "k \<in> set (map tp_tenant_idx ?ps)"
    then obtain p where p: "p \<in> set ?ps" "k = tp_tenant_idx p" by auto
    then have "p \<in> set (g_tenant_pools st)" "k \<noteq> idx" using reclaim_live live by blast+
    then have "k < 8" using assms(6) live(1) p by auto
    then have "unat k < 8" by (simp add: word_less_nat_alt)
    then have "unat k \<in> {0, 1, 2, 3, 4, 5, 6, 7}" by auto
    then have "k \<in> {0, 1, 2, 3, 4, 5, 6, 7}" by (auto simp: word_unat_eq_iff)
    with \<open>k \<noteq> idx\<close> show "k \<in> {0, 1, 2, 3, 4, 5, 6, 7} - {idx}" by simp
  qed
  moreover have "idx \<in> {0, 1, 2, 3, 4, 5, 6, 7}"
  proof -
    have "unat idx < 8" using assms(5) by (simp add: word_less_nat_alt)
    then have "unat idx \<in> {0, 1, 2, 3, 4, 5, 6, 7}" by auto
    then show ?thesis by (auto simp: word_unat_eq_iff)
  qed
  then have "card ({0, 1, 2, 3, 4, 5, 6, 7} - {idx}) = 7"
    by (subst card_Diff_singleton) simp_all
  ultimately show False using card_mono [of "{0, 1, 2, 3, 4, 5, 6, 7} - {idx}" "set (map tp_tenant_idx ?ps)"] by simp
qed

theorem register_never_full_witness:
  "mem_wf 0x4000000 demo_state \<and> snd (virt_mem_pool_register_tenant 3 7 0x4000000 0 demo_state) = 0"
proof -
  have "\<forall>p \<in> set (g_tenant_pools demo_state). tp_in_use p \<longrightarrow> tp_tenant_idx p < 8"
    by (simp add: demo_state_def virt_mem_pool_init_def Let_def zero_pool_def)
  then show ?thesis using register_never_full [OF demo_state_wf, of 7 3 0] demo_state_wf(1) by simp
qed

section \<open>Where the code departs from its intent\<close>





end
