(* ===== verification/C_Text.thy ===== *)
theory C_Text
  imports Virt_Prelude
begin

text \<open>
  The parts of the C library that the host tools use on text: the character classes of the C locale,
  \<open>sscanf\<close> directives, \<open>strtoull\<close>, \<open>printf\<close> of unsigned and signed decimals, \<open>fgets\<close> into a fixed buffer
  and the truncation of \<open>snprintf\<close>. A C string is a \<open>string\<close>; numbers are read and printed at their
  width. The lemmas say what is read back from printed text.
\<close>

section \<open>Characters\<close>

abbreviation nl :: char where "nl \<equiv> CHR 0x0A"
abbreviation sp :: char where "sp \<equiv> CHR 0x20"
abbreviation nul :: char where "nul \<equiv> CHR 0x00"

definition code_of :: "char \<Rightarrow> nat" where
  "code_of c = of_char c"

definition isspace :: "char \<Rightarrow> bool" where
  "isspace c \<longleftrightarrow> code_of c = 32 \<or> (9 \<le> code_of c \<and> code_of c \<le> 13)"

definition isdigit :: "char \<Rightarrow> bool" where
  "isdigit c \<longleftrightarrow> 48 \<le> code_of c \<and> code_of c \<le> 57"

definition isupper_c :: "char \<Rightarrow> bool" where
  "isupper_c c \<longleftrightarrow> 65 \<le> code_of c \<and> code_of c \<le> 90"

definition islower_c :: "char \<Rightarrow> bool" where
  "islower_c c \<longleftrightarrow> 97 \<le> code_of c \<and> code_of c \<le> 122"

definition isxdigit :: "char \<Rightarrow> bool" where
  "isxdigit c \<longleftrightarrow> isdigit c \<or> (65 \<le> code_of c \<and> code_of c \<le> 70) \<or> (97 \<le> code_of c \<and> code_of c \<le> 102)"

text \<open>What a C function sees of a buffer: the bytes before the first NUL.\<close>

definition c_str :: "string \<Rightarrow> string" where
  "c_str s = takeWhile (\<lambda>c. c \<noteq> nul) s"

text \<open>\<open>snprintf\<close> into a buffer of \<open>len\<close> bytes keeps the first \<open>len - 1\<close> characters.\<close>

definition snprintf :: "nat \<Rightarrow> string \<Rightarrow> string" where
  "snprintf len s = take (len - 1) s"

section \<open>Reading\<close>

definition skip_ws :: "string \<Rightarrow> string" where
  "skip_ws s = dropWhile isspace s"

fun scan_digits :: "nat \<Rightarrow> string \<Rightarrow> nat \<times> string" where
  "scan_digits acc [] = (acc, [])"
| "scan_digits acc (c # cs) = (if isdigit c then scan_digits (10 * acc + (code_of c - 48)) cs else (acc, c # cs))"

text \<open>
  \<open>strtoull (s, \<dots>, 10)\<close>: \<open>None\<close> when there is no digit to convert (then \<open>end = s\<close>); otherwise the value,
  whether \<open>errno\<close> is \<open>ERANGE\<close>, and the text at \<open>end\<close>. A minus sign negates modulo \<open>2 ^ 64\<close>.
\<close>

definition strip_sign :: "string \<Rightarrow> bool \<times> string" where
  "strip_sign s = (case s of [] \<Rightarrow> (False, [])
     | c # cs \<Rightarrow> if c = CHR ''-'' then (True, cs) else if c = CHR ''+'' then (False, cs) else (False, s))"

definition strtoull :: "string \<Rightarrow> (u64 \<times> bool \<times> string) option" where
  "strtoull s =
     (let (neg, t) = strip_sign (skip_ws s) in
      if t \<noteq> [] \<and> isdigit (hd t) then
        let (n, rest) = scan_digits 0 t in
        if n \<ge> 2 ^ 64 then Some (- 1, True, rest)
        else Some (if neg then - of_nat n else of_nat n, False, rest)
      else None)"

text \<open>The \<open>sscanf\<close> directives: \<open>%<w>s\<close>, \<open>%llu\<close> and \<open>%u\<close>, each with the rest of the text.\<close>

definition scan_s :: "nat \<Rightarrow> string \<Rightarrow> (string \<times> string) option" where
  "scan_s w s =
     (let t = skip_ws s; tok = takeWhile (\<lambda>c. \<not> isspace c) (take w t)
      in if tok = [] then None else Some (tok, drop (length tok) t))"

definition scan_llu :: "string \<Rightarrow> (u64 \<times> string) option" where
  "scan_llu s = map_option (\<lambda>(v, _, rest). (v, rest)) (strtoull s)"

definition scan_u :: "string \<Rightarrow> (u32 \<times> string) option" where
  "scan_u s = map_option (\<lambda>(v, rest). (ucast v, rest)) (scan_llu s)"

text \<open>\<open>sscanf (s, "%63s %63s \<dots>")\<close> with \<open>k\<close> directives: the fields it assigned, in order.\<close>

fun scan_words :: "nat \<Rightarrow> nat \<Rightarrow> string \<Rightarrow> string list" where
  "scan_words 0 w s = []"
| "scan_words (Suc k) w s = (case scan_s w s of None \<Rightarrow> [] | Some (t, rest) \<Rightarrow> t # scan_words k w rest)"

text \<open>A field that was not assigned keeps the empty string it was initialised with.\<close>

definition field :: "string list \<Rightarrow> nat \<Rightarrow> string" where
  "field ws i = (if i < length ws then ws ! i else [])"

text \<open>\<open>fgets\<close> with room for \<open>m\<close> characters: up to and including the next newline, at most \<open>m\<close>.\<close>

fun fgets :: "nat \<Rightarrow> string \<Rightarrow> string \<times> string" where
  "fgets 0 s = ([], s)"
| "fgets (Suc m) [] = ([], [])"
| "fgets (Suc m) (c # cs) = (if c = nl then ([c], cs) else (let (l, r) = fgets m cs in (c # l, r)))"

lemma fgets_code [code]:
  "fgets m s = (if m = 0 then ([], s) else case s of [] \<Rightarrow> ([], [])
     | c # cs \<Rightarrow> if c = nl then ([c], cs) else (let (l, r) = fgets (m - 1) cs in (c # l, r)))"
  by (cases m; cases s) simp_all

lemma fgets_rest_le: "length (snd (fgets m s)) \<le> length s"
  by (induction m s rule: fgets.induct) (auto simp: split_beta Let_def)

lemma fgets_rest_less: "s \<noteq> [] \<Longrightarrow> 0 < m \<Longrightarrow> length (snd (fgets m s)) < length s"
  by (cases m; cases s) (auto simp: split_beta Let_def intro: le_imp_less_Suc fgets_rest_le)

text \<open>The lines a loop \<open>while (fgets (line, 256, fp))\<close> sees.\<close>

function fgets_lines :: "string \<Rightarrow> string list" where
  "fgets_lines s = (if s = [] then [] else fst (fgets 255 s) # fgets_lines (snd (fgets 255 s)))"
  by auto
termination by (relation "measure length") (auto intro: fgets_rest_less)

declare fgets_lines.simps [simp del]

section \<open>Printing\<close>

definition digit_char :: "nat \<Rightarrow> char" where
  "digit_char d = char_of (48 + d)"

fun dec :: "nat \<Rightarrow> string" where
  "dec n = (if n < 10 then [digit_char n] else dec (n div 10) @ [digit_char (n mod 10)])"

declare dec.simps [simp del]

definition dec_int :: "int \<Rightarrow> string" where
  "dec_int i = (if i < 0 then CHR ''-'' # dec (nat (- i)) else dec (nat i))"

definition dec32 :: "u32 \<Rightarrow> string" where
  "dec32 w = dec (unat w)"

definition dec64 :: "u64 \<Rightarrow> string" where
  "dec64 w = dec (unat w)"

section \<open>What is printed is read back\<close>

lemma code_of_char [simp]: "d < 10 \<Longrightarrow> code_of (digit_char d) = 48 + d"
  by (simp add: code_of_def digit_char_def)

lemma isdigit_digit_char [simp]: "d < 10 \<Longrightarrow> isdigit (digit_char d)"
  by (simp add: isdigit_def)

lemma isdigit_not_space: "isdigit c \<Longrightarrow> \<not> isspace c"
  by (simp add: isdigit_def isspace_def)

lemma isxdigit_not_space: "isxdigit c \<Longrightarrow> \<not> isspace c"
  by (auto simp: isxdigit_def isspace_def isdigit_def)

lemma isspace_sp_nl [simp]: "isspace sp" "isspace nl" "\<not> isdigit sp" "\<not> isdigit nl"
  by (simp_all add: isspace_def isdigit_def code_of_def)

lemma sign_not_digit [simp]: "\<not> isdigit (CHR ''-'')" "\<not> isdigit (CHR ''+'')"
  by (simp_all add: isdigit_def code_of_def)

lemma dec_digits: "c \<in> set (dec n) \<Longrightarrow> isdigit c"
  by (induction n rule: dec.induct) (subst (asm) (2) dec.simps, auto split: if_splits)

lemma dec_Cons: "\<exists>c cs. dec n = c # cs \<and> isdigit c"
  using dec_digits [of _ n] by (cases "dec n") (auto simp: dec.simps [of n] split: if_splits)

lemma dec_not_Nil [simp]: "dec n \<noteq> []"
  using dec_Cons [of n] by auto

lemma length_dec: "n < 10 ^ k \<Longrightarrow> 0 < k \<Longrightarrow> length (dec n) \<le> k"
proof (induction k arbitrary: n)
  case (Suc k)
  show ?case
  proof (cases "n < 10")
    case False
    then have "0 < k" using Suc.prems by (cases k) auto
    moreover have "n div 10 < 10 ^ k" using Suc.prems(1) by (simp add: less_mult_imp_div_less mult.commute)
    ultimately have "length (dec (n div 10)) \<le> k" by (rule Suc.IH [rotated])
    then show ?thesis using False by (simp add: dec.simps [of n])
  qed (simp add: dec.simps)
qed simp

lemma scan_digits_acc:
  "(\<And>c. c \<in> set ds \<Longrightarrow> isdigit c) \<Longrightarrow>
   scan_digits acc (ds @ rest) = scan_digits (foldl (\<lambda>a c. 10 * a + (code_of c - 48)) acc ds) rest"
  by (induction ds arbitrary: acc) auto

lemma foldl_dec: "foldl (\<lambda>a c. 10 * a + (code_of c - 48)) 0 (dec n) = n"
proof (induction n rule: dec.induct)
  case (1 n)
  show ?case using 1 by (cases "n < 10") (simp_all add: dec.simps [of n])
qed

lemma scan_digits_dec:
  "rest = [] \<or> \<not> isdigit (hd rest) \<Longrightarrow> scan_digits 0 (dec n @ rest) = (n, rest)"
  by (subst scan_digits_acc) (cases rest; auto simp: foldl_dec dec_digits)+

lemma skip_ws_simps [simp]:
  "skip_ws [] = []" "isspace c \<Longrightarrow> skip_ws (c # s) = skip_ws s" "\<not> isspace c \<Longrightarrow> skip_ws (c # s) = c # s"
  by (simp_all add: skip_ws_def)

lemma strtoull_dec:
  assumes "n < 2 ^ 64" "rest = [] \<or> \<not> isdigit (hd rest)"
  shows "strtoull (dec n @ rest) = Some (of_nat n, False, rest)"
proof -
  obtain c cs where c: "dec n = c # cs" "isdigit c" using dec_Cons by blast
  then have "strip_sign (skip_ws (dec n @ rest)) = (False, dec n @ rest)"
    using sign_not_digit by (auto simp: strip_sign_def isdigit_not_space)
  then show ?thesis using c assms scan_digits_dec [OF assms(2), of n] by (simp add: strtoull_def Let_def)
qed

lemma scan_llu_sp: "scan_llu (sp # s) = scan_llu s"
  by (simp add: scan_llu_def strtoull_def)

lemma scan_u_sp: "scan_u (sp # s) = scan_u s"
  by (simp add: scan_u_def scan_llu_sp)

lemma scan_s_sp: "scan_s w (sp # s) = scan_s w s"
  by (simp add: scan_s_def)

lemma scan_llu_dec64: "rest = [] \<or> \<not> isdigit (hd rest) \<Longrightarrow> scan_llu (dec64 v @ rest) = Some (v, rest)"
  by (simp add: scan_llu_def dec64_def strtoull_dec [OF unat_u64_less])

lemma scan_u_dec32: "rest = [] \<or> \<not> isdigit (hd rest) \<Longrightarrow> scan_u (dec32 v @ rest) = Some (v, rest)"
proof -
  assume r: "rest = [] \<or> \<not> isdigit (hd rest)"
  have "unat v < 2 ^ 64" using unat_u32_less [of v] by simp
  then have "scan_u (dec32 v @ rest) = Some (ucast (of_nat (unat v) :: u64), rest)"
    using strtoull_dec [OF _ r, of "unat v"] by (simp add: scan_u_def scan_llu_def dec32_def)
  moreover have "ucast (of_nat (unat v) :: u64) = v"
    by (rule bit_word_eqI) (simp add: bit_simps)
  ultimately show ?thesis by simp
qed

lemma scan_s_word:
  assumes "t \<noteq> []" "length t \<le> w" "\<And>c. c \<in> set t \<Longrightarrow> \<not> isspace c" "rest = [] \<or> isspace (hd rest)"
  shows "scan_s w (t @ rest) = Some (t, rest)"
proof -
  obtain c cs where t: "t = c # cs" using assms(1) by (cases t) auto
  have "skip_ws (t @ rest) = t @ rest" using assms(3) [of c] by (simp add: t)
  moreover have "takeWhile (\<lambda>c. \<not> isspace c) (take w (t @ rest)) = t"
  proof -
    have "take w (t @ rest) = t @ take (w - length t) rest" using assms(2) by simp
    moreover have "takeWhile (\<lambda>c. \<not> isspace c) (take (w - length t) rest) = []"
      using assms(4) by (cases rest; cases "w - length t") auto
    ultimately show ?thesis using assms(3) by (simp add: takeWhile_append2)
  qed
  ultimately show ?thesis using assms(1) by (simp add: scan_s_def Let_def)
qed

lemma scan_words_sp: "scan_words k w (sp # s) = scan_words k w s"
  by (cases k) (simp_all add: scan_s_sp)

lemma scan_words_Nil: "scan_words k w [] = []"
  by (cases k) (simp_all add: scan_s_def)

text \<open>A line of words separated by one space each is cut into exactly these words.\<close>

lemma scan_words_Cons:
  assumes "t \<noteq> []" "length t \<le> w" "\<And>c. c \<in> set t \<Longrightarrow> \<not> isspace c"
  shows "scan_words (Suc k) w (t @ sp # rest) = t # scan_words k w rest"
  using scan_s_word [OF assms, of "sp # rest"] by (simp add: scan_words_sp)

lemma scan_words_last:
  assumes "t \<noteq> []" "length t \<le> w" "\<And>c. c \<in> set t \<Longrightarrow> \<not> isspace c"
  shows "scan_words (Suc k) w t = [t]"
  using scan_s_word [OF assms, of "[]"] by (simp add: scan_words_Nil)

lemma fgets_line:
  "nl \<notin> set l \<Longrightarrow> length l < m \<Longrightarrow> fgets m (l @ nl # rest) = (l @ [nl], rest)"
proof (induction l arbitrary: m)
  case Nil
  then show ?case by (cases m) auto
next
  case (Cons c l)
  then show ?case by (cases m) auto
qed

lemma fgets_lines_concat:
  "(\<And>l. l \<in> set ls \<Longrightarrow> nl \<notin> set l \<and> length l < 255) \<Longrightarrow>
   fgets_lines (concat (map (\<lambda>l. l @ [nl]) ls)) = map (\<lambda>l. l @ [nl]) ls"
proof (induction ls)
  case (Cons l ls)
  then show ?case using fgets_line [of l 255] by (simp add: fgets_lines.simps [of "l @ _"])
qed (simp add: fgets_lines.simps)

lemma c_str_id: "nul \<notin> set s \<Longrightarrow> c_str s = s"
  by (auto simp: c_str_def takeWhile_eq_all_conv)

end
