(* ===== verification/Store_IO.thy ===== *)
theory Store_IO
  imports C_Text
begin

text \<open>
  The files the server keeps its tables in. Every store is written to \<open><path>.tmp\<close>, synced and renamed
  over the target, and the temporary file is removed when a step fails. A \<open>host\<close> holds the contents of
  the regular files, which of them cannot be opened for reading, and the outcome of the store writes to
  come: which step of each of them fails, if one does.
\<close>

datatype io_fault = No_fault | Mkdir_fails | Open_fails | Chmod_fails | Write_fails | Sync_fails | Rename_fails

record host =
  files :: "string \<rightharpoonup> string"
  unreadable :: "string \<Rightarrow> bool"
  faults :: "io_fault list"

text \<open>A host with no file yet, on which every write succeeds.\<close>

definition empty_host :: host where
  "empty_host = \<lparr> files = Map.empty, unreadable = (\<lambda>_. False), faults = [] \<rparr>"

definition next_fault :: "host \<Rightarrow> io_fault \<times> host" where
  "next_fault h = (case faults h of [] \<Rightarrow> (No_fault, h) | f # fs \<Rightarrow> (f, h\<lparr> faults := fs \<rparr>))"

definition tmp_of :: "string \<Rightarrow> string" where
  "tmp_of path = path @ ''.tmp''"

text \<open>
  One store write: \<open>make_dir\<close> says whether the writer calls \<open>mkdir\<close> for the directory first. The result is
  0 or -1 as in the source. A write of no bytes cannot fail in the write step.
\<close>

definition store_write :: "bool \<Rightarrow> string \<Rightarrow> string \<Rightarrow> host \<Rightarrow> host \<times> int" where
  "store_write make_dir path content h0 =
     (let (f, h) = next_fault h0 in
      if f = Mkdir_fails \<and> make_dir then (h, - 1)
      else if f = Open_fails then (h, - 1)
      else if f \<in> {Chmod_fails, Sync_fails, Rename_fails} \<or> (f = Write_fails \<and> content \<noteq> []) then
        (h\<lparr> files := (files h)(tmp_of path := None) \<rparr>, - 1)
      else (h\<lparr> files := (files h)(tmp_of path := None, path \<mapsto> content) \<rparr>, 0))"

text \<open>\<open>fopen (path, "r")\<close>: the contents, or the \<open>errno\<close> of the failure.\<close>

definition store_open :: "string \<Rightarrow> host \<Rightarrow> int + string" where
  "store_open path h =
     (if unreadable h path then Inl EIO
      else case files h path of None \<Rightarrow> Inl ENOENT | Some c \<Rightarrow> Inr c)"

lemma tmp_of_neq [simp]: "tmp_of path \<noteq> path" "path \<noteq> tmp_of path"
  by (simp_all add: tmp_of_def)

lemma next_faultD: "next_fault h = (f, h') \<Longrightarrow> files h' = files h \<and> unreadable h' = unreadable h"
  by (auto simp: next_fault_def split: list.splits)

text \<open>A failed store write leaves every file but the temporary one as it was.\<close>

lemma store_write_failed:
  assumes "store_write mk path content h = (h', rc)" "rc \<noteq> 0"
  shows "rc = - 1" "p \<noteq> tmp_of path \<Longrightarrow> files h' p = files h p" "unreadable h' = unreadable h"
  using assms by (auto simp: store_write_def split: prod.splits if_splits dest: next_faultD)

lemma store_write_done:
  assumes "store_write mk path content h = (h', 0)"
  shows "files h' = (files h)(tmp_of path := None, path \<mapsto> content)" "unreadable h' = unreadable h"
  using assms by (auto simp: store_write_def split: prod.splits if_splits dest: next_faultD)

lemma store_write_cases:
  obtains (failed) h' where "store_write mk path content h = (h', - 1)" "files h' path = files h path"
  | (written) h' where "store_write mk path content h = (h', 0)" "files h' path = Some content"
proof -
  obtain h' rc where r: "store_write mk path content h = (h', rc)" by force
  show ?thesis
  proof (cases "rc = 0")
    case True
    then show ?thesis using r store_write_done(1) [of mk path content h h'] written by simp
  next
    case False
    then show ?thesis using r store_write_failed [OF r False] failed by simp
  qed
qed

lemma store_open_written:
  "store_write mk path content h = (h', 0) \<Longrightarrow> \<not> unreadable h path \<Longrightarrow> store_open path h' = Inr content"
  using store_write_done [of mk path content h h'] by (simp add: store_open_def)

end
