(* ===== verification/Camera_Policy.thy ===== *)
theory Camera_Policy
  imports Store_IO
begin

text \<open>
  Model of \<open>tools/virt_camera_policy.c\<close>: the per-ticket camera overrides with the verdict of a reserve,
  the IAV role table keyed by ticket, the two persisted stores and the admin commands on them. The
  broker's status callback is a parameter held in the state, as the function pointer is.
\<close>

section \<open>Types and constants\<close>

abbreviation (input) VIRT_CAMERA_TICKET_MAX :: nat where "VIRT_CAMERA_TICKET_MAX \<equiv> 48"
abbreviation (input) VIRT_CAMERA_MAX_ENTRIES :: nat where "VIRT_CAMERA_MAX_ENTRIES \<equiv> 64"
abbreviation (input) VIRT_CAMERA_STORE_MAX_BYTES :: nat where "VIRT_CAMERA_STORE_MAX_BYTES \<equiv> 4096"
abbreviation (input) VIRT_CAMERA_GET_MAX_LINES :: nat where "VIRT_CAMERA_GET_MAX_LINES \<equiv> 32"
abbreviation (input) IAV_MAX_WINDOWS :: nat where "IAV_MAX_WINDOWS \<equiv> 4"
abbreviation (input) WIN_DSP :: nat where "WIN_DSP \<equiv> 0"
abbreviation (input) WIN_BSB :: nat where "WIN_BSB \<equiv> 1"
abbreviation (input) WIN_DEC :: nat where "WIN_DEC \<equiv> 2"
abbreviation (input) WIN_OVL :: nat where "WIN_OVL \<equiv> 3"

definition VIRT_CAMERA_STORE :: string where
  "VIRT_CAMERA_STORE = ''/persist/etc/amba-virt/camera-tickets''"
definition VIRT_IAV_ROLE_STORE :: string where
  "VIRT_IAV_ROLE_STORE = ''/persist/etc/amba-virt/iav-roles''"
definition VIRT_IAV_DEFAULT_PRIMARY :: string where
  "VIRT_IAV_DEFAULT_PRIMARY = ''amba_shm0''"

datatype override = OV_INHERIT | OV_ON | OV_OFF
datatype virt_camera_intent = INTENT_ABSENT | INTENT_OFF | INTENT_ON
datatype virt_iav_role = ROLE_CONSUMER | ROLE_PRIMARY
datatype roles_state = ROLES_MISSING | ROLES_VALID | ROLES_INVALID

record camera_entry =
  ce_in_use :: bool
  ce_ticket :: string
  ce_override :: override
  ce_seen :: bool
  ce_last :: virt_camera_intent

record role_line =
  rl_in_use :: bool
  rl_ticket :: string
  rl_role :: virt_iav_role

record virt_camera_window =
  vw_id :: u32
  vw_size :: u64

record virt_camera_verdict =
  vd_camera :: bool
  vd_dsp :: u64
  vd_bsb :: u64
  vd_dec :: u64
  vd_ovl :: u64

text \<open>The status callback gets the buffer size and returns its result with the text it wrote.\<close>

type_synonym status_fn = "nat \<Rightarrow> int \<times> string"

record camera_state =
  cp_entries :: "camera_entry list"
  cp_roles :: "role_line list"
  cp_roles_state :: roles_state
  cp_role_store :: string
  cp_iav_status :: "status_fn option"
  cp_store :: string
  cp_present :: "bool list"
  cp_size :: "u64 list"
  cp_windows_ready :: bool
  cp_ready_ms :: u64

definition zero_entry :: camera_entry where
  "zero_entry = \<lparr> ce_in_use = False, ce_ticket = [], ce_override = OV_INHERIT, ce_seen = False, ce_last = INTENT_ABSENT \<rparr>"

definition zero_role :: role_line where
  "zero_role = \<lparr> rl_in_use = False, rl_ticket = [], rl_role = ROLE_CONSUMER \<rparr>"

definition zero_verdict :: virt_camera_verdict where
  "zero_verdict = \<lparr> vd_camera = False, vd_dsp = 0, vd_bsb = 0, vd_dec = 0, vd_ovl = 0 \<rparr>"

section \<open>Tickets and entries\<close>

definition ticket_char :: "char \<Rightarrow> bool" where
  "ticket_char c \<longleftrightarrow> islower_c c \<or> isupper_c c \<or> isdigit c \<or> c = CHR ''_'' \<or> c = CHR ''.'' \<or> c = CHR ''-''"

definition virt_camera_ticket_ok :: "string \<Rightarrow> bool" where
  "virt_camera_ticket_ok ticket \<longleftrightarrow>
     1 \<le> length ticket \<and> length ticket \<le> VIRT_CAMERA_TICKET_MAX \<and> list_all ticket_char ticket"

definition virt_camera_intent_parse :: "string \<Rightarrow> virt_camera_intent option" where
  "virt_camera_intent_parse s =
     (if s = ''on'' then Some INTENT_ON else if s = ''off'' then Some INTENT_OFF
      else if s = ''absent'' then Some INTENT_ABSENT else None)"

definition find_entry :: "string \<Rightarrow> camera_entry list \<Rightarrow> nat option" where
  "find_entry ticket es = first_idx (\<lambda>e. ce_in_use e \<and> ce_ticket e = ticket) es"

definition add_entry :: "string \<Rightarrow> camera_entry list \<Rightarrow> (nat \<times> camera_entry list) option" where
  "add_entry ticket es =
     (case first_idx (\<lambda>e. \<not> ce_in_use e) es of
        None \<Rightarrow> None
      | Some i \<Rightarrow> Some (i, es[i := zero_entry\<lparr> ce_in_use := True,
                                  ce_ticket := snprintf (VIRT_CAMERA_TICKET_MAX + 1) ticket \<rparr>]))"

text \<open>The two calls every writer makes: the entry of the ticket, or a new one while there is room.\<close>

definition find_or_add :: "string \<Rightarrow> camera_entry list \<Rightarrow> (nat \<times> camera_entry list) option" where
  "find_or_add ticket es = (case find_entry ticket es of Some i \<Rightarrow> Some (i, es) | None \<Rightarrow> add_entry ticket es)"

definition drop_if_idle :: "camera_entry \<Rightarrow> camera_entry" where
  "drop_if_idle e = (if ce_override e = OV_INHERIT \<and> \<not> ce_seen e then zero_entry else e)"

definition clear_overrides :: "camera_entry list \<Rightarrow> camera_entry list" where
  "clear_overrides es = map (\<lambda>e. if ce_in_use e then drop_if_idle (e\<lparr> ce_override := OV_INHERIT \<rparr>) else e) es"

definition virt_camera_policy_reset :: camera_state where
  "virt_camera_policy_reset =
     \<lparr> cp_entries = replicate VIRT_CAMERA_MAX_ENTRIES zero_entry,
       cp_roles = replicate VIRT_CAMERA_MAX_ENTRIES zero_role, cp_roles_state = ROLES_MISSING,
       cp_role_store = VIRT_IAV_ROLE_STORE, cp_iav_status = None, cp_store = VIRT_CAMERA_STORE,
       cp_present = replicate IAV_MAX_WINDOWS False, cp_size = replicate IAV_MAX_WINDOWS 0,
       cp_windows_ready = False, cp_ready_ms = 0 \<rparr>"

text \<open>A \<open>NULL\<close> path is \<open>None\<close>. The path leaves room for \<open>.tmp\<close>.\<close>

definition virt_camera_policy_set_store :: "string option \<Rightarrow> camera_state \<Rightarrow> camera_state" where
  "virt_camera_policy_set_store path st =
     (case path of
        Some p \<Rightarrow> if p \<noteq> [] \<and> length p < 256 - 8 then st\<lparr> cp_store := snprintf 256 p \<rparr> else st
      | None \<Rightarrow> st)"

section \<open>The store of overrides\<close>

text \<open>The \<open>memchr\<close> loop that cuts a buffer into lines; the last one may lack its newline.\<close>

function store_lines :: "string \<Rightarrow> string list" where
  "store_lines s = (if s = [] then [] else
     (let l = takeWhile (\<lambda>c. c \<noteq> nl) s in l # store_lines (drop (Suc (length l)) s)))"
  by auto
termination by (relation "measure length") auto

declare store_lines.simps [simp del]

definition parse_line :: "string \<Rightarrow> (string \<times> override) option" where
  "parse_line line =
     (case first_idx (\<lambda>c. c = sp) line of
        None \<Rightarrow> None
      | Some k \<Rightarrow>
          let ticket = take k line; what = drop (Suc k) line in
          if sp \<in> set what \<or> k = 0 \<or> k > VIRT_CAMERA_TICKET_MAX \<or> \<not> virt_camera_ticket_ok ticket then None
          else if what = ''on'' then Some (ticket, OV_ON)
          else if what = ''off'' then Some (ticket, OV_OFF)
          else None)"

text \<open>The whole store is parsed or none of it: at most 64 lines, no ticket twice.\<close>

fun parse_store :: "(string \<Rightarrow> (string \<times> 'a) option) \<Rightarrow> (string \<times> 'a) list \<Rightarrow> string list \<Rightarrow>
    (string \<times> 'a) list option" where
  "parse_store p acc [] = Some acc"
| "parse_store p acc (l # ls) =
     (if length acc \<ge> VIRT_CAMERA_MAX_ENTRIES then None
      else case p l of
        None \<Rightarrow> None
      | Some (t, v) \<Rightarrow> if t \<in> fst ` set acc then None else parse_store p (acc @ [(t, v)]) ls)"

text \<open>\<open>fread\<close> of at most \<open>VIRT_CAMERA_STORE_MAX_BYTES + 1\<close> bytes, and the checks on what was read.\<close>

definition read_store :: "string \<Rightarrow> string option" where
  "read_store content =
     (let buf = take (VIRT_CAMERA_STORE_MAX_BYTES + 1) content in
      if length buf > VIRT_CAMERA_STORE_MAX_BYTES \<or> nul \<in> set buf then None else Some buf)"

fun apply_overrides :: "(string \<times> override) list \<Rightarrow> camera_entry list \<Rightarrow> camera_entry list \<times> int" where
  "apply_overrides [] es = (es, 0)"
| "apply_overrides ((t, ov) # rest) es =
     (case find_or_add t es of
        None \<Rightarrow> (es, - 1)
      | Some (i, es') \<Rightarrow> apply_overrides rest (es'[i := (es' ! i)\<lparr> ce_override := ov \<rparr>]))"

definition load_locked :: "host \<Rightarrow> camera_state \<Rightarrow> camera_state \<times> int" where
  "load_locked h st =
     (let es = clear_overrides (cp_entries st); st1 = st\<lparr> cp_entries := es \<rparr> in
      case store_open (cp_store st) h of
        Inl _ \<Rightarrow> (st1, 0)
      | Inr content \<Rightarrow>
          (case read_store content of
             None \<Rightarrow> (st1, - 1)
           | Some buf \<Rightarrow>
               (case parse_store parse_line [] (store_lines buf) of
                  None \<Rightarrow> (st1, - 1)
                | Some ovs \<Rightarrow> (let (es', rc) = apply_overrides ovs es in (st\<lparr> cp_entries := es' \<rparr>, rc)))))"

definition virt_camera_policy_load :: "host \<Rightarrow> camera_state \<Rightarrow> camera_state" where
  "virt_camera_policy_load h st =
     (let (st', rc) = load_locked h st in
      if rc \<noteq> 0 then st'\<lparr> cp_entries := clear_overrides (cp_entries st') \<rparr> else st')"

definition strrchr :: "string \<Rightarrow> char \<Rightarrow> nat option" where
  "strrchr s c = map_option (\<lambda>k. length s - 1 - k) (first_idx (\<lambda>d. d = c) (rev s))"

definition write_atomic :: "string \<Rightarrow> string \<Rightarrow> host \<Rightarrow> host \<times> int" where
  "write_atomic path buf h =
     (case strrchr path (CHR ''/'') of
        Some k \<Rightarrow> if k = 0 then store_write False path buf h
                  else if k \<ge> 256 then (h, - 1) else store_write True path buf h
      | None \<Rightarrow> store_write False path buf h)"

text \<open>The lines are printed one after the other into a buffer of \<open>cap\<close> bytes.\<close>

fun pack_lines :: "nat \<Rightarrow> string \<Rightarrow> string list \<Rightarrow> string option" where
  "pack_lines cap buf [] = Some buf"
| "pack_lines cap buf (l # ls) = (if length l \<ge> cap - length buf then None else pack_lines cap (buf @ l) ls)"

definition override_line :: "camera_entry \<Rightarrow> string" where
  "override_line e = ce_ticket e @ [sp] @ (if ce_override e = OV_ON then ''on'' else ''off'') @ [nl]"

definition save_locked :: "camera_state \<Rightarrow> host \<Rightarrow> host \<times> int" where
  "save_locked st h =
     (case pack_lines VIRT_CAMERA_STORE_MAX_BYTES []
             (map override_line (filter (\<lambda>e. ce_in_use e \<and> ce_override e \<noteq> OV_INHERIT) (cp_entries st))) of
        None \<Rightarrow> (h, - 1)
      | Some buf \<Rightarrow> write_atomic (cp_store st) buf h)"

section \<open>Windows and verdicts\<close>

definition set_window :: "virt_camera_window \<Rightarrow> bool list \<times> u64 list \<Rightarrow> bool list \<times> u64 list" where
  "set_window w ps =
     (if unat (vw_id w) \<ge> IAV_MAX_WINDOWS \<or> vw_size w = 0 then ps
      else ((fst ps)[unat (vw_id w) := True], (snd ps)[unat (vw_id w) := vw_size w]))"

definition virt_camera_policy_set_windows :: "virt_camera_window list \<Rightarrow> u64 \<Rightarrow> camera_state \<Rightarrow> camera_state" where
  "virt_camera_policy_set_windows ws ready_ms st =
     (let (present, size) = foldl (\<lambda>ps w. set_window w ps)
            (replicate IAV_MAX_WINDOWS False, replicate IAV_MAX_WINDOWS 0) ws;
          ready = present ! WIN_DSP \<and> present ! WIN_BSB
      in st\<lparr> cp_present := present, cp_size := size, cp_windows_ready := ready,
             cp_ready_ms := (if ready then ready_ms else 0) \<rparr>)"

definition camera_on :: "override \<Rightarrow> virt_camera_intent \<Rightarrow> bool" where
  "camera_on ov intent = (if ov = OV_INHERIT then intent = INTENT_ON else ov = OV_ON)"

text \<open>The verdict of a reserve; the result is 0 or -1 as in the source, and a bad ticket gets no camera.\<close>

definition virt_camera_policy_decide :: "string \<Rightarrow> virt_camera_intent \<Rightarrow> bool \<Rightarrow> camera_state \<Rightarrow>
    camera_state \<times> int \<times> virt_camera_verdict" where
  "virt_camera_policy_decide ticket intent primary st =
     (if \<not> virt_camera_ticket_ok ticket then (st, - 1, zero_verdict)
      else
      let (es, ov) = (case find_or_add ticket (cp_entries st) of
                        Some (i, es) \<Rightarrow> (es[i := (es ! i)\<lparr> ce_seen := True, ce_last := intent \<rparr>], ce_override (es ! i))
                      | None \<Rightarrow> (cp_entries st, OV_INHERIT));
          camera = (cp_windows_ready st \<and> camera_on ov intent);
          size = (\<lambda>w. cp_size st ! w)
      in (st\<lparr> cp_entries := es \<rparr>, 0,
          if camera then
            \<lparr> vd_camera = True, vd_dsp = size WIN_DSP, vd_bsb = size WIN_BSB,
              vd_dec = (if primary \<and> cp_present st ! WIN_DEC then size WIN_DEC else 0),
              vd_ovl = (if primary \<and> cp_present st ! WIN_OVL then size WIN_OVL else 0) \<rparr>
          else zero_verdict))"

text \<open>The text of a verdict, or \<open>None\<close> (-1) when it does not fit the buffer.\<close>

definition verdict_text :: "virt_camera_verdict \<Rightarrow> string" where
  "verdict_text v =
     (if \<not> vd_camera v then '' camera=0''
      else '' camera=1 dsp='' @ dec64 (vd_dsp v) @ '' bsb='' @ dec64 (vd_bsb v) @
        (if vd_dec v \<noteq> 0 then '' dec='' @ dec64 (vd_dec v) else []) @
        (if vd_ovl v \<noteq> 0 then '' ovl='' @ dec64 (vd_ovl v) else []))"

definition virt_camera_verdict_format :: "virt_camera_verdict \<Rightarrow> nat \<Rightarrow> string option" where
  "virt_camera_verdict_format v len =
     (if len = 0 \<or> length (verdict_text v) \<ge> len then None else Some (verdict_text v))"

section \<open>Listing the overrides\<close>

definition ov_name :: "override \<Rightarrow> string" where
  "ov_name ov = (case ov of OV_ON \<Rightarrow> ''on'' | OV_OFF \<Rightarrow> ''off'' | OV_INHERIT \<Rightarrow> ''inherit'')"

definition intent_name :: "camera_entry \<Rightarrow> string" where
  "intent_name e =
     (if \<not> ce_seen e then ''none''
      else case ce_last e of INTENT_ON \<Rightarrow> ''on'' | INTENT_OFF \<Rightarrow> ''off'' | INTENT_ABSENT \<Rightarrow> ''absent'')"

definition effective_of :: "bool \<Rightarrow> camera_entry \<Rightarrow> bool" where
  "effective_of ready e \<longleftrightarrow> ready \<and> camera_on (ce_override e) (if ce_seen e then ce_last e else INTENT_ABSENT)"

definition entry_text :: "bool \<Rightarrow> camera_entry \<Rightarrow> string" where
  "entry_text ready e =
     ''TICKET '' @ ce_ticket e @ '' override='' @ ov_name (ce_override e) @ '' intent='' @ intent_name e @
     '' effective='' @ dec (if effective_of ready e then 1 else 0) @ [nl]"

text \<open>The lines of a listing: at most 32, and only while the body of 2048 bytes has room.\<close>

fun list_lines :: "string list \<Rightarrow> string \<times> nat \<times> bool \<Rightarrow> string \<times> nat \<times> bool" where
  "list_lines [] r = r"
| "list_lines (l # ls) (body, count, truncated) =
     (if count \<ge> VIRT_CAMERA_GET_MAX_LINES \<or> length l \<ge> 2048 - length body
      then list_lines ls (body, count, True)
      else list_lines ls (body @ l, Suc count, truncated))"

definition get_locked :: "string option \<Rightarrow> nat \<Rightarrow> camera_state \<Rightarrow> string" where
  "get_locked ticket resp_len st =
     (let es = filter (\<lambda>e. ce_in_use e \<and> (case ticket of None \<Rightarrow> True | Some t \<Rightarrow> ce_ticket e = t)) (cp_entries st);
          (body, count, truncated) = list_lines (map (entry_text (cp_windows_ready st)) es) ([], 0, False)
      in snprintf resp_len (''OK COUNT '' @ dec count @ [nl] @ body @ (if truncated then ''TRUNCATED'' @ [nl] else [])))"

section \<open>IAV roles\<close>

definition virt_iav_role_name :: "virt_iav_role \<Rightarrow> string" where
  "virt_iav_role_name role = (if role = ROLE_PRIMARY then ''primary'' else ''consumer'')"

definition virt_iav_role_set_store :: "string option \<Rightarrow> camera_state \<Rightarrow> camera_state" where
  "virt_iav_role_set_store path st =
     (case path of
        Some p \<Rightarrow> if p \<noteq> [] \<and> length p < 256 - 8 then st\<lparr> cp_role_store := snprintf 256 p \<rparr> else st
      | None \<Rightarrow> st)"

definition virt_camera_policy_set_iav_status :: "status_fn option \<Rightarrow> camera_state \<Rightarrow> camera_state" where
  "virt_camera_policy_set_iav_status fn st = st\<lparr> cp_iav_status := fn \<rparr>"

definition role_find :: "string \<Rightarrow> role_line list \<Rightarrow> nat option" where
  "role_find ticket ls = first_idx (\<lambda>l. rl_in_use l \<and> rl_ticket l = ticket) ls"

definition role_primary_line_locked :: "role_line list \<Rightarrow> bool" where
  "role_primary_line_locked ls = list_ex (\<lambda>l. rl_in_use l \<and> rl_role l = ROLE_PRIMARY) ls"

text \<open>The role and whether it came from a line of the store.\<close>

definition role_of_locked :: "string \<Rightarrow> camera_state \<Rightarrow> virt_iav_role \<times> bool" where
  "role_of_locked ticket st =
     (if \<not> virt_camera_ticket_ok ticket \<or> cp_roles_state st = ROLES_INVALID then (ROLE_CONSUMER, False)
      else case role_find ticket (cp_roles st) of
        Some i \<Rightarrow> (rl_role (cp_roles st ! i), True)
      | None \<Rightarrow>
          if role_primary_line_locked (cp_roles st) then (ROLE_CONSUMER, False)
          else (if ticket = VIRT_IAV_DEFAULT_PRIMARY then ROLE_PRIMARY else ROLE_CONSUMER, False))"

definition virt_iav_role_of :: "string \<Rightarrow> camera_state \<Rightarrow> virt_iav_role" where
  "virt_iav_role_of ticket st = fst (role_of_locked ticket st)"

definition role_parse_line :: "string \<Rightarrow> (string \<times> virt_iav_role) option" where
  "role_parse_line line =
     (case first_idx (\<lambda>c. c = sp) line of
        None \<Rightarrow> None
      | Some k \<Rightarrow>
          let ticket = take k line; what = drop (Suc k) line in
          if k < 1 \<or> k > VIRT_CAMERA_TICKET_MAX \<or> sp \<in> set what then None
          else if \<not> virt_camera_ticket_ok ticket then None
          else if what = ''primary'' then Some (ticket, ROLE_PRIMARY)
          else if what = ''consumer'' then Some (ticket, ROLE_CONSUMER)
          else None)"

definition role_lines_of :: "(string \<times> virt_iav_role) list \<Rightarrow> role_line list" where
  "role_lines_of ps = map (\<lambda>(t, r). \<lparr> rl_in_use = True, rl_ticket = t, rl_role = r \<rparr>) ps
     @ replicate (VIRT_CAMERA_MAX_ENTRIES - length ps) zero_role"

definition role_load_locked :: "host \<Rightarrow> camera_state \<Rightarrow> roles_state \<times> role_line list" where
  "role_load_locked h st =
     (let none = replicate VIRT_CAMERA_MAX_ENTRIES zero_role in
      case store_open (cp_role_store st) h of
        Inl e \<Rightarrow> (if e = ENOENT then ROLES_MISSING else ROLES_INVALID, none)
      | Inr content \<Rightarrow>
          (case read_store content of
             None \<Rightarrow> (ROLES_INVALID, none)
           | Some buf \<Rightarrow>
               (case parse_store role_parse_line [] (store_lines buf) of
                  None \<Rightarrow> (ROLES_INVALID, none)
                | Some ps \<Rightarrow>
                    if length (filter (\<lambda>(t, r). r = ROLE_PRIMARY) ps) > 1 then (ROLES_INVALID, none)
                    else (ROLES_VALID, role_lines_of ps))))"

definition virt_iav_role_load :: "host \<Rightarrow> camera_state \<Rightarrow> camera_state" where
  "virt_iav_role_load h st =
     (let (s, ls) = role_load_locked h st in
      st\<lparr> cp_roles_state := s,
          cp_roles := (if s = ROLES_INVALID then replicate VIRT_CAMERA_MAX_ENTRIES zero_role else ls) \<rparr>)"

definition role_text :: "role_line \<Rightarrow> string" where
  "role_text l = rl_ticket l @ [sp] @ virt_iav_role_name (rl_role l) @ [nl]"

definition role_save_locked :: "camera_state \<Rightarrow> host \<Rightarrow> host \<times> int" where
  "role_save_locked st h =
     (case pack_lines VIRT_CAMERA_STORE_MAX_BYTES [] (map role_text (filter rl_in_use (cp_roles st))) of
        None \<Rightarrow> (h, - 1)
      | Some buf \<Rightarrow> write_atomic (cp_role_store st) buf h)"

definition ERR :: "string \<Rightarrow> string" where
  "ERR what = ''ERR '' @ what @ [nl]"

text \<open>The table \<open>SET_ROLE\<close> tries to write; \<open>None\<close> when there is no line for the ticket.\<close>

definition role_set_table :: "string \<Rightarrow> string \<Rightarrow> camera_state \<Rightarrow> role_line list option" where
  "role_set_table ticket what st =
     (let ls = (if cp_roles_state st = ROLES_INVALID then replicate VIRT_CAMERA_MAX_ENTRIES zero_role else cp_roles st);
          l = role_find ticket ls
      in
      if what = ''inherit'' then
        Some (case l of Some i \<Rightarrow> ls[i := zero_role] | None \<Rightarrow> ls)
      else
        let role = (if what = ''primary'' then ROLE_PRIMARY else ROLE_CONSUMER);
            ls' = (if role = ROLE_PRIMARY
                   then map (\<lambda>x. if rl_in_use x \<and> rl_role x = ROLE_PRIMARY \<and> rl_ticket x \<noteq> ticket
                                 then zero_role else x) ls
                   else ls)
        in case (case l of Some i \<Rightarrow> Some i | None \<Rightarrow> first_idx (\<lambda>x. \<not> rl_in_use x) ls') of
             None \<Rightarrow> None
           | Some i \<Rightarrow> Some (ls'[i := \<lparr> rl_in_use = True, rl_ticket = take VIRT_CAMERA_TICKET_MAX ticket,
                                       rl_role = role \<rparr>]))"

definition role_set :: "string \<Rightarrow> string \<Rightarrow> nat \<Rightarrow> camera_state \<Rightarrow> host \<Rightarrow> camera_state \<times> host \<times> string" where
  "role_set ticket what resp_len st h =
     (case role_set_table ticket what st of
        None \<Rightarrow> (st, h, snprintf resp_len (ERR ''PERSIST''))
      | Some ls \<Rightarrow>
          let st1 = st\<lparr> cp_roles := ls \<rparr>; (h', rc) = role_save_locked st1 h in
          if rc \<noteq> 0 then (st, h', snprintf resp_len (ERR ''PERSIST''))
          else (st1\<lparr> cp_roles_state := ROLES_VALID \<rparr>, h', snprintf resp_len (''OK'' @ [nl])))"

text \<open>\<open>GET_ROLE\<close>: the store lines, the default primary, and every ticket a reserve has named, each once.\<close>

definition role_listed_tickets :: "camera_state \<Rightarrow> string list" where
  "role_listed_tickets st =
     (let seen = map rl_ticket (filter rl_in_use (cp_roles st));
          seen = (if VIRT_IAV_DEFAULT_PRIMARY \<in> set seen then seen else seen @ [VIRT_IAV_DEFAULT_PRIMARY])
      in foldl (\<lambda>s e. if ce_in_use e \<and> ce_ticket e \<notin> set s then s @ [ce_ticket e] else s) seen (cp_entries st))"

definition role_get_text :: "camera_state \<Rightarrow> string \<Rightarrow> string" where
  "role_get_text st t =
     (let (r, from_store) = role_of_locked t st in
      ''ROLE '' @ t @ '' role='' @ virt_iav_role_name r @ '' source='' @
      (if cp_roles_state st = ROLES_INVALID then ''invalid-store'' else if from_store then ''store'' else ''default'') @ [nl])"

definition role_get :: "string option \<Rightarrow> nat \<Rightarrow> camera_state \<Rightarrow> string" where
  "role_get ticket resp_len st =
     (let ts = filter (\<lambda>t. case ticket of None \<Rightarrow> True | Some x \<Rightarrow> t = x) (role_listed_tickets st);
          (body, count, truncated) = list_lines (map (role_get_text st) ts) ([], 0, False)
      in snprintf resp_len (''OK COUNT '' @ dec count @ '' store='' @
           (case cp_roles_state st of ROLES_VALID \<Rightarrow> ''valid'' | ROLES_INVALID \<Rightarrow> ''invalid'' | ROLES_MISSING \<Rightarrow> ''missing'') @
           [nl] @ body @ (if truncated then ''TRUNCATED'' @ [nl] else [])))"

section \<open>Admin commands\<close>

definition override_parse :: "string \<Rightarrow> override option" where
  "override_parse s =
     (if s = ''on'' then Some OV_ON else if s = ''off'' then Some OV_OFF
      else if s = ''inherit'' then Some OV_INHERIT else None)"

text \<open>\<open>SET_CAMERA\<close> under the lock: the override is in memory only if the store was written.\<close>

definition set_camera :: "string \<Rightarrow> override \<Rightarrow> nat \<Rightarrow> camera_state \<Rightarrow> host \<Rightarrow> camera_state \<times> host \<times> string" where
  "set_camera ticket ov resp_len st h =
     (case (if find_entry ticket (cp_entries st) = None \<and> ov = OV_INHERIT then None
            else find_or_add ticket (cp_entries st)) of
        None \<Rightarrow> (st, h, snprintf resp_len (if ov = OV_INHERIT then ''OK'' @ [nl] else ERR ''PERSIST''))
      | Some (i, es) \<Rightarrow>
          let old = ce_override (es ! i);
              e = (es ! i)\<lparr> ce_override := ov \<rparr>;
              (h', rc) = save_locked (st\<lparr> cp_entries := es[i := e] \<rparr>) h
          in if rc \<noteq> 0
             then (st\<lparr> cp_entries := es[i := drop_if_idle (e\<lparr> ce_override := old \<rparr>)] \<rparr>, h', snprintf resp_len (ERR ''PERSIST''))
             else (st\<lparr> cp_entries := es[i := drop_if_idle e] \<rparr>, h', snprintf resp_len (''OK'' @ [nl])))"

definition has_substring :: "string \<Rightarrow> string \<Rightarrow> bool" where
  "has_substring needle s \<longleftrightarrow> list_ex (\<lambda>k. take (length needle) (drop k s) = needle) [0..<Suc (length s)]"

definition camera_status :: "nat \<Rightarrow> camera_state \<Rightarrow> string" where
  "camera_status resp_len st =
     (let pin = (case cp_iav_status st of
                   None \<Rightarrow> ''unknown''
                 | Some fn \<Rightarrow> (let (n, text) = fn 1024 in
                     if n > 0 then (if has_substring ''windows=stale'' text then ''stale'' else ''pinned'') else ''unknown''))
      in snprintf resp_len (''OK windows='' @ (if cp_windows_ready st then ''ready'' else ''none'') @
           '' dsp='' @ dec64 (cp_size st ! WIN_DSP) @ '' bsb='' @ dec64 (cp_size st ! WIN_BSB) @
           '' dec='' @ dec64 (cp_size st ! WIN_DEC) @ '' ovl='' @ dec64 (cp_size st ! WIN_OVL) @
           '' ready_ms='' @ dec64 (cp_ready_ms st) @ '' pinning='' @ pin @ [nl]))"

text \<open>
  The command line is cut into at most four fields. The result is the return value with the reply; a
  \<open>NULL\<close> or empty reply buffer is \<open>resp_len = 0\<close> and a \<open>NULL\<close> request is \<open>None\<close>.
\<close>

definition virt_camera_policy_admin :: "string option \<Rightarrow> nat \<Rightarrow> camera_state \<Rightarrow> host \<Rightarrow>
    camera_state \<times> host \<times> int \<times> string" where
  "virt_camera_policy_admin req resp_len st h =
     (if resp_len = 0 then (st, h, - 1, [])
      else
      let reply = (\<lambda>text. (st, h, 0, snprintf resp_len text)); inval = reply (ERR ''INVAL'') in
      case req of
        None \<Rightarrow> inval
      | Some line \<Rightarrow>
          let ws = scan_words 4 63 line; cmd = field ws 0; a1 = field ws 1; a2 = field ws 2; fields = length ws in
          if fields \<ge> 1 \<and> cmd = ''SET_CAMERA'' then
            (if fields \<noteq> 3 \<or> \<not> virt_camera_ticket_ok a1 then inval
             else case override_parse a2 of
                    None \<Rightarrow> inval
                  | Some ov \<Rightarrow> (let (st', h', resp) = set_camera a1 ov resp_len st h in (st', h', 0, resp)))
          else if fields \<ge> 1 \<and> cmd = ''GET_CAMERA'' then
            (if fields > 2 \<or> (fields = 2 \<and> \<not> virt_camera_ticket_ok a1) then inval
             else (st, h, 0, get_locked (if fields = 2 then Some a1 else None) resp_len st))
          else if fields \<ge> 1 \<and> cmd = ''CAMERA_STATUS'' then
            (if fields \<noteq> 1 then inval else (st, h, 0, camera_status resp_len st))
          else if fields \<ge> 1 \<and> cmd = ''SET_ROLE'' then
            (if fields \<noteq> 3 \<or> \<not> virt_camera_ticket_ok a1 \<or> a2 \<notin> {''primary'', ''consumer'', ''inherit''} then inval
             else (let (st', h', resp) = role_set a1 a2 resp_len st h in (st', h', 0, resp)))
          else if fields \<ge> 1 \<and> cmd = ''GET_ROLE'' then
            (if fields > 2 \<or> (fields = 2 \<and> \<not> virt_camera_ticket_ok a1) then inval
             else (st, h, 0, role_get (if fields = 2 then Some a1 else None) resp_len st))
          else if fields \<ge> 1 \<and> cmd = ''IAV_STATUS'' then
            (if fields \<noteq> 1 then inval
             else case cp_iav_status st of
                    None \<Rightarrow> reply (ERR ''NO_BROKER'')
                  | Some fn \<Rightarrow> (let (n, text) = fn resp_len in
                      if n \<le> 0 then reply (ERR ''NO_BROKER'') else (st, h, 0, text)))
          else reply (ERR ''UNKNOWN_CMD''))"

end
