(* ===== verification/Slice_Lease.thy ===== *)
theory Slice_Lease
  imports Camera_Policy
begin

text \<open>
  Model of \<open>tools/virt_slice_lease.c\<close>: the table of eight high-memory slice leases keyed by domain UUID, its
  store, and the admin commands. The aux hooks are function pointers: \<open>attach\<close> is a parameter that sees
  the calls made so far, and the calls of both hooks are logged in the state. The camera policy that a
  ticketed reserve consults is the state of \<open>Camera_Policy\<close>, passed along.
\<close>

section \<open>State\<close>

abbreviation (input) LEASE_MAX :: nat where "LEASE_MAX \<equiv> 8"

definition VIRT_SLICE_LEASE_STORE :: string where
  "VIRT_SLICE_LEASE_STORE = ''/run/amba-virt/slice-leases''"

record lease_slot =
  ls_in_use :: bool
  ls_uuid :: string
  ls_index :: u32
  ls_epoch :: u64
  ls_bytes :: u64
  ls_ticket :: string
  ls_primary :: bool

datatype hook_call = Attach u32 u64 bool | Detach u32

type_synonym attach_fn = "hook_call list \<Rightarrow> u32 \<Rightarrow> u64 \<Rightarrow> bool \<Rightarrow> int \<times> u64"

record lease_state =
  sl_slots :: "lease_slot list"
  sl_attach :: "attach_fn option"
  sl_detach :: bool
  sl_calls :: "hook_call list"
  sl_matched :: bool
  sl_count :: u32
  sl_slice_bytes :: u64
  sl_next_epoch :: u64
  sl_store :: string

definition zero_slot :: lease_slot where
  "zero_slot = \<lparr> ls_in_use = False, ls_uuid = [], ls_index = 0, ls_epoch = 0, ls_bytes = 0, ls_ticket = [], ls_primary = False \<rparr>"

section \<open>Helpers\<close>

definition uuid_ok :: "string \<Rightarrow> bool" where
  "uuid_ok uuid \<longleftrightarrow> 1 \<le> length uuid \<and> length uuid \<le> 36 \<and> list_all (\<lambda>c. c = CHR ''-'' \<or> isxdigit c) uuid"

definition parse_u64 :: "string \<Rightarrow> u64 option" where
  "parse_u64 s =
     (if s = [] then None
      else case strtoull s of
        None \<Rightarrow> None
      | Some (v, erange, rest) \<Rightarrow> if erange \<or> rest \<noteq> [] then None else Some v)"

definition lease_line :: "lease_slot \<Rightarrow> string" where
  "lease_line s =
     ls_uuid s @ [sp] @ dec32 (ls_index s) @ [sp] @ dec64 (ls_epoch s) @ [sp] @ dec64 (ls_bytes s) @ [sp] @
     (if ls_ticket s \<noteq> [] then ls_ticket s else ''-'') @ [sp] @ (if ls_primary s then ''primary'' else ''consumer'')"

definition save_locked_sl :: "lease_state \<Rightarrow> host \<Rightarrow> host \<times> int" where
  "save_locked_sl st h =
     store_write True (sl_store st) (concat (map (\<lambda>s. lease_line s @ [nl]) (filter ls_in_use (sl_slots st)))) h"

definition copy_ticket :: "string \<Rightarrow> string" where
  "copy_ticket ticket = take VIRT_CAMERA_TICKET_MAX ticket"

definition find_uuid_sl :: "string \<Rightarrow> lease_slot list \<Rightarrow> nat option" where
  "find_uuid_sl uuid ss = first_idx (\<lambda>s. ls_in_use s \<and> ls_uuid s = uuid) ss"

definition index_taken_sl :: "u32 \<Rightarrow> lease_slot list \<Rightarrow> bool" where
  "index_taken_sl index ss = list_ex (\<lambda>s. ls_in_use s \<and> ls_index s = index) ss"

definition format_ok_text :: "lease_slot \<Rightarrow> string" where
  "format_ok_text s =
     ''OK index='' @ dec32 (ls_index s) @ '' path=/dev/amba_virt_shm'' @ dec32 (ls_index s) @
     '' epoch='' @ dec64 (ls_epoch s) @ [nl]"

section \<open>Reserve, release and query\<close>

text \<open>The index a new lease gets: exactly \<open>min_index\<close>, or the first free one from there.\<close>

definition pick_index :: "u32 \<Rightarrow> bool \<Rightarrow> lease_state \<Rightarrow> u32 option" where
  "pick_index min_index exact st =
     (if exact then
        (if min_index \<ge> sl_count st \<or> index_taken_sl min_index (sl_slots st) then None else Some min_index)
      else map_option of_nat
        (find (\<lambda>i. \<not> index_taken_sl (of_nat i) (sl_slots st)) [unat min_index..<unat (sl_count st)]))"

definition reserve_range_locked :: "string \<Rightarrow> u64 \<Rightarrow> u32 \<Rightarrow> bool \<Rightarrow> nat \<Rightarrow> lease_state \<Rightarrow> host \<Rightarrow>
    lease_state \<times> host \<times> string" where
  "reserve_range_locked uuid bytes min_index exact resp_len st h =
     (let reply = (\<lambda>msg. (st, h, snprintf resp_len msg)) in
      if \<not> sl_matched st \<or> sl_count st = 0 \<or> sl_slice_bytes st = 0 then reply (ERR ''GEOMETRY'')
      else if \<not> uuid_ok uuid then reply (ERR ''INVAL'')
      else if bytes = 0 then reply (ERR ''ZERO'')
      else if bytes mod 4096 \<noteq> 0 then reply (ERR ''ALIGN'')
      else if bytes \<noteq> sl_slice_bytes st then reply (ERR ''SIZE'')
      else case find_uuid_sl uuid (sl_slots st) of
        Some i \<Rightarrow> reply (format_ok_text (sl_slots st ! i))
      | None \<Rightarrow>
          if sl_next_epoch st = 0 then reply (ERR ''EXHAUSTED'')
          else case pick_index min_index exact st of
            None \<Rightarrow> reply (ERR ''EXHAUSTED'')
          | Some index \<Rightarrow>
              (case first_idx (\<lambda>s. \<not> ls_in_use s) (sl_slots st) of
                 None \<Rightarrow> reply (ERR ''EXHAUSTED'')
               | Some i \<Rightarrow>
                   let slot = zero_slot\<lparr> ls_uuid := snprintf 64 uuid, ls_index := index, ls_epoch := sl_next_epoch st,
                                         ls_bytes := bytes, ls_in_use := True \<rparr>;
                       st1 = st\<lparr> sl_next_epoch := sl_next_epoch st + 1, sl_slots := (sl_slots st)[i := slot] \<rparr>;
                       (h', rc) = save_locked_sl st1 h
                   in if rc \<noteq> 0
                      then (st1\<lparr> sl_slots := (sl_slots st)[i := zero_slot] \<rparr>, h', snprintf resp_len (ERR ''PERSIST''))
                      else (st1, h', snprintf resp_len (format_ok_text slot))))"

definition reserve_locked_sl :: "string \<Rightarrow> u64 \<Rightarrow> nat \<Rightarrow> lease_state \<Rightarrow> host \<Rightarrow> lease_state \<times> host \<times> string" where
  "reserve_locked_sl uuid bytes resp_len st h = reserve_range_locked uuid bytes 0 False resp_len st h"

definition release_locked_sl :: "string \<Rightarrow> u64 \<Rightarrow> nat \<Rightarrow> lease_state \<Rightarrow> host \<Rightarrow> lease_state \<times> host \<times> string" where
  "release_locked_sl uuid epoch resp_len st h =
     (let reply = (\<lambda>msg. (st, h, snprintf resp_len msg)) in
      if \<not> uuid_ok uuid then reply (ERR ''INVAL'')
      else case find_uuid_sl uuid (sl_slots st) of
        None \<Rightarrow> reply (ERR ''NOT_FOUND'')
      | Some i \<Rightarrow>
          if ls_epoch (sl_slots st ! i) \<noteq> epoch then reply (ERR ''STALE'')
          else
            let saved = sl_slots st ! i;
                st1 = st\<lparr> sl_slots := (sl_slots st)[i := zero_slot] \<rparr>;
                (h', rc) = save_locked_sl st1 h
            in if rc \<noteq> 0 then (st, h', snprintf resp_len (ERR ''PERSIST''))
               else (if sl_detach st then st1\<lparr> sl_calls := sl_calls st @ [Detach (ls_index saved)] \<rparr> else st1,
                     h', snprintf resp_len (''OK'' @ [nl])))"

definition query_locked :: "string \<Rightarrow> nat \<Rightarrow> lease_state \<Rightarrow> string" where
  "query_locked uuid resp_len st =
     (if \<not> uuid_ok uuid then snprintf resp_len (ERR ''INVAL'')
      else case find_uuid_sl uuid (sl_slots st) of
        None \<Rightarrow> snprintf resp_len (ERR ''NOT_FOUND'')
      | Some i \<Rightarrow> snprintf resp_len (format_ok_text (sl_slots st ! i)))"

section \<open>Start-up\<close>

definition virt_slice_lease_reset :: "lease_state \<Rightarrow> lease_state" where
  "virt_slice_lease_reset st =
     st\<lparr> sl_slots := replicate LEASE_MAX zero_slot, sl_matched := False, sl_count := 0, sl_slice_bytes := 0,
         sl_next_epoch := 1, sl_store := VIRT_SLICE_LEASE_STORE, sl_attach := None, sl_detach := False \<rparr>"

definition virt_slice_lease_set_store :: "string option \<Rightarrow> lease_state \<Rightarrow> lease_state" where
  "virt_slice_lease_set_store path st =
     (case path of
        Some p \<Rightarrow> if p \<noteq> [] \<and> length p < 256 then st\<lparr> sl_store := snprintf 256 p \<rparr> else st
      | None \<Rightarrow> st)"

text \<open>A lease outside the new geometry is dropped; the store is then rewritten, whatever that returns.\<close>

definition virt_slice_lease_set_geometry :: "bool \<Rightarrow> u32 \<Rightarrow> u64 \<Rightarrow> lease_state \<Rightarrow> host \<Rightarrow> lease_state \<times> host" where
  "virt_slice_lease_set_geometry matched count slice_bytes st h =
     (if matched \<and> count \<ge> 1 \<and> unat count \<le> LEASE_MAX \<and> slice_bytes \<noteq> 0 \<and> slice_bytes mod 4096 = 0 then
        let out = (\<lambda>s. ls_in_use s \<and> (ls_index s \<ge> count \<or> ls_bytes s \<noteq> slice_bytes));
            st1 = st\<lparr> sl_matched := True, sl_count := count, sl_slice_bytes := slice_bytes,
                      sl_slots := map (\<lambda>s. if out s then zero_slot else s) (sl_slots st) \<rparr>
        in (st1, if list_ex out (sl_slots st) then fst (save_locked_sl st1 h) else h)
      else (st\<lparr> sl_matched := False, sl_count := 0, sl_slice_bytes := 0 \<rparr>, h))"

text \<open>
  One line of the store: uuid, index, epoch, bytes, and the ticket and role when both are there. \<open>None\<close> when
  fewer than four fields convert.
\<close>

definition scan_lease :: "string \<Rightarrow> (string \<times> u32 \<times> u64 \<times> u64 \<times> (string \<times> string) option) option" where
  "scan_lease line =
     (case scan_s 63 line of None \<Rightarrow> None | Some (uuid, r1) \<Rightarrow>
      (case scan_u r1 of None \<Rightarrow> None | Some (index, r2) \<Rightarrow>
      (case scan_llu r2 of None \<Rightarrow> None | Some (epoch, r3) \<Rightarrow>
      (case scan_llu r3 of None \<Rightarrow> None | Some (bytes, r4) \<Rightarrow>
        Some (uuid, index, epoch, bytes,
          case scan_s 63 r4 of None \<Rightarrow> None | Some (ticket, r5) \<Rightarrow>
          (case scan_s 63 r5 of None \<Rightarrow> None | Some (role, _) \<Rightarrow> Some (ticket, role)))))))"

definition recorded_ticket :: "(string \<times> string) option \<Rightarrow> string \<times> bool" where
  "recorded_ticket tr =
     (case tr of None \<Rightarrow> ([], False)
      | Some (ticket, role) \<Rightarrow>
          if ticket = ''-'' \<or> \<not> virt_camera_ticket_ok ticket \<or> (role \<noteq> ''primary'' \<and> role \<noteq> ''consumer'') then ([], False)
          else (copy_ticket ticket, role = ''primary''))"

text \<open>What one line does; \<open>None\<close> is the \<open>break\<close> when the table is full.\<close>

definition load_line_sl :: "string \<Rightarrow> lease_state \<Rightarrow> lease_state option" where
  "load_line_sl line st =
     (if line \<noteq> [] \<and> (hd line = CHR ''#'' \<or> hd line = nl) then Some st
      else case scan_lease (c_str line) of
        None \<Rightarrow> Some st
      | Some (uuid, index, epoch, bytes, tr) \<Rightarrow>
          if \<not> uuid_ok uuid \<or> epoch = 0 \<or> bytes = 0 then Some st
          else if \<not> sl_matched st \<or> index \<ge> sl_count st \<or> bytes \<noteq> sl_slice_bytes st then Some st
          else if find_uuid_sl uuid (sl_slots st) \<noteq> None \<or> index_taken_sl index (sl_slots st) then Some st
          else case first_idx (\<lambda>s. \<not> ls_in_use s) (sl_slots st) of
            None \<Rightarrow> None
          | Some i \<Rightarrow>
              let (ticket, primary) = recorded_ticket tr;
                  slot = \<lparr> ls_in_use = True, ls_uuid = snprintf 64 uuid, ls_index = index, ls_epoch = epoch,
                           ls_bytes = bytes, ls_ticket = ticket, ls_primary = primary \<rparr>
              in Some (st\<lparr> sl_slots := (sl_slots st)[i := slot],
                           sl_next_epoch := (if epoch \<ge> sl_next_epoch st
                                             then (if epoch = - 1 then 0 else epoch + 1)
                                             else sl_next_epoch st) \<rparr>))"

fun load_lines_sl :: "string list \<Rightarrow> lease_state \<Rightarrow> lease_state" where
  "load_lines_sl [] st = st"
| "load_lines_sl (l # ls) st = (case load_line_sl l st of None \<Rightarrow> st | Some st' \<Rightarrow> load_lines_sl ls st')"

definition virt_slice_lease_load :: "host \<Rightarrow> lease_state \<Rightarrow> lease_state" where
  "virt_slice_lease_load h st =
     (case store_open (sl_store st) h of Inl _ \<Rightarrow> st | Inr content \<Rightarrow> load_lines_sl (fgets_lines content) st)"

section \<open>The camera verdict of a reserve\<close>

text \<open>The suffix of a grant, in a buffer of 160 bytes; \<open>None\<close> when it does not fit.\<close>

definition append_suffix :: "string \<Rightarrow> string \<Rightarrow> string option" where
  "append_suffix suffix extra = (if length extra \<ge> 160 - length suffix then None else Some (suffix @ extra))"

text \<open>The reply with the suffix in front of its newline, when there is room for it.\<close>

definition add_suffix :: "string \<Rightarrow> nat \<Rightarrow> string \<Rightarrow> string" where
  "add_suffix suffix resp_len resp =
     (let body = (if resp \<noteq> [] \<and> last resp = nl then butlast resp else resp) in
      if length body + length suffix + 2 > resp_len then resp else body @ suffix @ [nl])"

definition starts_ok :: "string \<Rightarrow> bool" where
  "starts_ok resp \<longleftrightarrow> take 9 resp = ''OK index=''"

text \<open>The suffix of a ticketed reserve: the aux aperture goes to the camera's primary only.\<close>

definition ticket_suffix :: "lease_slot \<Rightarrow> virt_camera_verdict \<Rightarrow> string \<Rightarrow> lease_state \<Rightarrow> lease_state \<times> string option" where
  "ticket_suffix slot v suffix st =
     (let (st1, with_aux) =
        (case sl_attach st of
           None \<Rightarrow> (st, Some suffix)
         | Some attach \<Rightarrow>
             let give = (vd_camera v \<and> ls_primary slot);
                 (rc, aux) = attach (sl_calls st) (ls_index slot) (ls_epoch slot) give;
                 st1 = st\<lparr> sl_calls := sl_calls st @ [Attach (ls_index slot) (ls_epoch slot) give] \<rparr>
             in (st1, if rc = 0 \<and> aux \<noteq> 0 \<and> vd_camera v then append_suffix suffix ('' aux='' @ dec64 aux) else Some suffix))
      in (st1, case with_aux of None \<Rightarrow> None
           | Some s \<Rightarrow> append_suffix s ('' role='' @ (if ls_primary slot then ''primary'' else ''consumer''))))"

definition append_camera_locked :: "string \<Rightarrow> string option \<Rightarrow> virt_camera_intent \<Rightarrow> nat \<Rightarrow> string \<Rightarrow>
    lease_state \<Rightarrow> camera_state \<Rightarrow> host \<Rightarrow> lease_state \<times> camera_state \<times> host \<times> string" where
  "append_camera_locked uuid ticket intent resp_len resp st cam h =
     (if \<not> starts_ok resp then (st, cam, h, resp)
      else case find_uuid_sl uuid (sl_slots st) of
        None \<Rightarrow> (st, cam, h, resp)
      | Some i \<Rightarrow>
          (case ticket of
             None \<Rightarrow>
               (st, cam, h, case virt_camera_verdict_format zero_verdict 160 of
                  None \<Rightarrow> resp | Some suffix \<Rightarrow> add_suffix suffix resp_len resp)
           | Some t \<Rightarrow>
               let primary = (virt_iav_role_of t cam = ROLE_PRIMARY);
                   slot = (sl_slots st ! i)\<lparr> ls_ticket := copy_ticket t, ls_primary := primary \<rparr>;
                   st1 = st\<lparr> sl_slots := (sl_slots st)[i := slot] \<rparr>;
                   (h', rc) = save_locked_sl st1 h
               in if rc \<noteq> 0 then (st, cam, h', snprintf resp_len (ERR ''PERSIST''))
                  else
                    let (cam', rc', v0) = virt_camera_policy_decide t intent primary cam;
                        v = (if rc' \<noteq> 0 then zero_verdict else v0)
                    in case virt_camera_verdict_format v 160 of
                         None \<Rightarrow> (st1, cam', h', resp)
                       | Some suffix0 \<Rightarrow>
                           let (st2, s) = ticket_suffix slot v suffix0 st1
                           in (st2, cam', h', case s of None \<Rightarrow> resp | Some suffix \<Rightarrow> add_suffix suffix resp_len resp)))"

section \<open>Admin commands\<close>

definition reserve_with_camera :: "string \<Rightarrow> u64 \<Rightarrow> u32 \<Rightarrow> bool \<Rightarrow> string option \<Rightarrow> virt_camera_intent \<Rightarrow> nat \<Rightarrow>
    lease_state \<Rightarrow> camera_state \<Rightarrow> host \<Rightarrow> lease_state \<times> camera_state \<times> host \<times> string" where
  "reserve_with_camera uuid bytes min_index exact ticket intent resp_len st cam h =
     (let (st1, h1, resp) = reserve_range_locked uuid bytes min_index exact resp_len st h
      in append_camera_locked uuid ticket intent resp_len resp st1 cam h1)"

definition virt_slice_lease_admin :: "string option \<Rightarrow> nat \<Rightarrow> lease_state \<Rightarrow> camera_state \<Rightarrow> host \<Rightarrow>
    lease_state \<times> camera_state \<times> host \<times> int \<times> string" where
  "virt_slice_lease_admin req resp_len st cam h =
     (if resp_len = 0 then (st, cam, h, - 1, [])
      else
      let reply = (\<lambda>msg. (st, cam, h, 0, snprintf resp_len msg)); inval = reply (ERR ''INVAL'');
          ret = (\<lambda>(st', cam', h', resp). (st', cam', h', 0, resp)) in
      case req of
        None \<Rightarrow> inval
      | Some line \<Rightarrow>
          let ws = scan_words 7 63 line; fields = length ws; cmd = field ws 0; uuid = field ws 1; num = field ws 2;
              extra = field ws 3; ticket = field ws 4; intent_s = field ws 5 in
          if fields < 1 then inval
          else if cmd = ''RESERVE_SLICE'' then
            (case parse_u64 num of
               None \<Rightarrow> inval
             | Some value \<Rightarrow> ret (reserve_with_camera uuid value 0 False None INTENT_ABSENT resp_len st cam h))
          else if cmd = ''RESERVE_SLICE_AT'' \<or> cmd = ''RESERVE_SLICE_MIN'' then
            (if fields \<noteq> 6 then inval
             else case (parse_u64 num, parse_u64 extra, virt_camera_intent_parse intent_s) of
                 (Some value, Some index_value, Some intent) \<Rightarrow>
                   if index_value > 0xFFFFFFFF \<or> \<not> virt_camera_ticket_ok ticket then inval
                   else ret (reserve_with_camera uuid value (ucast index_value) (cmd = ''RESERVE_SLICE_AT'')
                               (Some ticket) intent resp_len st cam h)
               | _ \<Rightarrow> inval)
          else if cmd = ''RELEASE_SLICE'' then
            (case parse_u64 num of
               None \<Rightarrow> inval
             | Some value \<Rightarrow>
                 (let (st', h', resp) = release_locked_sl uuid value resp_len st h in (st', cam, h', 0, resp)))
          else if cmd = ''QUERY_SLICE'' then (st, cam, h, 0, query_locked uuid resp_len st)
          else reply (ERR ''UNKNOWN_CMD''))"

section \<open>What other modules ask\<close>

definition virt_slice_lease_index_used :: "u32 \<Rightarrow> lease_state \<Rightarrow> bool" where
  "virt_slice_lease_index_used index st = list_ex (\<lambda>s. ls_in_use s \<and> ls_index s = index) (sl_slots st)"

definition virt_slice_lease_ticket_of_index :: "u32 \<Rightarrow> nat \<Rightarrow> lease_state \<Rightarrow> (string \<times> bool) option" where
  "virt_slice_lease_ticket_of_index index ticket_len st =
     (case first_idx (\<lambda>s. ls_in_use s \<and> ls_index s = index) (sl_slots st) of
        None \<Rightarrow> None
      | Some i \<Rightarrow> Some (snprintf ticket_len (ls_ticket (sl_slots st ! i)), ls_primary (sl_slots st ! i)))"

definition virt_slice_lease_ticket_count :: "string \<Rightarrow> lease_state \<Rightarrow> nat" where
  "virt_slice_lease_ticket_count ticket st =
     (if ticket = [] then 0 else length (filter (\<lambda>s. ls_in_use s \<and> ls_ticket s = ticket) (sl_slots st)))"

definition virt_slice_lease_set_aux_hooks :: "attach_fn option \<Rightarrow> bool \<Rightarrow> lease_state \<Rightarrow> lease_state" where
  "virt_slice_lease_set_aux_hooks attach detach st = st\<lparr> sl_attach := attach, sl_detach := detach \<rparr>"

text \<open>The calls of \<open>virt_slice_lease_foreach\<close>: index, epoch, primary, and whether the lease has a ticket.\<close>

definition virt_slice_lease_foreach :: "lease_state \<Rightarrow> (u32 \<times> u64 \<times> bool \<times> bool) list" where
  "virt_slice_lease_foreach st =
     map (\<lambda>s. (ls_index s, ls_epoch s, ls_primary s, ls_ticket s \<noteq> [])) (filter ls_in_use (sl_slots st))"

end
