(* ===== verification/Camera_Stores.thy ===== *)
theory Camera_Stores
  imports Camera_Policy
begin

text \<open>
  What the two stores of the camera policy hold: the text written for a table fits the buffer, cuts back
  into the lines it was made of, and parses back to the same table.
\<close>

abbreviation lines_text :: "string list \<Rightarrow> string" where
  "lines_text ls \<equiv> concat (map (\<lambda>l. l @ [nl]) ls)"

lemma store_lines_concat: "(\<And>l. l \<in> set ls \<Longrightarrow> nl \<notin> set l) \<Longrightarrow> store_lines (lines_text ls) = ls"
proof (induction ls)
  case (Cons l ls)
  have "takeWhile (\<lambda>c. c \<noteq> nl) (l @ nl # rest) = l" for rest
    using Cons.prems [of l] by (subst takeWhile_append2) auto
  then show ?case using Cons by (simp add: store_lines.simps [of "l @ _"])
qed (simp add: store_lines.simps)

lemma pack_lines_concat:
  "length buf + length (concat ls) < cap \<Longrightarrow> pack_lines cap buf ls = Some (buf @ concat ls)"
  by (induction ls arbitrary: buf) auto

lemma parse_store_print:
  assumes "\<And>tv. tv \<in> set ps \<Longrightarrow> p (pr tv) = Some tv" "distinct (map fst (acc @ ps))" "length (acc @ ps) \<le> 64"
  shows "parse_store p acc (map pr ps) = Some (acc @ ps)"
  using assms
proof (induction ps arbitrary: acc)
  case (Cons tv ps)
  obtain t v where tv: "tv = (t, v)" by force
  have "t \<notin> fst ` set acc" using Cons.prems(2) by (auto simp: tv)
  moreover have "parse_store p (acc @ [(t, v)]) (map pr ps) = Some ((acc @ [(t, v)]) @ ps)"
    using Cons.prems by (intro Cons.IH) (auto simp: tv)
  ultimately show ?case using Cons.prems(1) [of tv] Cons.prems(3) by (simp add: tv)
qed simp

text \<open>What a successful parse says of the lines, for a parser that only accepts valid tickets.\<close>

lemma parse_store_SomeD:
  assumes "parse_store p acc ls = Some ps" "distinct (map fst acc)" "length acc \<le> 64"
    and "\<And>t v. (t, v) \<in> set acc \<Longrightarrow> virt_camera_ticket_ok t"
    and "\<And>l t v. p l = Some (t, v) \<Longrightarrow> virt_camera_ticket_ok t"
  shows "distinct (map fst ps) \<and> length ps \<le> 64 \<and> (\<forall>(t, v) \<in> set ps. virt_camera_ticket_ok t)"
  using assms(1-4)
proof (induction ls arbitrary: acc)
  case (Cons l ls)
  obtain t v where r: "p l = Some (t, v)" "t \<notin> fst ` set acc" "length acc < 64"
    "parse_store p (acc @ [(t, v)]) ls = Some ps"
    using Cons.prems(1) by (auto split: if_splits option.splits)
  show ?case
    using r Cons.prems(2-4) assms(5) [OF r(1)] by (intro Cons.IH [OF r(4)]) auto
qed auto

lemma ticket_ok_chars:
  "virt_camera_ticket_ok t \<Longrightarrow> sp \<notin> set t \<and> nl \<notin> set t \<and> nul \<notin> set t \<and> t \<noteq> [] \<and> length t \<le> 48"
  by (auto simp: virt_camera_ticket_ok_def list_all_iff ticket_char_def islower_c_def isupper_c_def isdigit_def code_of_def)

lemma first_idx_append: "x \<notin> set t \<Longrightarrow> first_idx (\<lambda>c. c = x) (t @ x # rest) = Some (length t)"
  by (induction t) auto

lemma role_parse_print: "virt_camera_ticket_ok t \<Longrightarrow> role_parse_line (t @ sp # virt_iav_role_name r) = Some (t, r)"
  using ticket_ok_chars [of t]
  by (cases r) (auto simp: role_parse_line_def first_idx_append virt_iav_role_name_def Suc_le_eq)

lemma parse_line_print:
  "virt_camera_ticket_ok t \<Longrightarrow> ov \<noteq> OV_INHERIT \<Longrightarrow>
   parse_line (t @ sp # (if ov = OV_ON then ''on'' else ''off'')) = Some (t, ov)"
  using ticket_ok_chars [of t] by (cases ov) (auto simp: parse_line_def first_idx_append)

lemma role_parse_ticket: "role_parse_line l = Some (t, r) \<Longrightarrow> virt_camera_ticket_ok t"
  by (auto simp: role_parse_line_def Let_def split: option.splits if_splits)

lemma parse_line_ticket: "parse_line l = Some (t, r) \<Longrightarrow> virt_camera_ticket_ok t"
  by (auto simp: parse_line_def Let_def split: option.splits if_splits)

lemma parse_line_override: "parse_line l = Some (t, ov) \<Longrightarrow> ov \<noteq> OV_INHERIT"
  by (auto simp: parse_line_def Let_def split: option.splits if_splits)

text \<open>A table of at most 64 lines of valid tickets fits the 4096-byte buffer.\<close>

lemma length_concat_le: "(\<And>l. l \<in> set ls \<Longrightarrow> length l \<le> k) \<Longrightarrow> length (concat ls) \<le> length ls * k"
  by (induction ls) fastforce+

lemma store_text_roundtrip:
  assumes "length ls \<le> 64" "\<And>l. l \<in> set ls \<Longrightarrow> length l \<le> 57 \<and> nl \<notin> set l \<and> nul \<notin> set l"
  shows "pack_lines 4096 [] (map (\<lambda>l. l @ [nl]) ls) = Some (lines_text ls)"
    and "read_store (lines_text ls) = Some (lines_text ls)" and "store_lines (lines_text ls) = ls"
proof -
  let ?buf = "lines_text ls"
  have "length ?buf \<le> length (map (\<lambda>l. l @ [nl]) ls) * 58"
    using assms(2) by (intro length_concat_le) auto
  then have len: "length ?buf < 4096" using assms(1) by simp
  then show "pack_lines 4096 [] (map (\<lambda>l. l @ [nl]) ls) = Some ?buf" by (simp add: pack_lines_concat)
  have "nul \<notin> set ?buf" using assms(2) by auto
  then show "read_store ?buf = Some ?buf" using len by (simp add: read_store_def)
  show "store_lines ?buf = ls" using assms(2) by (intro store_lines_concat) blast
qed

section \<open>Writing a store\<close>

lemma write_atomic_failed:
  assumes "write_atomic path buf h = (h', rc)" "rc \<noteq> 0"
  shows "rc = - 1" and "p \<noteq> tmp_of path \<Longrightarrow> files h' p = files h p" and "unreadable h' = unreadable h"
proof -
  have "(\<exists>mk. store_write mk path buf h = (h', rc)) \<or> h' = h \<and> rc = - 1"
    using assms by (auto simp: write_atomic_def split: option.splits if_splits)
  then show "rc = - 1" and "p \<noteq> tmp_of path \<Longrightarrow> files h' p = files h p" and "unreadable h' = unreadable h"
    using store_write_failed assms(2) by blast+
qed

lemma write_atomic_done:
  assumes "write_atomic path buf h = (h', 0)"
  shows "files h' = (files h)(tmp_of path := None, path \<mapsto> buf)" "unreadable h' = unreadable h"
  using assms store_write_done [of _ path buf h h']
  by (auto simp: write_atomic_def split: option.splits if_splits)

lemma write_atomic_read:
  "write_atomic path buf h = (h', 0) \<Longrightarrow> \<not> unreadable h path \<Longrightarrow> store_open path h' = Inr buf"
  using write_atomic_done [of path buf h h'] by (simp add: store_open_def)

end
