(* ===== verification/Camera_Roles.thy ===== *)
theory Camera_Roles
  imports Camera_Stores
begin

text \<open>
  The IAV role table as a partial map from tickets to roles: what \<open>SET_ROLE\<close> does to the map, that a
  restart reads the same map back, and the table's invariant (every line of a valid ticket, no ticket
  twice, at most one primary line).
\<close>

interpretation role_table: keyed_slots rl_in_use rl_ticket zero_role
  by unfold_locales (simp add: zero_role_def)

definition is_primary :: "role_line \<Rightarrow> bool" where
  "is_primary l \<longleftrightarrow> rl_in_use l \<and> rl_role l = ROLE_PRIMARY"

definition one_primary :: "role_line list \<Rightarrow> bool" where
  "one_primary ls = unique_keys is_primary (\<lambda>_. ()) ls"

definition roles_wf :: "role_line list \<Rightarrow> bool" where
  "roles_wf ls \<longleftrightarrow> length ls = VIRT_CAMERA_MAX_ENTRIES \<and> unique_keys rl_in_use rl_ticket ls \<and>
     list_all (\<lambda>l. rl_in_use l \<longrightarrow> virt_camera_ticket_ok (rl_ticket l)) ls \<and> one_primary ls"

definition role_map :: "role_line list \<Rightarrow> string \<rightharpoonup> virt_iav_role" where
  "role_map ls t = map_option rl_role (slot_of rl_in_use rl_ticket ls t)"

definition map_role_of :: "(string \<rightharpoonup> virt_iav_role) \<Rightarrow> string \<Rightarrow> virt_iav_role" where
  "map_role_of m t = (case m t of
      Some r \<Rightarrow> r
    | None \<Rightarrow> if \<exists>t'. m t' = Some ROLE_PRIMARY then ROLE_CONSUMER
              else if t = VIRT_IAV_DEFAULT_PRIMARY then ROLE_PRIMARY else ROLE_CONSUMER)"

lemma roles_wf_none: "roles_wf (replicate VIRT_CAMERA_MAX_ENTRIES zero_role)"
  by (simp add: roles_wf_def one_primary_def role_table.reset_unique list_all_iff zero_role_def unique_keys_def
      live_keys_replicate is_primary_def)

lemma role_map_none [simp]: "role_map (replicate n zero_role) = Map.empty"
  by (simp add: fun_eq_iff role_map_def role_table.slot_of_None live_keys_replicate zero_role_def)

lemma role_map_iff:
  "roles_wf ls \<Longrightarrow> role_map ls t = Some r \<longleftrightarrow> (\<exists>i < length ls. rl_in_use (ls ! i) \<and> rl_ticket (ls ! i) = t \<and> rl_role (ls ! i) = r)"
  using role_table.slot_of_iff [of ls t] by (auto simp: role_map_def roles_wf_def)

lemma role_map_ticket_ok: "roles_wf ls \<Longrightarrow> role_map ls t = Some r \<Longrightarrow> virt_camera_ticket_ok t"
  by (auto simp: role_map_iff) (auto simp: roles_wf_def list_all_length)

lemma one_primary_nth:
  "one_primary ls \<Longrightarrow> i < length ls \<Longrightarrow> j < length ls \<Longrightarrow> is_primary (ls ! i) \<Longrightarrow> is_primary (ls ! j) \<Longrightarrow> i = j"
  using unique_keys_nth [of is_primary "\<lambda>_. ()" ls i j] by (simp add: one_primary_def)

lemma role_map_one_primary:
  "roles_wf ls \<Longrightarrow> role_map ls t = Some ROLE_PRIMARY \<Longrightarrow> role_map ls u = Some ROLE_PRIMARY \<Longrightarrow> t = u"
  using one_primary_nth [of ls] by (auto simp: role_map_iff roles_wf_def is_primary_def)

lemma role_find_map: "role_find t ls = None \<longleftrightarrow> role_map ls t = None"
  by (simp add: role_find_def role_map_def slot_of_def find_first_idx)

lemma role_find_SomeD:
  "role_find t ls = Some i \<Longrightarrow> i < length ls \<and> rl_in_use (ls ! i) \<and> rl_ticket (ls ! i) = t \<and> role_map ls t = Some (rl_role (ls ! i))"
  by (auto simp: role_find_def role_map_def slot_of_def find_first_idx dest: first_idx_SomeD)

lemma primary_line_map: "roles_wf ls \<Longrightarrow> role_primary_line_locked ls \<longleftrightarrow> (\<exists>t. role_map ls t = Some ROLE_PRIMARY)"
  by (auto simp: role_primary_line_locked_def list_ex_length role_map_iff)

lemma role_of_map:
  assumes "roles_wf (cp_roles st)"
  shows "virt_iav_role_of t st =
    (if virt_camera_ticket_ok t \<and> cp_roles_state st \<noteq> ROLES_INVALID then map_role_of (role_map (cp_roles st)) t
     else ROLE_CONSUMER)"
  using role_find_SomeD [of t "cp_roles st"] role_find_map [of t "cp_roles st"] primary_line_map [OF assms]
  by (auto simp: virt_iav_role_of_def role_of_locked_def map_role_of_def split: option.splits)

text \<open>Under the resolution rule at most one ticket is the primary.\<close>

lemma map_role_of_one:
  assumes "\<And>a b. m a = Some ROLE_PRIMARY \<Longrightarrow> m b = Some ROLE_PRIMARY \<Longrightarrow> a = b"
    and "map_role_of m t = ROLE_PRIMARY" "map_role_of m u = ROLE_PRIMARY"
  shows "t = u"
  using assms by (auto simp: map_role_of_def split: option.splits if_splits)

section \<open>Changing the table\<close>

lemma roles_wf_insert:
  assumes "unique_keys rl_in_use rl_ticket ls" "length ls = VIRT_CAMERA_MAX_ENTRIES" "one_primary ls"
    and "list_all (\<lambda>l. rl_in_use l \<longrightarrow> virt_camera_ticket_ok (rl_ticket l)) ls" "i < length ls"
    and "rl_in_use x" "virt_camera_ticket_ok (rl_ticket x)"
    and "\<And>j. j < length ls \<Longrightarrow> j \<noteq> i \<Longrightarrow> rl_in_use (ls ! j) \<Longrightarrow> rl_ticket (ls ! j) \<noteq> rl_ticket x"
    and "\<And>j. rl_role x = ROLE_PRIMARY \<Longrightarrow> j < length ls \<Longrightarrow> j \<noteq> i \<Longrightarrow> \<not> is_primary (ls ! j)"
  shows "roles_wf (ls[i := x])"
proof -
  have "one_primary (ls[i := x])"
  proof (cases "rl_role x = ROLE_PRIMARY")
    case True
    then show ?thesis using assms(3,9) unfolding one_primary_def by (intro unique_keys_replace) auto
  next
    case False
    then have "\<not> is_primary x" by (simp add: is_primary_def)
    then show ?thesis using assms(3) unfolding one_primary_def by (intro unique_keys_clear)
  qed
  moreover have "unique_keys rl_in_use rl_ticket (ls[i := x])" by (rule unique_keys_replace [OF assms(1,8)])
  moreover have "list_all (\<lambda>l. rl_in_use l \<longrightarrow> virt_camera_ticket_ok (rl_ticket l)) (ls[i := x])"
    using assms(4,7) by (intro list_all_update) auto
  ultimately show ?thesis using assms(2) by (simp add: roles_wf_def)
qed

lemma roles_wf_prune:
  assumes "roles_wf ls"
  shows "roles_wf (map (\<lambda>x. if P x then zero_role else x) ls)"
proof -
  have "one_primary (map (\<lambda>x. if P x then zero_role else x) ls)"
    unfolding one_primary_def
  proof (rule unique_keysI)
    fix i j
    let ?t = "map (\<lambda>x. if P x then zero_role else x) ls"
    assume "i < length ?t" "j < length ?t" "is_primary (?t ! i)" "is_primary (?t ! j)"
    then show "i = j"
      using assms one_primary_nth [of ls i j] by (auto simp: roles_wf_def is_primary_def zero_role_def split: if_splits)
  qed
  then show ?thesis
    using assms role_table.prune_unique by (auto simp: roles_wf_def list_all_iff zero_role_def)
qed

lemma roles_wf_clear: "roles_wf ls \<Longrightarrow> roles_wf (ls[i := zero_role])"
  using role_table.release_unique [of ls i] list_all_update [of _ ls zero_role i]
    unique_keys_clear [of is_primary "\<lambda>_. ()" ls zero_role i]
  by (simp add: roles_wf_def one_primary_def is_primary_def) (simp add: zero_role_def)

lemma role_map_put:
  assumes wf: "roles_wf ls" and i: "i < length ls" and t: "virt_camera_ticket_ok t"
    and used: "rl_in_use (ls ! i) \<Longrightarrow> rl_ticket (ls ! i) = t" and free: "\<not> rl_in_use (ls ! i) \<Longrightarrow> role_map ls t = None"
    and prim: "\<And>u. r = ROLE_PRIMARY \<Longrightarrow> role_map ls u = Some ROLE_PRIMARY \<Longrightarrow> u = t"
  defines "x \<equiv> \<lparr> rl_in_use = True, rl_ticket = t, rl_role = r \<rparr>"
  shows "roles_wf (ls[i := x])" and "role_map (ls[i := x]) = (role_map ls)(t \<mapsto> r)"
proof -
  have u: "unique_keys rl_in_use rl_ticket ls" using wf by (simp add: roles_wf_def)
  have other: "rl_ticket (ls ! j) \<noteq> t" if "j < length ls" "j \<noteq> i" "rl_in_use (ls ! j)" for j
  proof
    assume jt: "rl_ticket (ls ! j) = t"
    then have "role_map ls t = Some (rl_role (ls ! j))" using that by (auto simp: role_map_iff [OF wf])
    then have "rl_in_use (ls ! i)" using free by auto
    then show False using unique_keys_nth [OF u that(1) i that(3)] used that(2) jt by simp
  qed
  show "roles_wf (ls[i := x])"
  proof (rule roles_wf_insert [OF u _ _ _ i])
    fix j
    assume "rl_role x = ROLE_PRIMARY" and j: "j < length ls" "j \<noteq> i"
    then have r: "r = ROLE_PRIMARY" by (simp add: x_def)
    show "\<not> is_primary (ls ! j)"
    proof
      assume "is_primary (ls ! j)"
      then have "rl_in_use (ls ! j)" "role_map ls (rl_ticket (ls ! j)) = Some ROLE_PRIMARY"
        using j(1) by (auto simp: role_map_iff [OF wf] is_primary_def)
      then show False using prim [OF r] other [OF j] by blast
    qed
  qed (use wf t other in \<open>auto simp: x_def roles_wf_def\<close>)
  have "slot_of rl_in_use rl_ticket (ls[i := x]) = (slot_of rl_in_use rl_ticket ls)(t \<mapsto> x)"
  proof (cases "rl_in_use (ls ! i)")
    case True
    then show ?thesis using role_table.slot_of_replace [OF u i True, of x] used by (simp add: x_def)
  next
    case False
    then show ?thesis using role_table.slot_of_claim [OF u i False, of x] free by (simp add: x_def role_map_def)
  qed
  then show "role_map (ls[i := x]) = (role_map ls)(t \<mapsto> r)" by (simp add: role_map_def fun_eq_iff x_def)
qed

text \<open>What \<open>SET_ROLE\<close> means for the map of roles.\<close>

definition set_map :: "string \<Rightarrow> string \<Rightarrow> (string \<rightharpoonup> virt_iav_role) \<Rightarrow> string \<rightharpoonup> virt_iav_role" where
  "set_map t what m =
     (if what = ''inherit'' then m(t := None)
      else if what = ''primary'' then (\<lambda>u. if m u = Some ROLE_PRIMARY then None else m u)(t \<mapsto> ROLE_PRIMARY)
      else m(t \<mapsto> ROLE_CONSUMER))"

definition role_base :: "camera_state \<Rightarrow> role_line list" where
  "role_base st = (if cp_roles_state st = ROLES_INVALID then replicate VIRT_CAMERA_MAX_ENTRIES zero_role else cp_roles st)"

lemma roles_wf_base: "roles_wf (cp_roles st) \<Longrightarrow> roles_wf (role_base st)"
  using roles_wf_none by (simp add: role_base_def)

lemma role_map_prune_primary:
  assumes "roles_wf ls"
  shows "role_map (map (\<lambda>x. if rl_in_use x \<and> rl_role x = ROLE_PRIMARY \<and> rl_ticket x \<noteq> t then zero_role else x) ls) u
    = (if u \<noteq> t \<and> role_map ls u = Some ROLE_PRIMARY then None else role_map ls u)"
proof -
  have "unique_keys rl_in_use rl_ticket ls" using assms by (simp add: roles_wf_def)
  then show ?thesis using role_table.slot_of_SomeD [of ls u]
    by (cases "slot_of rl_in_use rl_ticket ls u") (auto simp: role_map_def role_table.slot_of_prune)
qed

lemma role_set_put:
  assumes wf: "roles_wf ls" and t: "virt_camera_ticket_ok t"
    and old: "\<And>k. role_find t ls0 = Some k \<Longrightarrow> k < length ls \<and> rl_in_use (ls ! k) \<and> rl_ticket (ls ! k) = t"
    and new: "role_find t ls0 = None \<Longrightarrow> role_map ls t = None"
    and prim: "\<And>u. r = ROLE_PRIMARY \<Longrightarrow> role_map ls u = Some ROLE_PRIMARY \<Longrightarrow> u = t"
    and i: "(case role_find t ls0 of Some i \<Rightarrow> Some i | None \<Rightarrow> first_idx (\<lambda>x. \<not> rl_in_use x) ls) = Some i"
  shows "roles_wf (ls[i := \<lparr> rl_in_use = True, rl_ticket = take 48 t, rl_role = r \<rparr>])"
    and "role_map (ls[i := \<lparr> rl_in_use = True, rl_ticket = take 48 t, rl_role = r \<rparr>]) = (role_map ls)(t \<mapsto> r)"
proof -
  have i': "i < length ls" "rl_in_use (ls ! i) \<Longrightarrow> rl_ticket (ls ! i) = t" "\<not> rl_in_use (ls ! i) \<Longrightarrow> role_map ls t = None"
  proof -
    have c: "role_find t ls0 = Some i \<or> role_find t ls0 = None \<and> first_idx (\<lambda>x. \<not> rl_in_use x) ls = Some i"
      using i by (auto split: option.splits)
    show "i < length ls" using c old [of i] first_idx_SomeD [of _ ls i] by blast
    show "rl_ticket (ls ! i) = t" if "rl_in_use (ls ! i)"
      using c that old [of i] first_idx_SomeD [of "\<lambda>x. \<not> rl_in_use x" ls i] by blast
    show "role_map ls t = None" if "\<not> rl_in_use (ls ! i)" using c that old [of i] new by blast
  qed
  have e: "take 48 t = t" using ticket_ok_chars [OF t] by simp
  show "roles_wf (ls[i := \<lparr> rl_in_use = True, rl_ticket = take 48 t, rl_role = r \<rparr>])"
    and "role_map (ls[i := \<lparr> rl_in_use = True, rl_ticket = take 48 t, rl_role = r \<rparr>]) = (role_map ls)(t \<mapsto> r)"
    unfolding e by (rule role_map_put [OF wf i'(1) t i'(2,3) prim]; assumption)+
qed

lemma role_set_table_map:
  assumes wf: "roles_wf (cp_roles st)" and t: "virt_camera_ticket_ok t"
    and r: "role_set_table t what st = Some ls"
  shows "roles_wf ls \<and> role_map ls = set_map t what (role_map (role_base st))"
proof -
  let ?B = "role_base st"
  note B = roles_wf_base [OF wf]
  have u: "unique_keys rl_in_use rl_ticket ?B" using B by (simp add: roles_wf_def)
  have find: "k < length ?B \<and> rl_in_use (?B ! k) \<and> rl_ticket (?B ! k) = t" if "role_find t ?B = Some k" for k
    using role_find_SomeD [OF that] by blast
  consider (inherit) "what = ''inherit''" | (primary) "what = ''primary''"
    | (consumer) "what \<noteq> ''inherit''" "what \<noteq> ''primary''" by blast
  then show ?thesis
  proof cases
    case inherit
    show ?thesis
    proof (cases "role_find t ?B")
      case None
      then have "role_map ?B t = None" by (simp add: role_find_map)
      then show ?thesis using r None B inherit
        by (auto simp: role_set_table_def set_map_def role_base_def [symmetric] fun_upd_idem)
    next
      case (Some i)
      note k = find [OF Some]
      have "role_map (?B[i := zero_role]) = (role_map ?B)(t := None)"
        using k role_table.slot_of_release_map [OF u, of i] by (simp add: role_map_def fun_eq_iff)
      then show ?thesis using r Some roles_wf_clear [OF B, of i] inherit
        by (auto simp: role_set_table_def set_map_def role_base_def [symmetric])
    qed
  next
    case primary
    let ?L = "map (\<lambda>x. if rl_in_use x \<and> rl_role x = ROLE_PRIMARY \<and> rl_ticket x \<noteq> t then zero_role else x) ?B"
    obtain i where i: "(case role_find t ?B of Some i \<Rightarrow> Some i | None \<Rightarrow> first_idx (\<lambda>x. \<not> rl_in_use x) ?L) = Some i"
      "ls = ?L[i := \<lparr> rl_in_use = True, rl_ticket = take 48 t, rl_role = ROLE_PRIMARY \<rparr>]"
      using r primary by (auto simp: role_set_table_def role_base_def [symmetric] Let_def split: option.splits)
    have old: "k < length ?L \<and> rl_in_use (?L ! k) \<and> rl_ticket (?L ! k) = t" if "role_find t ?B = Some k" for k
      using find [OF that] by auto
    have new: "role_map ?L t = None" if "role_find t ?B = None"
      using that by (simp add: role_find_map role_map_prune_primary [OF B])
    have prim: "v = t" if "role_map ?L v = Some ROLE_PRIMARY" for v
      using that by (auto simp: role_map_prune_primary [OF B] split: if_splits)
    note p = role_set_put [OF roles_wf_prune [OF B] t old new prim i(1)]
    have "roles_wf ls \<and> role_map ls = (role_map ?L)(t \<mapsto> ROLE_PRIMARY)" unfolding i(2) using p by blast
    then show ?thesis using primary by (auto simp: set_map_def fun_eq_iff role_map_prune_primary [OF B])
  next
    case consumer
    obtain i where i: "(case role_find t ?B of Some i \<Rightarrow> Some i | None \<Rightarrow> first_idx (\<lambda>x. \<not> rl_in_use x) ?B) = Some i"
      "ls = ?B[i := \<lparr> rl_in_use = True, rl_ticket = take 48 t, rl_role = ROLE_CONSUMER \<rparr>]"
      using r consumer by (auto simp: role_set_table_def role_base_def [symmetric] Let_def split: option.splits)
    have "roles_wf ls \<and> role_map ls = (role_map ?B)(t \<mapsto> ROLE_CONSUMER)"
      unfolding i(2) using role_set_put [OF B t find _ _ i(1), of ROLE_CONSUMER] by (simp add: role_find_map)
    then show ?thesis using consumer by (simp add: set_map_def)
  qed
qed

section \<open>The store of roles\<close>

definition role_pairs :: "role_line list \<Rightarrow> (string \<times> virt_iav_role) list" where
  "role_pairs ls = map (\<lambda>l. (rl_ticket l, rl_role l)) (filter rl_in_use ls)"

definition role_pair_line :: "string \<times> virt_iav_role \<Rightarrow> string" where
  "role_pair_line = (\<lambda>(t, r). t @ sp # virt_iav_role_name r)"

lemma role_pairs_props:
  assumes "roles_wf ls"
  shows "distinct (map fst (role_pairs ls))" "length (role_pairs ls) \<le> 64"
    "\<And>t r. (t, r) \<in> set (role_pairs ls) \<Longrightarrow> virt_camera_ticket_ok t"
    "length (filter (\<lambda>(t, r). r = ROLE_PRIMARY) (role_pairs ls)) \<le> 1"
proof -
  show "distinct (map fst (role_pairs ls))"
    using assms by (simp add: role_pairs_def roles_wf_def unique_keys_def live_keys_def comp_def)
  show "length (role_pairs ls) \<le> 64" using assms length_filter_le [of rl_in_use ls] by (simp add: role_pairs_def roles_wf_def)
  show "virt_camera_ticket_ok t" if "(t, r) \<in> set (role_pairs ls)" for t r
    using that assms by (auto simp: role_pairs_def roles_wf_def list_all_iff)
  have "distinct (map (\<lambda>_. ()) (filter is_primary ls))"
    using assms by (simp add: roles_wf_def one_primary_def unique_keys_def live_keys_def)
  then have "length (filter is_primary ls) \<le> card (UNIV :: unit set)"
    by (metis distinct_card length_map card_mono finite subset_UNIV)
  moreover have "filter (\<lambda>(t, r). r = ROLE_PRIMARY) (role_pairs ls)
      = map (\<lambda>l. (rl_ticket l, rl_role l)) (filter is_primary ls)"
    by (simp add: role_pairs_def filter_map is_primary_def [abs_def] comp_def)
  ultimately show "length (filter (\<lambda>(t, r). r = ROLE_PRIMARY) (role_pairs ls)) \<le> 1" by simp
qed

lemma map_of_role_pairs: "roles_wf ls \<Longrightarrow> map_of (role_pairs ls) = role_map ls"
proof
  fix t
  assume wf: "roles_wf ls"
  show "map_of (role_pairs ls) t = role_map ls t"
  proof (rule option_iffI)
    fix r
    show "map_of (role_pairs ls) t = Some r \<longleftrightarrow> role_map ls t = Some r"
      using role_pairs_props(1) [OF wf]
      by (auto simp: role_map_iff [OF wf] role_pairs_def in_set_conv_nth image_iff dest!: map_of_SomeD)
  qed
qed

lemma role_lines_of_props:
  assumes "distinct (map fst ps)" "length ps \<le> 64" "\<And>t r. (t, r) \<in> set ps \<Longrightarrow> virt_camera_ticket_ok t"
    and "length (filter (\<lambda>(t, r). r = ROLE_PRIMARY) ps) \<le> 1"
  shows "roles_wf (role_lines_of ps)" and "role_pairs (role_lines_of ps) = ps"
proof -
  let ?f = "\<lambda>(t, r). \<lparr> rl_in_use = True, rl_ticket = t, rl_role = r \<rparr>"
  have used: "filter rl_in_use (role_lines_of ps) = map ?f ps"
    by (simp add: role_lines_of_def filter_False zero_role_def) (auto simp: filter_id_conv)
  have prim: "filter is_primary (role_lines_of ps) = map ?f (filter (\<lambda>(t, r). r = ROLE_PRIMARY) ps)"
    by (simp add: role_lines_of_def filter_False zero_role_def is_primary_def filter_map comp_def case_prod_unfold)
  show "role_pairs (role_lines_of ps) = ps" by (simp add: role_pairs_def used comp_def case_prod_unfold)
  have "unique_keys rl_in_use rl_ticket (role_lines_of ps)"
    using assms(1) by (simp add: unique_keys_def live_keys_def used comp_def case_prod_unfold)
  moreover have "one_primary (role_lines_of ps)"
    using assms(4) by (auto simp: one_primary_def unique_keys_def live_keys_def prim le_Suc_eq length_Suc_conv)
  moreover have "length (role_lines_of ps) = 64" using assms(2) by (simp add: role_lines_of_def)
  ultimately show "roles_wf (role_lines_of ps)"
    using assms(3) by (auto simp: roles_wf_def list_all_iff role_lines_of_def zero_role_def)
qed

lemma role_save_text:
  assumes "roles_wf (cp_roles st)"
  obtains buf where "role_save_locked st h = write_atomic (cp_role_store st) buf h" "read_store buf = Some buf"
    "parse_store role_parse_line [] (store_lines buf) = Some (role_pairs (cp_roles st))"
proof -
  let ?ps = "role_pairs (cp_roles st)"
  let ?ls = "map role_pair_line ?ps"
  note p = role_pairs_props [OF assms]
  have out: "map role_text (filter rl_in_use (cp_roles st)) = map (\<lambda>l. l @ [nl]) ?ls"
    by (simp add: role_pairs_def role_text_def role_pair_line_def)
  have "length l \<le> 57 \<and> nl \<notin> set l \<and> nul \<notin> set l" if l: "l \<in> set ?ls" for l
  proof -
    obtain t r where tr: "(t, r) \<in> set ?ps" "l = t @ sp # virt_iav_role_name r"
      using l by (auto simp: role_pair_line_def)
    then show ?thesis using ticket_ok_chars [OF p(3) [OF tr(1)]] by (cases r) (auto simp: virt_iav_role_name_def)
  qed
  then have "pack_lines 4096 [] (map (\<lambda>l. l @ [nl]) ?ls) = Some (lines_text ?ls)"
    "read_store (lines_text ?ls) = Some (lines_text ?ls)" "store_lines (lines_text ?ls) = ?ls"
    using p(2) by (intro store_text_roundtrip; simp)+
  moreover have "parse_store role_parse_line [] ?ls = Some ([] @ ?ps)"
    using p by (intro parse_store_print) (auto simp: role_pair_line_def role_parse_print)
  ultimately show ?thesis using that [of "lines_text ?ls"] out by (simp add: role_save_locked_def)
qed

text \<open>A restart reads back the table that was saved.\<close>

lemma role_load_saved:
  assumes wf: "roles_wf (cp_roles st)" and s: "role_save_locked st h = (h', 0)"
    and r: "\<not> unreadable h (cp_role_store st)" and st0: "cp_role_store st0 = cp_role_store st"
  shows "role_load_locked h' st0 = (ROLES_VALID, role_lines_of (role_pairs (cp_roles st)))"
proof -
  obtain buf where buf: "role_save_locked st h = write_atomic (cp_role_store st) buf h" "read_store buf = Some buf"
    "parse_store role_parse_line [] (store_lines buf) = Some (role_pairs (cp_roles st))"
    using role_save_text [OF wf] .
  then have "store_open (cp_role_store st) h' = Inr buf" using write_atomic_read s r by simp
  then show ?thesis using buf role_pairs_props(4) [OF wf] by (simp add: role_load_locked_def st0 not_less)
qed

lemma role_load_wf: "roles_wf (cp_roles (virt_iav_role_load h st))"
proof -
  obtain s ls where r: "role_load_locked h st = (s, ls)" by force
  consider "s = ROLES_INVALID" | "ls = replicate VIRT_CAMERA_MAX_ENTRIES zero_role"
    | ps buf where "parse_store role_parse_line [] (store_lines buf) = Some ps" "ls = role_lines_of ps"
        "length (filter (\<lambda>(t, r). r = ROLE_PRIMARY) ps) \<le> 1"
    using r by (auto simp: role_load_locked_def Let_def split: sum.splits option.splits if_splits)
  then show ?thesis
  proof cases
    case 1
    then show ?thesis using roles_wf_none by (simp add: virt_iav_role_load_def r)
  next
    case 2
    then show ?thesis using roles_wf_none by (simp add: virt_iav_role_load_def r)
  next
    case 3
    have "roles_wf ls"
      unfolding 3(2) using parse_store_SomeD [OF 3(1)] role_parse_ticket 3(3) by (intro role_lines_of_props) auto
    then show ?thesis using roles_wf_none by (simp add: virt_iav_role_load_def r)
  qed
qed

end
