(* ===== verification/Camera_Overrides.thy ===== *)
theory Camera_Overrides
  imports Camera_Roles
begin

text \<open>
  The camera entries as a function from tickets to overrides: what \<open>SET_CAMERA\<close>, a reserve's verdict and
  a load of the store do to it, the invariant of the table, and that a restart reads the overrides back.
\<close>

interpretation entry_table: keyed_slots ce_in_use ce_ticket zero_entry
  by unfold_locales (simp add: zero_entry_def)

definition entries_wf :: "camera_entry list \<Rightarrow> bool" where
  "entries_wf es \<longleftrightarrow> length es = VIRT_CAMERA_MAX_ENTRIES \<and> unique_keys ce_in_use ce_ticket es \<and>
     list_all (\<lambda>e. ce_in_use e \<longrightarrow> virt_camera_ticket_ok (ce_ticket e)) es"

definition override_of :: "camera_entry list \<Rightarrow> string \<Rightarrow> override" where
  "override_of es t = (case slot_of ce_in_use ce_ticket es t of None \<Rightarrow> OV_INHERIT | Some e \<Rightarrow> ce_override e)"

lemma entries_wf_none: "entries_wf (replicate VIRT_CAMERA_MAX_ENTRIES zero_entry)"
  by (simp add: entries_wf_def entry_table.reset_unique list_all_iff zero_entry_def unique_keys_def live_keys_replicate)

lemma override_of_none [simp]: "override_of (replicate n zero_entry) t = OV_INHERIT"
  using entry_table.slot_of_None [of "replicate n zero_entry" t]
  by (simp add: override_of_def live_keys_replicate zero_entry_def)

lemma put_entry:
  assumes "entries_wf es" "i < length es" "ce_in_use (es ! i)" "ce_in_use e" "ce_ticket e = ce_ticket (es ! i)"
  shows "entries_wf (es[i := e])" and "override_of (es[i := e]) = (override_of es)(ce_ticket e := ce_override e)"
proof -
  have u: "unique_keys ce_in_use ce_ticket es" using assms(1) by (simp add: entries_wf_def)
  have "virt_camera_ticket_ok (ce_ticket e)" using assms by (simp add: entries_wf_def list_all_length)
  then show "entries_wf (es[i := e])"
    using assms unique_keys_update_same [OF u assms(2), of e] by (auto simp: entries_wf_def intro: list_all_update)
  show "override_of (es[i := e]) = (override_of es)(ce_ticket e := ce_override e)"
    using entry_table.slot_of_replace [OF u assms(2-5)] by (simp add: override_of_def fun_eq_iff)
qed

lemma clear_entry:
  assumes "entries_wf es" "i < length es" "ce_in_use (es ! i)"
  shows "entries_wf (es[i := zero_entry])"
    and "override_of (es[i := zero_entry]) = (override_of es)(ce_ticket (es ! i) := OV_INHERIT)"
proof -
  have u: "unique_keys ce_in_use ce_ticket es" using assms(1) by (simp add: entries_wf_def)
  show "entries_wf (es[i := zero_entry])"
    using assms entry_table.release_unique [OF u, of i] list_all_update [of _ es zero_entry i]
    by (simp add: entries_wf_def) (simp add: zero_entry_def)
  show "override_of (es[i := zero_entry]) = (override_of es)(ce_ticket (es ! i) := OV_INHERIT)"
    using entry_table.slot_of_release_map [OF u assms(2,3)] by (simp add: override_of_def fun_eq_iff)
qed

lemma drop_entry:
  assumes "entries_wf es" "i < length es" "ce_in_use (es ! i)" "ce_in_use e" "ce_ticket e = ce_ticket (es ! i)"
  shows "entries_wf (es[i := drop_if_idle e])"
    and "override_of (es[i := drop_if_idle e]) = (override_of es)(ce_ticket e := ce_override e)"
  using put_entry [OF assms] clear_entry [OF assms(1-3)] assms(5)
  by (cases "ce_override e = OV_INHERIT \<and> \<not> ce_seen e"; simp add: drop_if_idle_def)+

lemma find_entry_SomeD:
  assumes "entries_wf es" "find_entry t es = Some i"
  shows "i < length es" "ce_in_use (es ! i)" "ce_ticket (es ! i) = t" "ce_override (es ! i) = override_of es t"
proof -
  show "i < length es" "ce_in_use (es ! i)" "ce_ticket (es ! i) = t"
    using first_idx_SomeD [OF assms(2) [unfolded find_entry_def]] by auto
  then show "ce_override (es ! i) = override_of es t"
    using entry_table.slot_of_live [of es i] assms(1) by (simp add: override_of_def entries_wf_def)
qed

lemma find_entry_None: "find_entry t es = None \<longleftrightarrow> slot_of ce_in_use ce_ticket es t = None"
  by (simp add: find_entry_def slot_of_def find_first_idx)

lemma find_entry_None_override: "find_entry t es = None \<Longrightarrow> override_of es t = OV_INHERIT"
  by (simp add: find_entry_None override_of_def)

text \<open>Finding or adding the entry of a ticket changes no override.\<close>

lemma find_or_add_Some:
  assumes wf: "entries_wf es" and t: "virt_camera_ticket_ok t" and r: "find_or_add t es = Some (i, es')"
  shows "entries_wf es'" "i < length es'" "ce_in_use (es' ! i)" "ce_ticket (es' ! i) = t"
    "ce_override (es' ! i) = override_of es t" "override_of es' = override_of es" "length es' = length es"
    "find_entry t es = None \<Longrightarrow> \<not> ce_seen (es' ! i)"
proof -
  have "entries_wf es' \<and> i < length es' \<and> ce_in_use (es' ! i) \<and> ce_ticket (es' ! i) = t \<and>
    ce_override (es' ! i) = override_of es t \<and> override_of es' = override_of es \<and> length es' = length es \<and>
    (find_entry t es = None \<longrightarrow> \<not> ce_seen (es' ! i))"
  proof (cases "find_entry t es")
    case (Some j)
    then show ?thesis using r find_entry_SomeD [OF wf Some] wf by (auto simp: find_or_add_def)
  next
    case None
    let ?e = "zero_entry\<lparr> ce_in_use := True, ce_ticket := t \<rparr>"
    have "snprintf 49 t = t" using ticket_ok_chars [OF t] by (simp add: snprintf_def)
    then have i: "first_idx (\<lambda>e. \<not> ce_in_use e) es = Some i" "es' = es[i := ?e]"
      using r None by (auto simp: find_or_add_def add_entry_def split: option.splits)
    have lt: "i < length es" "\<not> ce_in_use (es ! i)" using first_idx_SomeD [OF i(1)] by auto
    have u: "unique_keys ce_in_use ce_ticket es" using wf by (simp add: entries_wf_def)
    have none: "slot_of ce_in_use ce_ticket es (ce_ticket ?e) = None" using None by (simp add: find_entry_None)
    have "slot_of ce_in_use ce_ticket es' = (slot_of ce_in_use ce_ticket es)(t \<mapsto> ?e)"
      using entry_table.slot_of_claim [OF u lt _ none] by (simp add: i(2))
    then have ov: "override_of es' = override_of es"
      using find_entry_None_override [OF None] by (auto simp: override_of_def fun_eq_iff zero_entry_def)
    have "unique_keys ce_in_use ce_ticket es'" using entry_table.claim_unique [OF u i(1) none] by (simp add: i(2))
    moreover have "list_all (\<lambda>e. ce_in_use e \<longrightarrow> virt_camera_ticket_ok (ce_ticket e)) es'"
      using wf t unfolding i(2) by (intro list_all_update) (auto simp: entries_wf_def)
    ultimately show ?thesis
      using lt ov wf find_entry_None_override [OF None] by (simp add: i(2) entries_wf_def zero_entry_def)
  qed
  then show "entries_wf es'" "i < length es'" "ce_in_use (es' ! i)" "ce_ticket (es' ! i) = t"
    "ce_override (es' ! i) = override_of es t" "override_of es' = override_of es" "length es' = length es"
    "find_entry t es = None \<Longrightarrow> \<not> ce_seen (es' ! i)" by blast+
qed

lemma clear_overrides_props:
  assumes "entries_wf es"
  shows "entries_wf (clear_overrides es)" and "override_of (clear_overrides es) t = OV_INHERIT"
proof -
  let ?c = "\<lambda>e. if ce_in_use e then drop_if_idle (e\<lparr> ce_override := OV_INHERIT \<rparr>) else e"
  have c: "ce_in_use (?c e) \<Longrightarrow> ce_in_use e \<and> ce_ticket (?c e) = ce_ticket e \<and> ce_override (?c e) = OV_INHERIT" for e
    by (auto simp: drop_if_idle_def zero_entry_def split: if_splits)
  have "unique_keys ce_in_use ce_ticket (map ?c es)"
  proof (rule unique_keysI)
    fix i j
    assume "i < length (map ?c es)" "j < length (map ?c es)" "ce_in_use (map ?c es ! i)" "ce_in_use (map ?c es ! j)"
      "ce_ticket (map ?c es ! i) = ce_ticket (map ?c es ! j)"
    then show "i = j"
      using c [of "es ! i"] c [of "es ! j"] unique_keys_nth [of ce_in_use ce_ticket es i j] assms
      by (simp add: entries_wf_def)
  qed
  then show "entries_wf (clear_overrides es)"
    using assms by (auto simp: entries_wf_def clear_overrides_def list_all_iff drop_if_idle_def zero_entry_def split: if_splits)
  show "override_of (clear_overrides es) t = OV_INHERIT"
  proof (cases "slot_of ce_in_use ce_ticket (map ?c es) t")
    case (Some e)
    have "e \<in> ?c ` set es" and e: "ce_in_use e" using entry_table.slot_of_SomeD [OF Some] by (simp_all only: set_map)
    then obtain x where x: "e = ?c x" by (elim imageE)
    have "ce_override e = OV_INHERIT" using c [of x, folded x] e by blast
    then show ?thesis using Some by (simp add: override_of_def clear_overrides_def)
  qed (simp add: override_of_def clear_overrides_def)
qed

section \<open>The store of overrides\<close>

definition override_pairs :: "camera_entry list \<Rightarrow> (string \<times> override) list" where
  "override_pairs es = map (\<lambda>e. (ce_ticket e, ce_override e)) (filter (\<lambda>e. ce_in_use e \<and> ce_override e \<noteq> OV_INHERIT) es)"

definition override_pair_line :: "string \<times> override \<Rightarrow> string" where
  "override_pair_line = (\<lambda>(t, ov). t @ sp # (if ov = OV_ON then ''on'' else ''off''))"

lemma override_pairs_props:
  assumes "entries_wf es"
  shows "distinct (map fst (override_pairs es))" "length (override_pairs es) \<le> 64"
    "\<And>t ov. (t, ov) \<in> set (override_pairs es) \<Longrightarrow> virt_camera_ticket_ok t \<and> ov \<noteq> OV_INHERIT"
proof -
  let ?P = "\<lambda>e. ce_override e \<noteq> OV_INHERIT"
  have "distinct (map ce_ticket (filter ce_in_use es))" using assms by (simp add: entries_wf_def unique_keys_def live_keys_def)
  then have "distinct (map ce_ticket (filter ?P (filter ce_in_use es)))" by (rule distinct_map_filter)
  then show "distinct (map fst (override_pairs es))" by (simp add: override_pairs_def comp_def conj_commute)
  show "length (override_pairs es) \<le> 64"
    using assms length_filter_le [of "\<lambda>e. ce_in_use e \<and> ?P e" es] by (simp add: override_pairs_def entries_wf_def)
  show "virt_camera_ticket_ok t \<and> ov \<noteq> OV_INHERIT" if "(t, ov) \<in> set (override_pairs es)" for t ov
    using that assms by (auto simp: override_pairs_def entries_wf_def list_all_iff)
qed

definition map_override :: "(string \<times> override) list \<Rightarrow> string \<Rightarrow> override" where
  "map_override ps t = (case map_of ps t of None \<Rightarrow> OV_INHERIT | Some ov \<Rightarrow> ov)"

lemma map_override_pairs:
  assumes wf: "entries_wf es"
  shows "map_override (override_pairs es) t = override_of es t"
proof -
  note d = override_pairs_props(1) [OF wf]
  have u: "unique_keys ce_in_use ce_ticket es" using wf by (simp add: entries_wf_def)
  have iff: "map_of (override_pairs es) t = Some ov \<longleftrightarrow>
      (\<exists>e. slot_of ce_in_use ce_ticket es t = Some e \<and> ce_override e = ov \<and> ov \<noteq> OV_INHERIT)" for ov
    using d by (auto simp: entry_table.slot_of_iff [OF u] override_pairs_def in_set_conv_nth image_iff dest!: map_of_SomeD)
  show ?thesis
  proof (cases "override_of es t = OV_INHERIT")
    case True
    then have "map_of (override_pairs es) t = None"
    proof (cases "map_of (override_pairs es) t")
      case (Some a)
      then show ?thesis using iff [of a] True by (auto simp: override_of_def)
    qed
    then show ?thesis using True by (simp add: map_override_def)
  next
    case False
    then have "map_of (override_pairs es) t = Some (override_of es t)"
      using iff [of "override_of es t"] by (auto simp: override_of_def split: option.splits)
    then show ?thesis by (simp add: map_override_def)
  qed
qed

lemma save_text:
  assumes "entries_wf (cp_entries st)"
  obtains buf where "save_locked st h = write_atomic (cp_store st) buf h" "read_store buf = Some buf"
    "parse_store parse_line [] (store_lines buf) = Some (override_pairs (cp_entries st))"
proof -
  let ?ps = "override_pairs (cp_entries st)"
  let ?ls = "map override_pair_line ?ps"
  note p = override_pairs_props [OF assms]
  have out: "map override_line (filter (\<lambda>e. ce_in_use e \<and> ce_override e \<noteq> OV_INHERIT) (cp_entries st)) = map (\<lambda>l. l @ [nl]) ?ls"
    by (simp add: override_pairs_def override_line_def override_pair_line_def)
  have "length l \<le> 57 \<and> nl \<notin> set l \<and> nul \<notin> set l" if l: "l \<in> set ?ls" for l
  proof -
    obtain t ov where tr: "(t, ov) \<in> set ?ps" "l = t @ sp # (if ov = OV_ON then ''on'' else ''off'')"
      using l by (auto simp: override_pair_line_def)
    then show ?thesis using ticket_ok_chars [of t] p(3) [OF tr(1)] by auto
  qed
  then have "pack_lines 4096 [] (map (\<lambda>l. l @ [nl]) ?ls) = Some (lines_text ?ls)"
    "read_store (lines_text ?ls) = Some (lines_text ?ls)" "store_lines (lines_text ?ls) = ?ls"
    using p(2) by (intro store_text_roundtrip; simp)+
  moreover have "parse_store parse_line [] ?ls = Some ([] @ ?ps)"
    using p by (intro parse_store_print) (auto simp: override_pair_line_def parse_line_print)
  ultimately show ?thesis using that [of "lines_text ?ls"] out by (simp add: save_locked_def)
qed

text \<open>Applying a parsed store: it succeeds while the table has room, and sets exactly the listed overrides.\<close>

definition free_entries :: "camera_entry list \<Rightarrow> nat" where
  "free_entries es = length (filter (\<lambda>e. \<not> ce_in_use e) es)"

lemma free_entries_update:
  "i < length es \<Longrightarrow> free_entries (es[i := e]) + (if ce_in_use (es ! i) then 0 else 1)
     = free_entries es + (if ce_in_use e then 0 else 1)"
proof (induction es arbitrary: i)
  case (Cons x es)
  show ?case
  proof (cases i)
    case (Suc j)
    then show ?thesis using Cons.IH [of j] Cons.prems by (auto simp: free_entries_def)
  qed (simp add: free_entries_def)
qed simp

lemma find_or_add_room:
  assumes "0 < free_entries es"
  shows "\<exists>i es'. find_or_add t es = Some (i, es') \<and> free_entries es \<le> Suc (free_entries es')"
proof (cases "find_entry t es")
  case None
  have "first_idx (\<lambda>e. \<not> ce_in_use e) es \<noteq> None"
    using assms by (auto simp: first_idx_None free_entries_def filter_empty_conv)
  then obtain i where i: "first_idx (\<lambda>e. \<not> ce_in_use e) es = Some i" by blast
  let ?e = "zero_entry\<lparr> ce_in_use := True, ce_ticket := snprintf 49 t \<rparr>"
  have "free_entries es = Suc (free_entries (es[i := ?e]))"
    using free_entries_update [of i es ?e] first_idx_SomeD [OF i] by simp
  then show ?thesis using None i by (simp add: find_or_add_def add_entry_def)
qed (simp add: find_or_add_def)

lemma apply_overrides_room:
  assumes "entries_wf es" "distinct (map fst ps)" "length ps \<le> free_entries es"
    and "\<And>t ov. (t, ov) \<in> set ps \<Longrightarrow> virt_camera_ticket_ok t"
  shows "\<exists>es'. apply_overrides ps es = (es', 0) \<and> entries_wf es' \<and>
    override_of es' = (\<lambda>t. case map_of ps t of None \<Rightarrow> override_of es t | Some ov \<Rightarrow> ov)"
  using assms
proof (induction ps arbitrary: es)
  case (Cons p ps)
  obtain t ov where p: "p = (t, ov)" by force
  have t: "virt_camera_ticket_ok t" using Cons.prems(4) by (auto simp: p)
  obtain i es1 where r: "find_or_add t es = Some (i, es1)" "free_entries es \<le> Suc (free_entries es1)"
    using find_or_add_room [of es t] Cons.prems(3) by (auto simp: p)
  note f = find_or_add_Some [OF Cons.prems(1) t r(1)]
  let ?e = "(es1 ! i)\<lparr> ce_override := ov \<rparr>"
  have put: "entries_wf (es1[i := ?e])" "override_of (es1[i := ?e]) = (override_of es)(t := ov)"
    using put_entry [OF f(1-3), of ?e] f(3,4,6) by simp_all
  have "free_entries (es1[i := ?e]) = free_entries es1" using free_entries_update [OF f(2), of ?e] f(3) by simp
  then obtain es' where es': "apply_overrides ps (es1[i := ?e]) = (es', 0)" "entries_wf es'"
    "override_of es' = (\<lambda>t. case map_of ps t of None \<Rightarrow> override_of (es1[i := ?e]) t | Some ov \<Rightarrow> ov)"
    using Cons.IH [OF put(1)] Cons.prems(2,3,4) r(2) by (auto simp: p)
  have "map_of ps t = None" using Cons.prems(2) by (auto simp: p map_of_eq_None_iff)
  then show ?case using es' r(1) put(2) by (auto simp: p fun_eq_iff split: option.splits)
qed auto

lemma apply_overrides_wf:
  "entries_wf es \<Longrightarrow> (\<And>t ov. (t, ov) \<in> set ps \<Longrightarrow> virt_camera_ticket_ok t) \<Longrightarrow> apply_overrides ps es = (es', rc) \<Longrightarrow> entries_wf es'"
proof (induction ps arbitrary: es)
  case (Cons p ps)
  obtain t ov where p: "p = (t, ov)" by force
  have t: "virt_camera_ticket_ok t" using Cons.prems(2) by (auto simp: p)
  show ?case
  proof (cases "find_or_add t es")
    case None
    then show ?thesis using Cons.prems by (simp add: p)
  next
    case (Some q)
    obtain i es1 where r: "find_or_add t es = Some (i, es1)" using Some by (cases q) auto
    note f = find_or_add_Some [OF Cons.prems(1) t r]
    have "entries_wf (es1[i := (es1 ! i)\<lparr> ce_override := ov \<rparr>])"
      using put_entry(1) [OF f(1-3), of "(es1 ! i)\<lparr> ce_override := ov \<rparr>"] f(3) by simp
    then show ?thesis using Cons.IH Cons.prems(2,3) r by (auto simp: p)
  qed
qed simp

end
