(* ===== verification/Camera_Correct.thy ===== *)
theory Camera_Correct
  imports Camera_Overrides
begin

text \<open>
  The operations of the camera policy on its whole state: what \<open>SET_CAMERA\<close>, \<open>SET_ROLE\<close>, a verdict and the
  loads do, case by case, the invariant of the state, and that every operation keeps it.
\<close>

section \<open>Windows\<close>

definition windows_wf :: "camera_state \<Rightarrow> bool" where
  "windows_wf st \<longleftrightarrow> length (cp_present st) = IAV_MAX_WINDOWS \<and> length (cp_size st) = IAV_MAX_WINDOWS \<and>
     (\<forall>w < IAV_MAX_WINDOWS. cp_present st ! w \<longleftrightarrow> cp_size st ! w \<noteq> 0) \<and>
     (cp_windows_ready st \<longleftrightarrow> cp_present st ! WIN_DSP \<and> cp_present st ! WIN_BSB)"

definition windows_ok :: "bool list \<times> u64 list \<Rightarrow> bool" where
  "windows_ok ps \<longleftrightarrow> length (fst ps) = IAV_MAX_WINDOWS \<and> length (snd ps) = IAV_MAX_WINDOWS \<and>
     (\<forall>w < IAV_MAX_WINDOWS. fst ps ! w \<longleftrightarrow> snd ps ! w \<noteq> 0)"

lemma set_window_ok: "windows_ok ps \<Longrightarrow> windows_ok (set_window w ps)"
  by (auto simp: windows_ok_def set_window_def nth_list_update)

lemma set_windows_ok: "windows_ok ps \<Longrightarrow> windows_ok (foldl (\<lambda>ps w. set_window w ps) ps ws)"
  by (induction ws arbitrary: ps) (auto simp: set_window_ok)

lemma set_windows_wf: "windows_wf (virt_camera_policy_set_windows ws ready_ms st)"
proof -
  have "windows_ok (replicate IAV_MAX_WINDOWS False, replicate IAV_MAX_WINDOWS 0)"
    by (auto simp: windows_ok_def)
  then have ok: "windows_ok (foldl (\<lambda>ps w. set_window w ps) (replicate IAV_MAX_WINDOWS False, replicate IAV_MAX_WINDOWS 0) ws)"
    by (rule set_windows_ok)
  obtain p z where "foldl (\<lambda>ps w. set_window w ps) (replicate IAV_MAX_WINDOWS False, replicate IAV_MAX_WINDOWS 0) ws = (p, z)"
    by force
  then show ?thesis using ok by (simp add: windows_ok_def windows_wf_def virt_camera_policy_set_windows_def Let_def)
qed

section \<open>The invariant of the state\<close>

definition camera_wf :: "camera_state \<Rightarrow> bool" where
  "camera_wf st \<longleftrightarrow> entries_wf (cp_entries st) \<and> roles_wf (cp_roles st) \<and> windows_wf st"

lemma camera_wf_reset: "camera_wf virt_camera_policy_reset"
  using entries_wf_none roles_wf_none
  by (auto simp: camera_wf_def virt_camera_policy_reset_def windows_wf_def nth_Cons' less_Suc_eq numeral_eq_Suc)

lemma camera_wf_entries: "camera_wf st \<Longrightarrow> entries_wf es \<Longrightarrow> camera_wf (st\<lparr> cp_entries := es \<rparr>)"
  by (simp add: camera_wf_def windows_wf_def)

lemma camera_wf_roles: "camera_wf st \<Longrightarrow> roles_wf ls \<Longrightarrow> camera_wf (st\<lparr> cp_roles := ls, cp_roles_state := s \<rparr>)"
  by (simp add: camera_wf_def windows_wf_def)

section \<open>The stores and the state\<close>

text \<open>The overrides and the roles a restarted server reads from the files.\<close>

definition loaded_overrides :: "host \<Rightarrow> string \<Rightarrow> string \<Rightarrow> override" where
  "loaded_overrides h path =
     override_of (cp_entries (virt_camera_policy_load h (virt_camera_policy_reset\<lparr> cp_store := path \<rparr>)))"

definition loaded_role :: "host \<Rightarrow> string \<Rightarrow> string \<Rightarrow> virt_iav_role" where
  "loaded_role h path t = virt_iav_role_of t (virt_iav_role_load h (virt_camera_policy_reset\<lparr> cp_role_store := path \<rparr>))"

lemma clear_overrides_none: "clear_overrides (replicate n zero_entry) = replicate n zero_entry"
  by (simp add: clear_overrides_def zero_entry_def)

lemma loaded_overrides_cong: "store_open path h' = store_open path h \<Longrightarrow> loaded_overrides h' path = loaded_overrides h path"
  by (simp add: loaded_overrides_def virt_camera_policy_load_def load_locked_def)

lemma loaded_role_cong: "store_open path h' = store_open path h \<Longrightarrow> loaded_role h' path = loaded_role h path"
  by (simp add: fun_eq_iff loaded_role_def virt_iav_role_load_def role_load_locked_def)

lemma loaded_overrides_saved:
  assumes wf: "entries_wf (cp_entries st)" and s: "save_locked st h = (h', 0)" and r: "\<not> unreadable h (cp_store st)"
  shows "loaded_overrides h' (cp_store st) = override_of (cp_entries st)"
proof -
  let ?ps = "override_pairs (cp_entries st)" and ?z = "replicate VIRT_CAMERA_MAX_ENTRIES zero_entry"
  obtain buf where buf: "save_locked st h = write_atomic (cp_store st) buf h" "read_store buf = Some buf"
    "parse_store parse_line [] (store_lines buf) = Some ?ps" using save_text [OF wf] .
  then have o: "store_open (cp_store st) h' = Inr buf" using write_atomic_read s r by simp
  note p = override_pairs_props [OF wf]
  have "length ?ps \<le> free_entries ?z" using p(2) by (simp add: free_entries_def zero_entry_def)
  then obtain es where es: "apply_overrides ?ps ?z = (es, 0)"
    "override_of es = (\<lambda>t. case map_of ?ps t of None \<Rightarrow> override_of ?z t | Some ov \<Rightarrow> ov)"
    using apply_overrides_room [OF entries_wf_none p(1)] p(3) by blast
  have "override_of es = override_of (cp_entries st)"
    using es(2) [unfolded override_of_none] map_override_pairs [OF wf] by (simp add: map_override_def fun_eq_iff)
  then show ?thesis
    using o buf(2,3) es(1)
    by (simp add: loaded_overrides_def virt_camera_policy_load_def load_locked_def virt_camera_policy_reset_def
        clear_overrides_none)
qed

lemma loaded_role_saved:
  assumes wf: "roles_wf (cp_roles st)" and s: "role_save_locked st h = (h', 0)" and r: "\<not> unreadable h (cp_role_store st)"
    and v: "cp_roles_state st \<noteq> ROLES_INVALID"
  shows "loaded_role h' (cp_role_store st) t = virt_iav_role_of t st"
proof -
  let ?st0 = "virt_camera_policy_reset\<lparr> cp_role_store := cp_role_store st \<rparr>"
  let ?ps = "role_pairs (cp_roles st)"
  have l: "role_load_locked h' ?st0 = (ROLES_VALID, role_lines_of ?ps)"
    by (rule role_load_saved [OF wf s r]) simp
  note p = role_pairs_props [OF wf]
  note q = role_lines_of_props [OF p]
  have "role_map (role_lines_of ?ps) = role_map (cp_roles st)"
    using map_of_role_pairs [OF q(1)] map_of_role_pairs [OF wf] by (simp add: q(2))
  then show ?thesis
    using q(1) wf v by (simp add: loaded_role_def role_of_map virt_iav_role_load_def l)
qed

section \<open>SET_CAMERA\<close>

lemma save_failed:
  assumes "save_locked st h = (h', rc)" "rc \<noteq> 0"
  shows "files h' (cp_store st) = files h (cp_store st)" "unreadable h' = unreadable h"
  using assms write_atomic_failed [of "cp_store st" _ h h' rc]
  by (auto simp: save_locked_def split: option.splits)

lemma role_save_failed:
  assumes "role_save_locked st h = (h', rc)" "rc \<noteq> 0"
  shows "files h' (cp_role_store st) = files h (cp_role_store st)" "unreadable h' = unreadable h"
  using assms write_atomic_failed [of "cp_role_store st" _ h h' rc]
  by (auto simp: role_save_locked_def split: option.splits)

lemma store_open_cong:
  "files h' p = files h p \<Longrightarrow> unreadable h' = unreadable h \<Longrightarrow> store_open p h' = store_open p h"
  by (simp add: store_open_def)

lemma set_camera_cases:
  assumes wf: "camera_wf st" and t: "virt_camera_ticket_ok t"
  obtains (stored) es h' where "set_camera t ov n st h = (st\<lparr> cp_entries := es \<rparr>, h', snprintf n (''OK'' @ [nl]))"
      "entries_wf es" "override_of es = (override_of (cp_entries st))(t := ov)"
      "\<not> unreadable h (cp_store st) \<Longrightarrow> loaded_overrides h (cp_store st) = override_of (cp_entries st) \<Longrightarrow>
         loaded_overrides h' (cp_store st) = override_of es"
  | (refused) es h' where "set_camera t ov n st h = (st\<lparr> cp_entries := es \<rparr>, h', snprintf n (ERR ''PERSIST''))"
      "entries_wf es" "override_of es = override_of (cp_entries st)"
      "store_open (cp_store st) h' = store_open (cp_store st) h"
proof (cases "find_entry t (cp_entries st) = None \<and> ov = OV_INHERIT")
  case True
  then have "override_of (cp_entries st) = (override_of (cp_entries st))(t := ov)"
    using find_entry_None_override by (simp add: fun_upd_idem)
  then show ?thesis using True stored [of "cp_entries st" h] wf by (simp add: set_camera_def camera_wf_def)
next
  case False
  have ewf: "entries_wf (cp_entries st)" using wf by (simp add: camera_wf_def)
  show ?thesis
  proof (cases "find_or_add t (cp_entries st)")
    case None
    then have "ov \<noteq> OV_INHERIT" using False by (auto simp: find_or_add_def split: option.splits)
    then show ?thesis using None False refused [of "cp_entries st" h] ewf by (simp add: set_camera_def)
  next
    case (Some q)
    obtain i es where r: "find_or_add t (cp_entries st) = Some (i, es)" using Some by (cases q) auto
    note f = find_or_add_Some [OF ewf t r]
    let ?e = "(es ! i)\<lparr> ce_override := ov \<rparr>"
    obtain h' rc where s: "save_locked (st\<lparr> cp_entries := es[i := ?e] \<rparr>) h = (h', rc)" by force
    note put = put_entry [OF f(1-3), of ?e] and drp = drop_entry [OF f(1-3), of ?e]
      and bck = drop_entry [OF f(1-3), of "?e\<lparr> ce_override := ce_override (es ! i) \<rparr>"]
    show ?thesis
    proof (cases "rc = 0")
      case True
      have "loaded_overrides h' (cp_store st) = override_of (es[i := drop_if_idle ?e])" if "\<not> unreadable h (cp_store st)"
        using loaded_overrides_saved [OF _ s [unfolded True]] that put drp f(3,4) by simp
      then show ?thesis
        using stored [of "es[i := drop_if_idle ?e]" h'] False r s True drp f(3,4,6) by (auto simp: set_camera_def Let_def)
    next
      case rc: False
      have "override_of (es[i := drop_if_idle (?e\<lparr> ce_override := ce_override (es ! i) \<rparr>)]) = override_of (cp_entries st)"
        using bck(2) f(3-6) by (simp add: fun_upd_idem)
      moreover have "store_open (cp_store st) h' = store_open (cp_store st) h"
        using save_failed [OF s rc] by (intro store_open_cong) simp_all
      ultimately show ?thesis
        using refused [of "es[i := drop_if_idle (?e\<lparr> ce_override := ce_override (es ! i) \<rparr>)]" h'] bck(1) False r s rc f(3,4)
        by (auto simp: set_camera_def Let_def)
    qed
  qed
qed

section \<open>SET_ROLE\<close>

lemma role_set_cases:
  assumes wf: "camera_wf st" and t: "virt_camera_ticket_ok t"
  obtains (stored) ls h' where
      "role_set t what n st h = (st\<lparr> cp_roles := ls, cp_roles_state := ROLES_VALID \<rparr>, h', snprintf n (''OK'' @ [nl]))"
      "roles_wf ls" "role_map ls = set_map t what (role_map (role_base st))"
      "\<not> unreadable h (cp_role_store st) \<Longrightarrow>
         \<forall>u. loaded_role h' (cp_role_store st) u = virt_iav_role_of u (st\<lparr> cp_roles := ls, cp_roles_state := ROLES_VALID \<rparr>)"
  | (refused) h' where "role_set t what n st h = (st, h', snprintf n (ERR ''PERSIST''))"
      "store_open (cp_role_store st) h' = store_open (cp_role_store st) h"
proof (cases "role_set_table t what st")
  case None
  then show ?thesis using refused [of h] by (simp add: role_set_def)
next
  case (Some ls)
  have l: "roles_wf ls" "role_map ls = set_map t what (role_map (role_base st))"
    using role_set_table_map [OF _ t Some] wf by (simp_all add: camera_wf_def)
  obtain h' rc where s: "role_save_locked (st\<lparr> cp_roles := ls \<rparr>) h = (h', rc)" by force
  show ?thesis
  proof (cases "rc = 0")
    case True
    let ?st = "st\<lparr> cp_roles := ls, cp_roles_state := ROLES_VALID \<rparr>"
    have "role_save_locked ?st h = (h', 0)" using s True by (auto simp: role_save_locked_def split: option.splits)
    then have "\<forall>u. loaded_role h' (cp_role_store st) u = virt_iav_role_of u ?st" if "\<not> unreadable h (cp_role_store st)"
      using loaded_role_saved [of ?st h h'] l(1) that by simp
    then show ?thesis using stored [of ls h'] l Some s True by (simp add: role_set_def)
  next
    case False
    then have "store_open (cp_role_store st) h' = store_open (cp_role_store st) h"
      using role_save_failed [OF s] by (intro store_open_cong) simp_all
    then show ?thesis using refused [of h'] Some s False by (simp add: role_set_def)
  qed
qed

section \<open>Verdicts and loads\<close>

lemma decide_result:
  assumes wf: "camera_wf st" and t: "virt_camera_ticket_ok t"
    and r: "virt_camera_policy_decide t intent primary st = (st', rc, v)"
  shows "rc = 0" and "camera_wf st'" and "override_of (cp_entries st') = override_of (cp_entries st)"
    and "vd_camera v \<longleftrightarrow> cp_windows_ready st \<and> camera_on (override_of (cp_entries st) t) intent"
    and "cp_roles st' = cp_roles st" "cp_roles_state st' = cp_roles_state st"
proof -
  have ewf: "entries_wf (cp_entries st)" using wf by (simp add: camera_wf_def)
  have "rc = 0 \<and> camera_wf st' \<and> override_of (cp_entries st') = override_of (cp_entries st) \<and>
    (vd_camera v \<longleftrightarrow> cp_windows_ready st \<and> camera_on (override_of (cp_entries st) t) intent) \<and>
    cp_roles st' = cp_roles st \<and> cp_roles_state st' = cp_roles_state st"
  proof (cases "find_or_add t (cp_entries st)")
    case None
    then have "override_of (cp_entries st) t = OV_INHERIT"
      by (auto simp: find_or_add_def find_entry_None_override split: option.splits)
    then show ?thesis using r t None wf by (auto simp: virt_camera_policy_decide_def zero_verdict_def Let_def split: if_splits)
  next
    case (Some q)
    obtain i es where q: "find_or_add t (cp_entries st) = Some (i, es)" using Some by (cases q) auto
    note f = find_or_add_Some [OF ewf t q]
    let ?e = "(es ! i)\<lparr> ce_seen := True, ce_last := intent \<rparr>"
    have st': "st' = st\<lparr> cp_entries := es[i := ?e] \<rparr>" "rc = 0"
      "vd_camera v \<longleftrightarrow> cp_windows_ready st \<and> camera_on (ce_override (es ! i)) intent"
      using r t q by (auto simp: virt_camera_policy_decide_def zero_verdict_def Let_def split: if_splits)
    have "entries_wf (es[i := ?e])" "override_of (es[i := ?e]) = override_of (cp_entries st)"
      using put_entry [OF f(1-3), of ?e] f(3-6) by (simp_all add: fun_upd_idem)
    then show ?thesis using st' f(5) camera_wf_entries [OF wf] by simp
  qed
  then show "rc = 0" and "camera_wf st'" and "override_of (cp_entries st') = override_of (cp_entries st)"
    and "vd_camera v \<longleftrightarrow> cp_windows_ready st \<and> camera_on (override_of (cp_entries st) t) intent"
    and "cp_roles st' = cp_roles st" "cp_roles_state st' = cp_roles_state st" by blast+
qed

lemma decide_sizes:
  assumes wf: "camera_wf st" and r: "virt_camera_policy_decide t intent primary st = (st', rc, v)"
  shows "vd_camera v \<Longrightarrow> vd_dsp v = cp_size st ! WIN_DSP \<and> vd_bsb v = cp_size st ! WIN_BSB \<and> vd_dsp v \<noteq> 0 \<and> vd_bsb v \<noteq> 0"
    and "\<not> vd_camera v \<Longrightarrow> v = zero_verdict"
    and "\<not> primary \<Longrightarrow> vd_dec v = 0 \<and> vd_ovl v = 0"
    and "vd_camera v \<Longrightarrow> primary \<Longrightarrow> vd_dec v = cp_size st ! WIN_DEC \<and> vd_ovl v = cp_size st ! WIN_OVL"
  using assms
  by (auto simp: virt_camera_policy_decide_def zero_verdict_def camera_wf_def windows_wf_def Let_def
      split: if_splits option.splits prod.splits)

lemma load_wf:
  assumes wf: "camera_wf st"
  shows "camera_wf (virt_camera_policy_load h st)"
proof -
  have ewf: "entries_wf (cp_entries st)" using wf by (simp add: camera_wf_def)
  note c = clear_overrides_props(1) [OF ewf]
  obtain st1 rc where r: "load_locked h st = (st1, rc)" by force
  have "\<exists>es. entries_wf es \<and> st1 = st\<lparr> cp_entries := es \<rparr>"
  proof -
    consider "st1 = st\<lparr> cp_entries := clear_overrides (cp_entries st) \<rparr>"
      | buf ps es where "parse_store parse_line [] (store_lines buf) = Some ps"
        "apply_overrides ps (clear_overrides (cp_entries st)) = (es, rc)" "st1 = st\<lparr> cp_entries := es \<rparr>"
      using r by (auto simp: load_locked_def Let_def split: sum.splits option.splits prod.splits)
    then show ?thesis
    proof cases
      case 1
      then show ?thesis using c by blast
    next
      case 2
      have "virt_camera_ticket_ok t" if "(t, ov) \<in> set ps" for t ov
        using that parse_store_SomeD [OF 2(1)] parse_line_ticket by auto
      then have "entries_wf es" using apply_overrides_wf [OF c _ 2(2)] by blast
      then show ?thesis using 2(3) by blast
    qed
  qed
  then show ?thesis
    using camera_wf_entries [OF wf] clear_overrides_props(1)
    by (auto simp: virt_camera_policy_load_def r)
qed

end
