(* ===== verification/Slice_Lease_Correct.thy ===== *)
theory Slice_Lease_Correct
  imports Slice_Lease Camera_Correct
begin

text \<open>
  The table of slice leases: its invariant (no UUID and no index leased twice, every lease inside the
  configured geometry), what reserve, release and the verdict of a reserve do to it case by case, and that
  every operation keeps the invariant.
\<close>

interpretation uuid_table: keyed_slots ls_in_use ls_uuid zero_slot
  by unfold_locales (simp add: zero_slot_def)

interpretation slice_table: keyed_slots ls_in_use ls_index zero_slot
  by unfold_locales (simp add: zero_slot_def)

section \<open>The invariant\<close>

definition slot_ok :: "lease_slot \<Rightarrow> bool" where
  "slot_ok s \<longleftrightarrow> (if ls_in_use s
     then uuid_ok (ls_uuid s) \<and> ls_epoch s \<noteq> 0 \<and> ls_bytes s \<noteq> 0 \<and>
       (if ls_ticket s = [] then \<not> ls_primary s else virt_camera_ticket_ok (ls_ticket s))
     else s = zero_slot)"

definition in_geometry :: "lease_state \<Rightarrow> lease_slot \<Rightarrow> bool" where
  "in_geometry st s \<longleftrightarrow> ls_in_use s \<longrightarrow> ls_index s < sl_count st \<and> ls_bytes s = sl_slice_bytes st"

definition geometry_ok :: "lease_state \<Rightarrow> bool" where
  "geometry_ok st \<longleftrightarrow> sl_matched st \<longrightarrow>
     1 \<le> sl_count st \<and> unat (sl_count st) \<le> LEASE_MAX \<and> sl_slice_bytes st \<noteq> 0 \<and> sl_slice_bytes st mod 4096 = 0 \<and>
     list_all (in_geometry st) (sl_slots st)"

definition lease_wf :: "lease_state \<Rightarrow> bool" where
  "lease_wf st \<longleftrightarrow> length (sl_slots st) = LEASE_MAX \<and> unique_keys ls_in_use ls_uuid (sl_slots st) \<and>
     unique_keys ls_in_use ls_index (sl_slots st) \<and> list_all slot_ok (sl_slots st) \<and> geometry_ok st"

definition lease_map :: "lease_state \<Rightarrow> string \<rightharpoonup> lease_slot" where
  "lease_map st = slot_of ls_in_use ls_uuid (sl_slots st)"

lemma lease_wf_cong:
  "sl_slots st' = sl_slots st \<Longrightarrow> sl_matched st' = sl_matched st \<Longrightarrow> sl_count st' = sl_count st \<Longrightarrow>
   sl_slice_bytes st' = sl_slice_bytes st \<Longrightarrow> lease_wf st' = lease_wf st"
  by (simp add: lease_wf_def geometry_ok_def in_geometry_def [abs_def])

lemma slot_ok_zero [simp]: "slot_ok zero_slot"
  by (simp add: slot_ok_def zero_slot_def)

lemma zero_slot_free [simp]: "\<not> ls_in_use zero_slot"
  by (rule uuid_table.nil_free)

lemma in_geometry_free [simp]: "\<not> ls_in_use s \<Longrightarrow> in_geometry st s"
  by (simp add: in_geometry_def)

lemma in_geometry_slots [simp]: "in_geometry (st\<lparr> sl_slots := ss \<rparr>) = in_geometry st"
  by (simp add: in_geometry_def [abs_def])

lemma lease_wf_reset: "lease_wf (virt_slice_lease_reset st)"
  by (simp add: lease_wf_def virt_slice_lease_reset_def geometry_ok_def list_all_iff uuid_table.reset_unique
      slice_table.reset_unique)

lemma lease_wf_slots:
  assumes "lease_wf st" "length ss = LEASE_MAX" "unique_keys ls_in_use ls_uuid ss" "unique_keys ls_in_use ls_index ss"
    and "list_all slot_ok ss" "sl_matched st \<Longrightarrow> list_all (in_geometry st) ss"
  shows "lease_wf (st\<lparr> sl_slots := ss \<rparr>)"
  using assms by (simp add: lease_wf_def geometry_ok_def)

lemma lease_clear:
  assumes "lease_wf st"
  shows "lease_wf (st\<lparr> sl_slots := (sl_slots st)[i := zero_slot] \<rparr>)"
  using assms
  by (intro lease_wf_slots [OF assms] uuid_table.release_unique slice_table.release_unique list_all_update)
    (simp_all add: lease_wf_def geometry_ok_def)

text \<open>A slot rewritten for the same UUID and index, as the verdict of a reserve does.\<close>

lemma lease_rewrite:
  assumes wf: "lease_wf st" and i: "i < length (sl_slots st)" "ls_in_use (sl_slots st ! i)"
    and x: "slot_ok x" "ls_in_use x" "ls_uuid x = ls_uuid (sl_slots st ! i)" "ls_index x = ls_index (sl_slots st ! i)"
      "ls_bytes x = ls_bytes (sl_slots st ! i)"
  shows "lease_wf (st\<lparr> sl_slots := (sl_slots st)[i := x] \<rparr>)"
    and "lease_map (st\<lparr> sl_slots := (sl_slots st)[i := x] \<rparr>) = (lease_map st)(ls_uuid x \<mapsto> x)"
proof -
  have u: "unique_keys ls_in_use ls_uuid (sl_slots st)" and k: "unique_keys ls_in_use ls_index (sl_slots st)"
    using wf by (simp_all add: lease_wf_def)
  have g: "in_geometry st x" if "sl_matched st"
    using wf that i x by (simp add: lease_wf_def geometry_ok_def list_all_length in_geometry_def)
  show "lease_wf (st\<lparr> sl_slots := (sl_slots st)[i := x] \<rparr>)"
  proof (rule lease_wf_slots [OF wf])
    show "unique_keys ls_in_use ls_uuid ((sl_slots st)[i := x])" "unique_keys ls_in_use ls_index ((sl_slots st)[i := x])"
      using i x by (auto intro!: unique_keys_update_same u k)
    show "list_all slot_ok ((sl_slots st)[i := x])" using wf x(1) by (intro list_all_update) (simp_all add: lease_wf_def)
    show "list_all (in_geometry st) ((sl_slots st)[i := x])" if "sl_matched st"
      using wf g [OF that] that by (intro list_all_update) (simp_all add: lease_wf_def geometry_ok_def)
  qed (use wf in \<open>simp add: lease_wf_def\<close>)
  show "lease_map (st\<lparr> sl_slots := (sl_slots st)[i := x] \<rparr>) = (lease_map st)(ls_uuid x \<mapsto> x)"
    using uuid_table.slot_of_replace [OF u i x(2,3)] by (simp add: lease_map_def)
qed

text \<open>A free slot taken for a new UUID and a free index.\<close>

lemma index_taken_live: "index_taken_sl k ss \<longleftrightarrow> k \<in> set (live_keys ls_in_use ls_index ss)"
  by (auto simp: index_taken_sl_def list_ex_iff set_live_keys)

lemma find_uuid_None: "find_uuid_sl u ss = None \<longleftrightarrow> slot_of ls_in_use ls_uuid ss u = None"
  by (simp add: find_uuid_sl_def slot_of_def find_first_idx)

lemma find_uuid_SomeD:
  assumes "find_uuid_sl u ss = Some i"
  shows "i < length ss" "ls_in_use (ss ! i)" "ls_uuid (ss ! i) = u" "slot_of ls_in_use ls_uuid ss u = Some (ss ! i)"
  using first_idx_SomeD [OF assms [unfolded find_uuid_sl_def]] assms
  by (auto simp: slot_of_def find_first_idx find_uuid_sl_def)

lemma lease_claim:
  assumes wf: "lease_wf st" and i: "first_idx (\<lambda>s. \<not> ls_in_use s) (sl_slots st) = Some i"
    and x: "slot_ok x" "ls_in_use x" "sl_matched st \<Longrightarrow> in_geometry st x"
    and fresh: "find_uuid_sl (ls_uuid x) (sl_slots st) = None" "\<not> index_taken_sl (ls_index x) (sl_slots st)"
  shows "lease_wf (st\<lparr> sl_slots := (sl_slots st)[i := x] \<rparr>)"
    and "lease_map (st\<lparr> sl_slots := (sl_slots st)[i := x] \<rparr>) = (lease_map st)(ls_uuid x \<mapsto> x)"
    and "sl_slots st ! i = zero_slot" "i < length (sl_slots st)"
proof -
  have u: "unique_keys ls_in_use ls_uuid (sl_slots st)" and k: "unique_keys ls_in_use ls_index (sl_slots st)"
    using wf by (simp_all add: lease_wf_def)
  have lt: "i < length (sl_slots st)" "\<not> ls_in_use (sl_slots st ! i)" using first_idx_SomeD [OF i] by auto
  show "i < length (sl_slots st)" by (rule lt(1))
  show "sl_slots st ! i = zero_slot" using wf lt by (simp add: lease_wf_def list_all_length slot_ok_def)
  have s: "slot_of ls_in_use ls_uuid (sl_slots st) (ls_uuid x) = None" using fresh(1) by (simp add: find_uuid_None)
  have n: "slot_of ls_in_use ls_index (sl_slots st) (ls_index x) = None"
    using fresh(2) by (simp add: slice_table.slot_of_None index_taken_live)
  show "lease_wf (st\<lparr> sl_slots := (sl_slots st)[i := x] \<rparr>)"
  proof (rule lease_wf_slots [OF wf])
    show "unique_keys ls_in_use ls_uuid ((sl_slots st)[i := x])" by (rule uuid_table.claim_unique [OF u i s])
    show "unique_keys ls_in_use ls_index ((sl_slots st)[i := x])" by (rule slice_table.claim_unique [OF k i n])
    show "list_all slot_ok ((sl_slots st)[i := x])" using wf x(1) by (intro list_all_update) (simp_all add: lease_wf_def)
    show "list_all (in_geometry st) ((sl_slots st)[i := x])" if "sl_matched st"
      using wf x(3) [OF that] that by (intro list_all_update) (simp_all add: lease_wf_def geometry_ok_def)
  qed (use wf in \<open>simp add: lease_wf_def\<close>)
  show "lease_map (st\<lparr> sl_slots := (sl_slots st)[i := x] \<rparr>) = (lease_map st)(ls_uuid x \<mapsto> x)"
    using uuid_table.slot_of_claim [OF u lt x(2) s] by (simp add: lease_map_def)
qed

section \<open>Choosing an index\<close>

lemma of_nat_u32: "n < unat (k :: u32) \<Longrightarrow> unat (of_nat n :: u32) = n"
  using unat_u32_less [of k] by (simp add: unat_of_nat take_bit_nat_eq_self)

lemma pick_index_Some:
  assumes "pick_index m exact st = Some k"
  shows "k < sl_count st" "\<not> index_taken_sl k (sl_slots st)" "exact \<Longrightarrow> k = m" "m \<le> k"
    "\<And>j. \<not> exact \<Longrightarrow> m \<le> j \<Longrightarrow> j < k \<Longrightarrow> index_taken_sl j (sl_slots st)"
proof -
  have "k < sl_count st \<and> \<not> index_taken_sl k (sl_slots st) \<and> (exact \<longrightarrow> k = m) \<and> m \<le> k \<and>
    (\<not> exact \<longrightarrow> (\<forall>j. m \<le> j \<longrightarrow> j < k \<longrightarrow> index_taken_sl j (sl_slots st)))"
  proof (cases exact)
    case True
    then show ?thesis using assms by (auto simp: pick_index_def split: if_splits)
  next
    case False
    let ?P = "\<lambda>i. \<not> index_taken_sl (of_nat i) (sl_slots st)" and ?xs = "[unat m..<unat (sl_count st)]"
    obtain n where n: "find ?P ?xs = Some n" "k = of_nat n" using assms False by (auto simp: pick_index_def)
    obtain p where p: "p < length ?xs" "?P (?xs ! p)" "n = ?xs ! p" "\<And>q. q < p \<Longrightarrow> \<not> ?P (?xs ! q)"
      using n(1) unfolding find_Some_iff by blast
    then have r: "unat m \<le> n" "n < unat (sl_count st)" by auto
    have kn: "unat k = n" using n(2) r(2) of_nat_u32 by blast
    have "index_taken_sl j (sl_slots st)" if "m \<le> j" "j < k" for j
    proof -
      have j: "unat m \<le> unat j" "unat j < n" using that kn by (simp_all add: word_le_nat_alt word_less_nat_alt)
      then have "?xs ! (unat j - unat m) = unat j" using r by simp
      moreover have "unat j - unat m < p" using p(1,3) j r by auto
      ultimately show ?thesis using p(4) [of "unat j - unat m"] by simp
    qed
    then show ?thesis using False p(2,3) n(2) r kn by (auto simp: word_le_nat_alt word_less_nat_alt)
  qed
  then show "k < sl_count st" "\<not> index_taken_sl k (sl_slots st)" "exact \<Longrightarrow> k = m" "m \<le> k"
    "\<And>j. \<not> exact \<Longrightarrow> m \<le> j \<Longrightarrow> j < k \<Longrightarrow> index_taken_sl j (sl_slots st)" by blast+
qed

lemma pick_index_None:
  assumes "pick_index m exact st = None"
  shows "if exact then m \<ge> sl_count st \<or> index_taken_sl m (sl_slots st)
    else \<forall>j. m \<le> j \<longrightarrow> j < sl_count st \<longrightarrow> index_taken_sl j (sl_slots st)"
proof (cases exact)
  case True
  then show ?thesis using assms by (auto simp: pick_index_def split: if_splits)
next
  case False
  then have none: "\<forall>i. unat m \<le> i \<longrightarrow> i < unat (sl_count st) \<longrightarrow> index_taken_sl (of_nat i) (sl_slots st)"
    using assms by (auto simp: pick_index_def find_None_iff)
  have id: "(of_nat (unat j) :: u32) = j" for j :: u32
    by (simp add: word_unat_eq_iff of_nat_u32 [where k = "- 1"] unat_of_nat take_bit_nat_eq_self unat_u32_less [simplified])
  have "index_taken_sl j (sl_slots st)" if "m \<le> j" "j < sl_count st" for j
    using none [rule_format, of "unat j"] that unfolding id by (simp add: word_le_nat_alt word_less_nat_alt)
  then show ?thesis using False by simp
qed

text \<open>When every slot is taken, so is every index: the table has as many slots as the largest geometry.\<close>

lemma full_table_taken:
  assumes wf: "lease_wf st" "sl_matched st" and full: "first_idx (\<lambda>s. \<not> ls_in_use s) (sl_slots st) = None"
  shows "pick_index m exact st = None"
proof (rule ccontr)
  assume "pick_index m exact st \<noteq> None"
  then obtain k where k: "k < sl_count st" "\<not> index_taken_sl k (sl_slots st)" using pick_index_Some(1,2) by blast
  let ?I = "unat ` ls_index ` set (sl_slots st)"
  have live: "s \<in> set (sl_slots st) \<Longrightarrow> ls_in_use s" for s using full by (auto simp: first_idx_None)
  then have "filter ls_in_use (sl_slots st) = sl_slots st" by (simp add: filter_id_conv)
  then have "distinct (map ls_index (sl_slots st))" using wf(1) by (simp add: lease_wf_def unique_keys_def live_keys_def)
  then have "card (ls_index ` set (sl_slots st)) = LEASE_MAX"
    using wf(1) by (metis distinct_card length_map lease_wf_def set_map)
  then have c: "card ?I = LEASE_MAX" by (subst card_image) (auto simp: inj_on_def word_unat_eq_iff)
  have "?I \<subseteq> {0..<unat (sl_count st)}"
    using wf live by (auto simp: lease_wf_def geometry_ok_def list_all_iff in_geometry_def word_less_nat_alt)
  moreover have "unat k \<notin> ?I" using k(2) live by (auto simp: index_taken_sl_def list_ex_iff word_unat_eq_iff)
  ultimately have "?I \<subseteq> {0..<unat (sl_count st)} - {unat k}" by blast
  then have "card ?I \<le> unat (sl_count st) - 1"
    using k(1) card_mono [of "{0..<unat (sl_count st)} - {unat k}" ?I] by (simp add: word_less_nat_alt)
  then show False using c wf k(1) by (auto simp: lease_wf_def geometry_ok_def word_less_nat_alt)
qed

section \<open>Reserve\<close>

definition new_slot :: "string \<Rightarrow> u32 \<Rightarrow> u64 \<Rightarrow> u64 \<Rightarrow> lease_slot" where
  "new_slot uuid index epoch bytes =
     \<lparr> ls_in_use = True, ls_uuid = uuid, ls_index = index, ls_epoch = epoch, ls_bytes = bytes, ls_ticket = [], ls_primary = False \<rparr>"

lemma uuid_ok_chars: "uuid_ok u \<Longrightarrow> u \<noteq> [] \<and> length u \<le> 36"
  by (auto simp: uuid_ok_def)

lemma slot_ok_new: "uuid_ok u \<Longrightarrow> e \<noteq> 0 \<Longrightarrow> b \<noteq> 0 \<Longrightarrow> slot_ok (new_slot u k e b)"
  by (simp add: slot_ok_def new_slot_def)

lemma save_failed_sl:
  assumes "save_locked_sl st h = (h', rc)" "rc \<noteq> 0"
  shows "store_open (sl_store st) h' = store_open (sl_store st) h" "unreadable h' = unreadable h"
  using store_write_failed [OF assms(1) [unfolded save_locked_sl_def] assms(2)] by (simp_all add: store_open_def)

text \<open>
  The four outcomes of a reserve: refused, the lease the domain already holds, a new lease that is in the
  store, or a new lease that could not be stored (the epoch is spent, the table is as before).
\<close>

lemma reserve_cases:
  assumes wf: "lease_wf st"
  obtains (refused) what where "reserve_range_locked u b m exact n st h = (st, h, snprintf n (ERR what))"
      "sl_matched st \<Longrightarrow> uuid_ok u \<Longrightarrow> b = sl_slice_bytes st \<Longrightarrow>
        what = ''EXHAUSTED'' \<and> find_uuid_sl u (sl_slots st) = None \<and> (sl_next_epoch st = 0 \<or> pick_index m exact st = None)"
  | (held) i where "reserve_range_locked u b m exact n st h = (st, h, snprintf n (format_ok_text (sl_slots st ! i)))"
      "find_uuid_sl u (sl_slots st) = Some i" "sl_matched st" "uuid_ok u" "b = sl_slice_bytes st"
  | (granted) i k st' h' where
      "reserve_range_locked u b m exact n st h = (st', h', snprintf n (format_ok_text (new_slot u k (sl_next_epoch st) b)))"
      "st' = st\<lparr> sl_next_epoch := sl_next_epoch st + 1, sl_slots := (sl_slots st)[i := new_slot u k (sl_next_epoch st) b] \<rparr>"
      "save_locked_sl st' h = (h', 0)" "lease_wf st'" "lease_map st' = (lease_map st)(u \<mapsto> new_slot u k (sl_next_epoch st) b)"
      "lease_map st u = None" "pick_index m exact st = Some k" "sl_next_epoch st \<noteq> 0" "uuid_ok u" "sl_matched st"
      "find_uuid_sl u (sl_slots st') = Some i" "i < length (sl_slots st)" "\<not> ls_in_use (sl_slots st ! i)"
  | (unsaved) h' where
      "reserve_range_locked u b m exact n st h = (st\<lparr> sl_next_epoch := sl_next_epoch st + 1 \<rparr>, h', snprintf n (ERR ''PERSIST''))"
      "store_open (sl_store st) h' = store_open (sl_store st) h" "sl_next_epoch st \<noteq> 0" "lease_map st u = None"
proof -
  consider (geo) "\<not> sl_matched st \<or> sl_count st = 0 \<or> sl_slice_bytes st = 0 \<or> \<not> uuid_ok u \<or> b = 0 \<or> b mod 4096 \<noteq> 0 \<or> b \<noteq> sl_slice_bytes st"
    | (pass) "sl_matched st" "sl_count st \<noteq> 0" "sl_slice_bytes st \<noteq> 0" "uuid_ok u" "b \<noteq> 0" "b mod 4096 = 0" "b = sl_slice_bytes st"
    by argo
  then show ?thesis
  proof cases
    case geo
    have "\<exists>what. reserve_range_locked u b m exact n st h = (st, h, snprintf n (ERR what))"
    proof (cases "\<not> sl_matched st \<or> sl_count st = 0 \<or> sl_slice_bytes st = 0")
      case False
      then have "\<not> uuid_ok u \<or> b = 0 \<or> b mod 4096 \<noteq> 0 \<or> b \<noteq> sl_slice_bytes st" using geo by argo
      then show ?thesis using False by (auto simp: reserve_range_locked_def)
    qed (auto simp: reserve_range_locked_def)
    moreover have "\<not> (sl_matched st \<and> uuid_ok u \<and> b = sl_slice_bytes st)"
    proof
      assume a: "sl_matched st \<and> uuid_ok u \<and> b = sl_slice_bytes st"
      then have "1 \<le> sl_count st" "sl_slice_bytes st \<noteq> 0" "sl_slice_bytes st mod 4096 = 0"
        using wf unfolding lease_wf_def geometry_ok_def by blast+
      then show False using geo a by auto
    qed
    ultimately show ?thesis using refused by blast
  next
    case pass
    show ?thesis
    proof (cases "find_uuid_sl u (sl_slots st)")
      case (Some i)
      then show ?thesis using held [of i] pass by (simp add: reserve_range_locked_def)
    next
      case None
      show ?thesis
      proof (cases "sl_next_epoch st = 0 \<or> pick_index m exact st = None \<or> first_idx (\<lambda>s. \<not> ls_in_use s) (sl_slots st) = None")
        case True
        then have "reserve_range_locked u b m exact n st h = (st, h, snprintf n (ERR ''EXHAUSTED''))"
          using pass None by (auto simp: reserve_range_locked_def split: option.split)
        then show ?thesis using refused True None full_table_taken [OF wf pass(1)] by blast
      next
        case False
        then obtain k i where e: "sl_next_epoch st \<noteq> 0" and k: "pick_index m exact st = Some k"
          and i: "first_idx (\<lambda>s. \<not> ls_in_use s) (sl_slots st) = Some i" by (metis option.exhaust)
        define x where "x = new_slot u k (sl_next_epoch st) b"
        define st' where "st' = st\<lparr> sl_next_epoch := sl_next_epoch st + 1, sl_slots := (sl_slots st)[i := x] \<rparr>"
        have "snprintf 64 u = u" using uuid_ok_chars [OF pass(4)] by (simp add: snprintf_def)
        then have x': "zero_slot\<lparr> ls_uuid := snprintf 64 u, ls_index := k, ls_epoch := sl_next_epoch st, ls_bytes := b, ls_in_use := True \<rparr> = x"
          by (simp add: x_def new_slot_def zero_slot_def)
        obtain h' rc where s: "save_locked_sl st' h = (h', rc)" by force
        have fresh: "find_uuid_sl (ls_uuid x) (sl_slots st) = None" "\<not> index_taken_sl (ls_index x) (sl_slots st)"
          using None pick_index_Some(2) [OF k] by (simp_all add: x_def new_slot_def)
        have xo: "slot_ok x" "ls_in_use x" using slot_ok_new [OF pass(4) e pass(5)] by (simp_all add: x_def new_slot_def)
        have xg: "in_geometry st x" using pick_index_Some(1) [OF k] pass(7) by (simp add: in_geometry_def x_def new_slot_def)
        note c = lease_claim [OF wf i xo xg fresh]
        have r: "reserve_range_locked u b m exact n st h =
            (if rc \<noteq> 0 then (st'\<lparr> sl_slots := (sl_slots st)[i := zero_slot] \<rparr>, h', snprintf n (ERR ''PERSIST''))
             else (st', h', snprintf n (format_ok_text x)))"
          unfolding reserve_range_locked_def using pass(1-6) pass(7) [symmetric] None e k i s by (simp add: x' st'_def Let_def)
        show ?thesis
        proof (cases "rc = 0")
          case True
          have u: "unique_keys ls_in_use ls_uuid (sl_slots st')" using c(1) by (simp add: st'_def lease_wf_def)
          have fi: "find_uuid_sl u (sl_slots st') = Some i"
            using uuid_table.find_key_eq [OF u, of i] c(4) xo(2) by (simp add: st'_def find_uuid_sl_def x_def new_slot_def)
          have w: "lease_wf st'" using c(1) lease_wf_cong [of st' "st\<lparr> sl_slots := (sl_slots st)[i := x] \<rparr>"] by (simp add: st'_def)
          have "lease_map st' = (lease_map st)(u \<mapsto> x)" using c(2) by (simp add: st'_def lease_map_def x_def new_slot_def)
          then show ?thesis
            using granted [of st' h' k i] r True s w k e pass fi c(3,4) None
            by (simp add: x_def st'_def lease_map_def find_uuid_None)
        next
          case False
          have "(sl_slots st)[i := zero_slot] = sl_slots st" using c(3,4) by (metis list_update_id)
          then have "reserve_range_locked u b m exact n st h = (st\<lparr> sl_next_epoch := sl_next_epoch st + 1 \<rparr>, h', snprintf n (ERR ''PERSIST''))"
            using r False by (simp add: st'_def)
          moreover have "store_open (sl_store st) h' = store_open (sl_store st) h"
            using save_failed_sl(1) [OF s False] by (simp add: st'_def)
          moreover have "lease_map st u = None" using None by (simp add: lease_map_def find_uuid_None)
          ultimately show ?thesis using unsaved e by blast
        qed
      qed
    qed
  qed
qed

section \<open>Release\<close>

lemma lease_map_clear:
  assumes "lease_wf st" "find_uuid_sl u (sl_slots st) = Some i"
  shows "lease_map (st\<lparr> sl_slots := (sl_slots st)[i := zero_slot] \<rparr>) = (lease_map st)(u := None)"
  using uuid_table.slot_of_release_map [of "sl_slots st" i] find_uuid_SomeD [OF assms(2)] assms(1)
  by (simp add: lease_map_def lease_wf_def)

lemma release_cases:
  assumes wf: "lease_wf st"
  obtains (refused) what where "release_locked_sl u e n st h = (st, h, snprintf n (ERR what))"
      "\<not> uuid_ok u \<or> lease_map st u = None \<or> ls_epoch (the (lease_map st u)) \<noteq> e"
  | (released) i st' h' where "release_locked_sl u e n st h = (st', h', snprintf n (''OK'' @ [nl]))"
      "find_uuid_sl u (sl_slots st) = Some i" "ls_epoch (sl_slots st ! i) = e"
      "st' = (if sl_detach st then st\<lparr> sl_slots := (sl_slots st)[i := zero_slot], sl_calls := sl_calls st @ [Detach (ls_index (sl_slots st ! i))] \<rparr>
              else st\<lparr> sl_slots := (sl_slots st)[i := zero_slot] \<rparr>)"
      "lease_wf st'" "lease_map st' = (lease_map st)(u := None)"
      "save_locked_sl st' h = (h', 0)"
  | (unsaved) h' where "release_locked_sl u e n st h = (st, h', snprintf n (ERR ''PERSIST''))"
      "store_open (sl_store st) h' = store_open (sl_store st) h"
proof (cases "find_uuid_sl u (sl_slots st)")
  case None
  then have "lease_map st u = None" by (simp add: lease_map_def find_uuid_None)
  then show ?thesis using None refused [of "if uuid_ok u then ''NOT_FOUND'' else ''INVAL''"] by (simp add: release_locked_sl_def)
next
  case (Some i)
  note f = find_uuid_SomeD [OF Some]
  have m: "lease_map st u = Some (sl_slots st ! i)" by (simp add: lease_map_def f(4))
  show ?thesis
  proof (cases "uuid_ok u \<and> ls_epoch (sl_slots st ! i) = e")
    case False
    then show ?thesis using Some m refused [of "if uuid_ok u then ''STALE'' else ''INVAL''"] by (auto simp: release_locked_sl_def)
  next
    case True
    let ?st1 = "st\<lparr> sl_slots := (sl_slots st)[i := zero_slot] \<rparr>"
    let ?st2 = "st\<lparr> sl_slots := (sl_slots st)[i := zero_slot], sl_calls := sl_calls st @ [Detach (ls_index (sl_slots st ! i))] \<rparr>"
    obtain h' rc where s: "save_locked_sl ?st1 h = (h', rc)" by force
    then have s2: "save_locked_sl ?st2 h = (h', rc)" by (simp add: save_locked_sl_def)
    have r: "release_locked_sl u e n st h =
        (if rc \<noteq> 0 then (st, h', snprintf n (ERR ''PERSIST''))
         else (if sl_detach st then ?st2 else ?st1, h', snprintf n (''OK'' @ [nl])))"
      unfolding release_locked_sl_def using Some True s by (simp add: Let_def)
    show ?thesis
    proof (cases "rc = 0")
      case True
      have w: "lease_wf ?st1" by (rule lease_clear [OF wf])
      then have w2: "lease_wf ?st2" using lease_wf_cong [of ?st2 ?st1] by simp
      have c: "lease_map ?st1 = (lease_map st)(u := None)" "lease_map ?st2 = (lease_map st)(u := None)"
        using lease_map_clear [OF wf Some] by (simp_all add: lease_map_def)
      show ?thesis
        using released [of "if sl_detach st then ?st2 else ?st1" h' i] r True s s2 w w2 c Some \<open>uuid_ok u \<and> _\<close> by auto
    next
      case False
      then show ?thesis using unsaved [of h'] r save_failed_sl(1) [OF s False] by simp
    qed
  qed
qed

section \<open>The verdict of a reserve\<close>

definition same_frame :: "lease_state \<Rightarrow> lease_state \<Rightarrow> bool" where
  "same_frame st st' \<longleftrightarrow> sl_matched st' = sl_matched st \<and> sl_count st' = sl_count st \<and> sl_slice_bytes st' = sl_slice_bytes st \<and>
     sl_next_epoch st' = sl_next_epoch st \<and> sl_store st' = sl_store st"

lemma ticket_suffix_frame: "fst (ticket_suffix slot v s st) = st \<or>
    (\<exists>give. fst (ticket_suffix slot v s st) = st\<lparr> sl_calls := sl_calls st @ [Attach (ls_index slot) (ls_epoch slot) give] \<rparr> \<and>
      (give \<longleftrightarrow> vd_camera v \<and> ls_primary slot))"
  by (cases "sl_attach st") (auto simp: ticket_suffix_def Let_def split: prod.splits)

lemma ticket_suffix_slots:
  "sl_slots (fst (ticket_suffix slot v s st)) = sl_slots st" "same_frame st (fst (ticket_suffix slot v s st))"
  using ticket_suffix_frame [of slot v s st] by (auto simp: same_frame_def)

definition recorded_slot :: "string \<Rightarrow> camera_state \<Rightarrow> lease_slot \<Rightarrow> lease_slot" where
  "recorded_slot t cam s = s\<lparr> ls_ticket := t, ls_primary := (virt_iav_role_of t cam = ROLE_PRIMARY) \<rparr>"

text \<open>A verdict leaves the table alone, or records the ticket and role of the reserve after storing them.\<close>

lemma append_camera_cases:
  assumes wf: "lease_wf st" and cam: "camera_wf cam" and t: "\<And>t. ticket = Some t \<Longrightarrow> virt_camera_ticket_ok t"
    and r: "append_camera_locked u ticket intent n resp st cam h = (st', cam', h', resp')"
  obtains (same) "st' = st" "cam' = cam" "store_open (sl_store st) h' = store_open (sl_store st) h"
  | (recorded) t i where "ticket = Some t" "find_uuid_sl u (sl_slots st) = Some i" "lease_wf st'" "camera_wf cam'" "same_frame st st'"
      "sl_slots st' = (sl_slots st)[i := recorded_slot t cam (sl_slots st ! i)]"
      "lease_map st' = (lease_map st)(u \<mapsto> recorded_slot t cam (sl_slots st ! i))" "save_locked_sl st' h = (h', 0)"
proof (cases "starts_ok resp \<and> ticket \<noteq> None \<and> find_uuid_sl u (sl_slots st) \<noteq> None")
  case False
  then show ?thesis using r same by (auto simp: append_camera_locked_def split: if_splits option.splits)
next
  case True
  then obtain t i where ti: "ticket = Some t" "find_uuid_sl u (sl_slots st) = Some i" "starts_ok resp" by blast
  note f = find_uuid_SomeD [OF ti(2)] and tok = t [OF ti(1)]
  let ?x = "recorded_slot t cam (sl_slots st ! i)"
  let ?st1 = "st\<lparr> sl_slots := (sl_slots st)[i := ?x] \<rparr>"
  obtain g rc where s: "save_locked_sl ?st1 h = (g, rc)" by force
  have ct: "copy_ticket t = t" using ticket_ok_chars [OF tok] by (simp add: copy_ticket_def)
  have x: "(sl_slots st ! i)\<lparr> ls_ticket := copy_ticket t, ls_primary := virt_iav_role_of t cam = ROLE_PRIMARY \<rparr> = ?x"
    by (simp add: ct recorded_slot_def)
  show ?thesis
  proof (cases "rc = 0")
    case False
    then have "st' = st" "cam' = cam" "h' = g"
      using r ti s by (auto simp: append_camera_locked_def x Let_def)
    then show ?thesis using same save_failed_sl(1) [OF s False] by simp
  next
    case True
    obtain cam1 rc1 v0 where d: "virt_camera_policy_decide t intent (virt_iav_role_of t cam = ROLE_PRIMARY) cam = (cam1, rc1, v0)"
      by (metis prod_cases3)
    have "h' = g \<and> cam' = cam1 \<and> (st' = ?st1 \<or> (\<exists>v s. st' = fst (ticket_suffix ?x v s ?st1)))"
      using r ti s True unfolding append_camera_locked_def
      by (auto simp: x d Let_def split: option.splits prod.splits) (metis fst_conv)+
    then have g: "h' = g" "cam' = cam1" "sl_slots st' = sl_slots ?st1" "same_frame ?st1 st'"
      using ticket_suffix_slots [where slot = ?x and st = ?st1] by (auto simp: same_frame_def)
    have "slot_ok (sl_slots st ! i)" using wf f(1) by (simp add: lease_wf_def list_all_length)
    then have "slot_ok ?x" using f(2) tok ticket_ok_chars [OF tok] by (auto simp: slot_ok_def recorded_slot_def)
    note w = lease_rewrite [OF wf f(1,2) this]
    have w1: "lease_wf ?st1" "lease_map ?st1 = (lease_map st)(u \<mapsto> ?x)" using w f(2,3) by (simp_all add: recorded_slot_def)
    have "lease_wf st'" using w1(1) lease_wf_cong [of st' ?st1] g(3,4) by (simp add: same_frame_def)
    moreover have "lease_map st' = (lease_map st)(u \<mapsto> ?x)" using w1(2) g(3) by (simp add: lease_map_def)
    moreover have "save_locked_sl st' h = (h', 0)" using s True g by (simp add: save_locked_sl_def same_frame_def)
    moreover have "same_frame st st'" using g(4) by (simp add: same_frame_def)
    moreover have "camera_wf cam'" using decide_result(2) [OF cam tok d] g(2) by simp
    ultimately show ?thesis using recorded [OF ti(1,2)] g(3) by simp
  qed
qed

section \<open>Loading and geometry\<close>

definition loaded_slot :: "string \<Rightarrow> u32 \<Rightarrow> u64 \<Rightarrow> u64 \<Rightarrow> (string \<times> string) option \<Rightarrow> lease_slot" where
  "loaded_slot u k e b tr = \<lparr> ls_in_use = True, ls_uuid = snprintf 64 u, ls_index = k, ls_epoch = e, ls_bytes = b,
     ls_ticket = fst (recorded_ticket tr), ls_primary = snd (recorded_ticket tr) \<rparr>"

lemma load_line_eq:
  "load_line_sl l st =
     (if l \<noteq> [] \<and> (hd l = CHR ''#'' \<or> hd l = nl) then Some st
      else case scan_lease (c_str l) of None \<Rightarrow> Some st
      | Some (u, k, e, b, tr) \<Rightarrow>
          if uuid_ok u \<and> e \<noteq> 0 \<and> b \<noteq> 0 \<and> sl_matched st \<and> k < sl_count st \<and> b = sl_slice_bytes st \<and>
             find_uuid_sl u (sl_slots st) = None \<and> \<not> index_taken_sl k (sl_slots st)
          then map_option (\<lambda>i. st\<lparr> sl_slots := (sl_slots st)[i := loaded_slot u k e b tr],
                 sl_next_epoch := (if e \<ge> sl_next_epoch st then e + 1 else sl_next_epoch st) \<rparr>)
               (first_idx (\<lambda>s. \<not> ls_in_use s) (sl_slots st))
          else Some st)"
proof (cases "l \<noteq> [] \<and> (hd l = CHR ''#'' \<or> hd l = nl) \<or> scan_lease (c_str l) = None")
  case False
  then obtain u k e b tr where sc: "scan_lease (c_str l) = Some (u, k, e, b, tr)" by (metis option.exhaust prod_cases5)
  have w: "(if e = - 1 then 0 else e + 1) = e + 1" by simp
  have n: "\<not> (l \<noteq> [] \<and> (hd l = CHR ''#'' \<or> hd l = nl))" using False by blast
  show ?thesis
  proof (cases "uuid_ok u \<and> e \<noteq> 0 \<and> b \<noteq> 0 \<and> sl_matched st \<and> k < sl_count st \<and> b = sl_slice_bytes st \<and>
             find_uuid_sl u (sl_slots st) = None \<and> \<not> index_taken_sl k (sl_slots st)")
    case True
    then have c: "\<not> (\<not> uuid_ok u \<or> e = 0 \<or> b = 0)" "\<not> (\<not> sl_matched st \<or> k \<ge> sl_count st \<or> b \<noteq> sl_slice_bytes st)"
        "\<not> (find_uuid_sl u (sl_slots st) \<noteq> None \<or> index_taken_sl k (sl_slots st))" by (auto simp: not_le)
    show ?thesis
      unfolding load_line_sl_def if_not_P [OF n] sc option.case prod.case w loaded_slot_def if_P [OF True]
        if_not_P [OF c(1)] if_not_P [OF c(2)] if_not_P [OF c(3)]
      by (cases "recorded_ticket tr") (simp only: map_option_case Let_def prod.case fst_conv snd_conv)
  next
    case False
    then show ?thesis
      unfolding load_line_sl_def if_not_P [OF n] sc option.case prod.case if_not_P [OF False] by (auto simp: not_le)
  qed
next
  case True
  then show ?thesis unfolding load_line_sl_def by (elim disjE) (simp_all only: option.case simp_thms if_True if_cancel)
qed

lemma slot_ok_loaded: "uuid_ok u \<Longrightarrow> e \<noteq> 0 \<Longrightarrow> b \<noteq> 0 \<Longrightarrow> slot_ok (loaded_slot u k e b tr)"
  using uuid_ok_chars [of u] ticket_ok_chars
  by (auto simp: slot_ok_def loaded_slot_def recorded_ticket_def snprintf_def copy_ticket_def split: option.splits)

lemma load_line_wf:
  assumes wf: "lease_wf st" and r: "load_line_sl l st = Some st'"
  shows "lease_wf st'"
proof (cases "st' = st")
  case False
  obtain u k e b tr where sc: "scan_lease (c_str l) = Some (u, k, e, b, tr)"
    using r False by (auto simp: load_line_eq split: if_splits option.splits)
  have ok: "uuid_ok u" "e \<noteq> 0" "b \<noteq> 0" "sl_matched st" "k < sl_count st" "b = sl_slice_bytes st"
      "find_uuid_sl u (sl_slots st) = None" "\<not> index_taken_sl k (sl_slots st)"
    using r False by (simp_all add: load_line_eq sc split: if_splits)
  obtain i where i: "first_idx (\<lambda>s. \<not> ls_in_use s) (sl_slots st) = Some i"
    and st': "st' = st\<lparr> sl_slots := (sl_slots st)[i := loaded_slot u k e b tr],
                 sl_next_epoch := (if e \<ge> sl_next_epoch st then e + 1 else sl_next_epoch st) \<rparr>"
    using r False by (auto simp: load_line_eq sc split: if_splits)
  let ?x = "loaded_slot u k e b tr"
  have "ls_uuid ?x = u" using uuid_ok_chars [OF ok(1)] by (simp add: loaded_slot_def snprintf_def)
  then have w: "lease_wf (st\<lparr> sl_slots := (sl_slots st)[i := ?x] \<rparr>)"
    using ok by (intro lease_claim(1) [OF wf i slot_ok_loaded]) (simp_all add: loaded_slot_def in_geometry_def)
  then show ?thesis using lease_wf_cong [of st' "st\<lparr> sl_slots := (sl_slots st)[i := ?x] \<rparr>"] st' by simp
qed (use wf in simp)

lemma load_lines_wf: "lease_wf st \<Longrightarrow> lease_wf (load_lines_sl ls st)"
  by (induction ls arbitrary: st) (auto split: option.splits dest: load_line_wf)

lemma load_wf_sl: "lease_wf st \<Longrightarrow> lease_wf (virt_slice_lease_load h st)"
  by (auto simp: virt_slice_lease_load_def load_lines_wf split: sum.splits)

lemma set_geometry_wf:
  assumes wf: "lease_wf st"
  shows "lease_wf (fst (virt_slice_lease_set_geometry matched count bytes st h))"
proof (cases "matched \<and> count \<ge> 1 \<and> unat count \<le> LEASE_MAX \<and> bytes \<noteq> 0 \<and> bytes mod 4096 = 0")
  case True
  let ?P = "\<lambda>s. ls_in_use s \<and> (ls_index s \<ge> count \<or> ls_bytes s \<noteq> bytes)"
  let ?ss = "map (\<lambda>s. if ?P s then zero_slot else s) (sl_slots st)"
  let ?st1 = "st\<lparr> sl_matched := True, sl_count := count, sl_slice_bytes := bytes, sl_slots := ?ss \<rparr>"
  have u: "unique_keys ls_in_use ls_uuid ?ss" "unique_keys ls_in_use ls_index ?ss"
    using wf by (auto simp: lease_wf_def intro!: uuid_table.prune_unique slice_table.prune_unique)
  have "list_all (in_geometry ?st1) ?ss" by (auto simp: list_all_iff in_geometry_def not_le)
  moreover have "list_all slot_ok ?ss" using wf by (auto simp: list_all_iff lease_wf_def)
  ultimately have "lease_wf ?st1" using wf True u by (simp add: lease_wf_def geometry_ok_def)
  then show ?thesis using True unfolding virt_slice_lease_set_geometry_def by (simp only: if_True Let_def fst_conv simp_thms)
next
  case False
  then have "fst (virt_slice_lease_set_geometry matched count bytes st h) = st\<lparr> sl_matched := False, sl_count := 0, sl_slice_bytes := 0 \<rparr>"
    unfolding virt_slice_lease_set_geometry_def by (simp only: if_False fst_conv)
  then show ?thesis using wf by (simp add: lease_wf_def geometry_ok_def)
qed

end
