(* ===== verification/Slice_Lease_Store.thy ===== *)
theory Slice_Lease_Store
  imports Slice_Lease_Correct
begin

text \<open>
  The store of the slice leases: a saved line is scanned back field by field, loading what was saved rebuilds
  the table slot for slot, and the table in memory is the one in the store after every admin command,
  whatever the file system does.
\<close>

section \<open>Lines\<close>

definition lease_text :: "lease_state \<Rightarrow> string" where
  "lease_text st = concat (map (\<lambda>s. lease_line s @ [nl]) (filter ls_in_use (sl_slots st)))"

text \<open>What a line keeps of a lease: everything, but a ticket \<open>-\<close> reads back as no ticket.\<close>

definition stored_slot :: "lease_slot \<Rightarrow> lease_slot" where
  "stored_slot s = (if ls_ticket s = ''-'' then s\<lparr> ls_ticket := [], ls_primary := False \<rparr> else s)"

lemma stored_slot_sel [simp]:
  "ls_in_use (stored_slot s) = ls_in_use s" "ls_uuid (stored_slot s) = ls_uuid s" "ls_index (stored_slot s) = ls_index s"
  "ls_epoch (stored_slot s) = ls_epoch s" "ls_bytes (stored_slot s) = ls_bytes s"
  by (simp_all add: stored_slot_def)

definition line_ticket :: "lease_slot \<Rightarrow> string" where
  "line_ticket s = (if ls_ticket s \<noteq> [] then ls_ticket s else ''-'')"

definition line_role :: "lease_slot \<Rightarrow> string" where
  "line_role s = (if ls_primary s then ''primary'' else ''consumer'')"

lemma dash_char: "c \<in> {CHR ''-''} \<Longrightarrow> \<not> isspace c \<and> c \<noteq> nul \<and> c \<noteq> CHR ''#''"
  by (auto simp: isspace_def code_of_def)

lemma uuid_chars:
  assumes "uuid_ok u"
  shows "u \<noteq> []" "length u \<le> 36" "c \<in> set u \<Longrightarrow> \<not> isspace c \<and> c \<noteq> nul \<and> c \<noteq> CHR ''#'' \<and> c \<noteq> nl"
proof -
  show "u \<noteq> []" "length u \<le> 36" using assms by (auto simp: uuid_ok_def)
  assume "c \<in> set u"
  then have "c = CHR ''-'' \<or> isxdigit c" using assms by (auto simp: uuid_ok_def list_all_iff)
  then show "\<not> isspace c \<and> c \<noteq> nul \<and> c \<noteq> CHR ''#'' \<and> c \<noteq> nl"
    by (auto simp: isspace_def isxdigit_def isdigit_def code_of_def)
qed

lemma ticket_chars:
  assumes "virt_camera_ticket_ok t"
  shows "t \<noteq> []" "length t \<le> 48" "c \<in> set t \<Longrightarrow> \<not> isspace c \<and> c \<noteq> nul \<and> c \<noteq> nl"
proof -
  show "t \<noteq> []" "length t \<le> 48" using ticket_ok_chars [OF assms] by auto
  assume "c \<in> set t"
  then have "ticket_char c" using assms by (auto simp: virt_camera_ticket_ok_def list_all_iff)
  then show "\<not> isspace c \<and> c \<noteq> nul \<and> c \<noteq> nl"
    by (auto simp: ticket_char_def isspace_def islower_c_def isupper_c_def isdigit_def code_of_def)
qed

lemma line_ticket_chars:
  assumes "slot_ok s" "ls_in_use s"
  shows "line_ticket s \<noteq> []" "length (line_ticket s) \<le> 48" "c \<in> set (line_ticket s) \<Longrightarrow> \<not> isspace c \<and> c \<noteq> nul \<and> c \<noteq> nl"
  using assms ticket_chars [of "ls_ticket s"] dash_char
  by (auto simp: line_ticket_def slot_ok_def isspace_def code_of_def split: if_splits)

lemma line_role_chars:
  shows "line_role s \<noteq> []" "length (line_role s) \<le> 8" "c \<in> set (line_role s) \<Longrightarrow> \<not> isspace c \<and> c \<noteq> nul \<and> c \<noteq> nl"
  by (auto simp: line_role_def isspace_def code_of_def split: if_splits)

lemma lease_line_split:
  "lease_line s = ls_uuid s @ [sp] @ dec32 (ls_index s) @ [sp] @ dec64 (ls_epoch s) @ [sp] @ dec64 (ls_bytes s) @ [sp] @
     line_ticket s @ [sp] @ line_role s"
  by (simp add: lease_line_def line_ticket_def line_role_def)

lemma digit_chars: "isdigit c \<Longrightarrow> c \<noteq> nul \<and> c \<noteq> nl"
  by (auto simp: isdigit_def code_of_def)

lemma length_dec32: "length (dec32 v) \<le> 10"
  using length_dec [of "unat v" 10] unat_u32_less [of v] by (simp add: dec32_def)

lemma length_dec64: "length (dec64 v) \<le> 20"
  using length_dec [of "unat v" 20] unat_u64_less [of v] by (simp add: dec64_def)

lemma lease_line_ok:
  assumes "slot_ok s" "ls_in_use s"
  shows "length (lease_line s) < 255" "nl \<notin> set (lease_line s)" "nul \<notin> set (lease_line s)"
    "lease_line s \<noteq> []" "hd (lease_line s) \<noteq> CHR ''#''" "hd (lease_line s) \<noteq> nl"
proof -
  have u: "uuid_ok (ls_uuid s)" using assms by (simp add: slot_ok_def)
  show "length (lease_line s) < 255"
    using uuid_chars(2) [OF u] line_ticket_chars(2) [OF assms] line_role_chars(2) [of s] length_dec32 [of "ls_index s"]
      length_dec64 [of "ls_epoch s"] length_dec64 [of "ls_bytes s"]
    by (simp add: lease_line_split)
  have d: "c \<notin> set (dec32 v)" "c \<notin> set (dec64 w)" if "c = nul \<or> c = nl" for c v w
    using that dec_digits [of c] digit_chars [of c] by (auto simp: dec32_def dec64_def)
  have t: "c \<notin> set (ls_uuid s)" "c \<notin> set (line_ticket s)" "c \<notin> set (line_role s)" if "c = nul \<or> c = nl" for c
    using that uuid_chars(3) [OF u, of c] line_ticket_chars(3) [OF assms, of c] line_role_chars(3) [of c s] by blast+
  show "nl \<notin> set (lease_line s)" "nul \<notin> set (lease_line s)"
    by (simp_all add: lease_line_split d t)
  have "lease_line s \<noteq> [] \<and> hd (lease_line s) \<in> set (ls_uuid s)"
    using uuid_chars(1) [OF u] by (simp add: lease_line_split)
  then show "lease_line s \<noteq> []" "hd (lease_line s) \<noteq> CHR ''#''" "hd (lease_line s) \<noteq> nl"
    using uuid_chars(3) [OF u] by auto
qed

lemma scan_lease_line:
  assumes "slot_ok s" "ls_in_use s"
  shows "scan_lease (lease_line s @ [nl]) =
    Some (ls_uuid s, ls_index s, ls_epoch s, ls_bytes s, Some (line_ticket s, line_role s))"
proof -
  have u: "uuid_ok (ls_uuid s)" using assms by (simp add: slot_ok_def)
  let ?r5 = "sp # line_role s @ [nl]"
  let ?r4 = "sp # line_ticket s @ ?r5"
  let ?r3 = "sp # dec64 (ls_bytes s) @ ?r4"
  let ?r2 = "sp # dec64 (ls_epoch s) @ ?r3"
  let ?r1 = "sp # dec32 (ls_index s) @ ?r2"
  have l: "lease_line s @ [nl] = ls_uuid s @ ?r1" by (simp add: lease_line_split)
  have s1: "scan_s 63 (ls_uuid s @ ?r1) = Some (ls_uuid s, ?r1)"
    using uuid_chars [OF u] by (intro scan_s_word) auto
  have s2: "scan_u ?r1 = Some (ls_index s, ?r2)" unfolding scan_u_sp by (rule scan_u_dec32) simp
  have s3: "scan_llu ?r2 = Some (ls_epoch s, ?r3)" unfolding scan_llu_sp by (rule scan_llu_dec64) simp
  have s4: "scan_llu ?r3 = Some (ls_bytes s, ?r4)" unfolding scan_llu_sp by (rule scan_llu_dec64) simp
  have s5: "scan_s 63 ?r4 = Some (line_ticket s, ?r5)"
    unfolding scan_s_sp using line_ticket_chars [OF assms] by (intro scan_s_word) auto
  have s6: "scan_s 63 ?r5 = Some (line_role s, [nl])"
    unfolding scan_s_sp using line_role_chars(1,2) [of s] line_role_chars(3) [of _ s] by (intro scan_s_word) auto
  show ?thesis unfolding scan_lease_def l s1 option.case prod.case s2 s3 s4 s5 s6 by (rule refl)
qed

lemma recorded_line_ticket:
  assumes "slot_ok s" "ls_in_use s"
  shows "recorded_ticket (Some (line_ticket s, line_role s)) = (ls_ticket (stored_slot s), ls_primary (stored_slot s))"
proof (cases "ls_ticket s = [] \<or> ls_ticket s = ''-''")
  case True
  then show ?thesis using assms by (auto simp: recorded_ticket_def line_ticket_def stored_slot_def slot_ok_def)
next
  case False
  then have t: "virt_camera_ticket_ok (ls_ticket s)" using assms by (simp add: slot_ok_def)
  then show ?thesis
    using False ticket_chars(2) [OF t] by (simp add: recorded_ticket_def line_ticket_def stored_slot_def line_role_def copy_ticket_def)
qed

lemma loaded_line_slot:
  assumes "slot_ok s" "ls_in_use s"
  shows "loaded_slot (ls_uuid s) (ls_index s) (ls_epoch s) (ls_bytes s) (Some (line_ticket s, line_role s)) = stored_slot s"
proof -
  have "snprintf 64 (ls_uuid s) = ls_uuid s" using assms uuid_ok_chars [of "ls_uuid s"] by (simp add: snprintf_def slot_ok_def)
  then show ?thesis
    unfolding loaded_slot_def recorded_line_ticket [OF assms] using assms(2) by (simp add: stored_slot_def)
qed

section \<open>Tables\<close>

definition next_after :: "u64 \<Rightarrow> lease_slot \<Rightarrow> u64" where
  "next_after e s = (if ls_epoch s \<ge> e then ls_epoch s + 1 else e)"

text \<open>A table filled from the front with what the lines hold.\<close>

definition packed :: "lease_slot list \<Rightarrow> lease_slot list" where
  "packed ss = map stored_slot ss @ replicate (LEASE_MAX - length ss) zero_slot"

lemma packed_free:
  assumes "list_all ls_in_use ss" "length ss < LEASE_MAX"
  shows "first_idx (\<lambda>s. \<not> ls_in_use s) (packed ss) = Some (length ss)"
    and "(packed ss)[length ss := stored_slot s] = packed (ss @ [s])"
proof -
  obtain k where k: "LEASE_MAX - length ss = Suc k" using assms(2) by (metis Suc_diff_Suc)
  have "\<not> list_ex (\<lambda>s. \<not> ls_in_use s) ss" using assms(1) by (auto simp: list_ex_iff list_all_iff)
  then show "first_idx (\<lambda>s. \<not> ls_in_use s) (packed ss) = Some (length ss)"
    unfolding packed_def k by (induction ss) auto
  have "LEASE_MAX - length (ss @ [s]) = k" using k by simp
  then show "(packed ss)[length ss := stored_slot s] = packed (ss @ [s])"
    unfolding packed_def k by (simp add: list_update_append)
qed

lemma packed_fresh:
  "ls_uuid s \<notin> ls_uuid ` set ss \<Longrightarrow> find_uuid_sl (ls_uuid s) (packed ss) = None"
  "ls_index s \<notin> ls_index ` set ss \<Longrightarrow> \<not> index_taken_sl (ls_index s) (packed ss)"
  by (auto simp: find_uuid_None slot_of_def find_None_iff index_taken_sl_def list_ex_iff packed_def)
    (metis imageI)+

lemma load_lines_packed:
  assumes "sl_slots st = packed ds" "sl_matched st" "length (ds @ ss) \<le> LEASE_MAX" "list_all ls_in_use (ds @ ss)"
    and "distinct (map ls_uuid (ds @ ss))" "distinct (map ls_index (ds @ ss))"
    and "list_all (\<lambda>s. slot_ok s \<and> in_geometry st s) ss"
  shows "load_lines_sl (map (\<lambda>s. lease_line s @ [nl]) ss) st =
    st\<lparr> sl_slots := packed (ds @ ss), sl_next_epoch := foldl next_after (sl_next_epoch st) ss \<rparr>"
  using assms
proof (induction ss arbitrary: ds st)
  case (Cons s ss)
  let ?st1 = "st\<lparr> sl_slots := packed (ds @ [s]), sl_next_epoch := next_after (sl_next_epoch st) s \<rparr>"
  have s: "slot_ok s" "ls_in_use s" using Cons.prems by simp_all
  have g: "uuid_ok (ls_uuid s)" "ls_epoch s \<noteq> 0" "ls_bytes s \<noteq> 0" "ls_index s < sl_count st" "ls_bytes s = sl_slice_bytes st"
    using s Cons.prems(7) unfolding slot_ok_def in_geometry_def by auto
  have f: "find_uuid_sl (ls_uuid s) (sl_slots st) = None" "\<not> index_taken_sl (ls_index s) (sl_slots st)"
    using packed_fresh [of s ds] Cons.prems by simp_all
  have i: "first_idx (\<lambda>s. \<not> ls_in_use s) (sl_slots st) = Some (length ds)"
    and u: "(sl_slots st)[length ds := stored_slot s] = packed (ds @ [s])"
    using packed_free(1) [of ds] packed_free(2) [of ds s] Cons.prems by simp_all
  have h: "\<not> (lease_line s @ [nl] \<noteq> [] \<and> (hd (lease_line s @ [nl]) = CHR ''#'' \<or> hd (lease_line s @ [nl]) = nl))"
    using lease_line_ok(4-6) [OF s] by simp
  have c: "c_str (lease_line s @ [nl]) = lease_line s @ [nl]" using lease_line_ok(3) [OF s] by (intro c_str_id) simp
  have "load_line_sl (lease_line s @ [nl]) st = Some ?st1"
    unfolding load_line_eq if_not_P [OF h] c scan_lease_line [OF s] option.case prod.case loaded_line_slot [OF s]
    using g f i u Cons.prems(2) by (simp add: next_after_def)
  moreover have "load_lines_sl (map (\<lambda>s. lease_line s @ [nl]) ss) ?st1 =
      ?st1\<lparr> sl_slots := packed ((ds @ [s]) @ ss), sl_next_epoch := foldl next_after (sl_next_epoch ?st1) ss \<rparr>"
    using Cons.prems by (intro Cons.IH) (auto simp: in_geometry_def)
  ultimately show ?case by simp
qed simp

lemma packed_Nil: "packed [] = replicate LEASE_MAX zero_slot"
  by (simp add: packed_def)

lemma unique_live_map: "unique_keys used key xs \<Longrightarrow> distinct (map key (filter used xs))"
  by (simp add: unique_keys_def live_keys_def)

text \<open>Loading the saved text into an empty table of the same geometry.\<close>

lemma load_saved:
  assumes wf: "lease_wf st" and m: "sl_matched st" "sl_matched st0" "sl_count st0 = sl_count st" "sl_slice_bytes st0 = sl_slice_bytes st"
    and e: "sl_slots st0 = replicate LEASE_MAX zero_slot" and f: "store_open (sl_store st0) h = Inr (lease_text st)"
  shows "virt_slice_lease_load h st0 = st0\<lparr> sl_slots := packed (filter ls_in_use (sl_slots st)),
    sl_next_epoch := foldl next_after (sl_next_epoch st0) (filter ls_in_use (sl_slots st)) \<rparr>"
proof -
  let ?ss = "filter ls_in_use (sl_slots st)"
  have a: "list_all slot_ok (sl_slots st)" "list_all (in_geometry st) (sl_slots st)"
    using wf m(1) by (simp_all add: lease_wf_def geometry_ok_def)
  have "in_geometry st0 s = in_geometry st s" for s unfolding in_geometry_def m(3,4) by (rule refl)
  then have ok: "s \<in> set ?ss \<Longrightarrow> slot_ok s \<and> in_geometry st0 s \<and> ls_in_use s" for s
    using a by (simp add: list_all_iff)
  have "nl \<notin> set l \<and> length l < 255" if l: "l \<in> set (map lease_line ?ss)" for l
  proof -
    obtain s where "s \<in> set ?ss" "l = lease_line s" using l by auto
    then show ?thesis using lease_line_ok(1,2) [of s] ok [of s] by blast
  qed
  then have "fgets_lines (concat (map (\<lambda>l. l @ [nl]) (map lease_line ?ss))) = map (\<lambda>l. l @ [nl]) (map lease_line ?ss)"
    by (rule fgets_lines_concat)
  then have "fgets_lines (lease_text st) = map (\<lambda>s. lease_line s @ [nl]) ?ss"
    unfolding lease_text_def by (simp only: map_map comp_def)
  moreover have "load_lines_sl (map (\<lambda>s. lease_line s @ [nl]) ?ss) st0 =
      st0\<lparr> sl_slots := packed ([] @ ?ss), sl_next_epoch := foldl next_after (sl_next_epoch st0) ?ss \<rparr>"
  proof (rule load_lines_packed)
    show "length ([] @ ?ss) \<le> LEASE_MAX" using wf length_filter_le [of ls_in_use "sl_slots st"] by (simp add: lease_wf_def)
    show "distinct (map ls_uuid ([] @ ?ss))" "distinct (map ls_index ([] @ ?ss))"
      using wf unique_live_map [of ls_in_use _ "sl_slots st"] unfolding lease_wf_def append_Nil by blast+
    show "list_all (\<lambda>s. slot_ok s \<and> in_geometry st0 s) ?ss" "list_all ls_in_use ([] @ ?ss)"
      using ok by (auto simp only: list_all_iff append_Nil)
  qed (use m e in \<open>simp_all add: packed_Nil\<close>)
  ultimately show ?thesis unfolding virt_slice_lease_load_def f by simp
qed

lemma find_map_filter:
  assumes "\<And>s. P (f s) \<longleftrightarrow> P s" "\<And>s. P s \<Longrightarrow> Q s"
  shows "find P (map f (filter Q xs)) = map_option f (find P xs)"
  using assms by (induction xs) auto

lemma slot_of_packed:
  "slot_of ls_in_use ls_uuid (packed (filter ls_in_use ss)) u = map_option stored_slot (slot_of ls_in_use ls_uuid ss u)"
proof -
  have z: "find (\<lambda>s. ls_in_use s \<and> ls_uuid s = u) (xs @ replicate k zero_slot) = find (\<lambda>s. ls_in_use s \<and> ls_uuid s = u) xs" for xs k
    by (induction xs) (auto simp: find_None_iff)
  show ?thesis unfolding slot_of_def packed_def z by (rule find_map_filter) auto
qed

end
