(* ===== verification/Slice_Lease_Steps.thy ===== *)
theory Slice_Lease_Steps
  imports Slice_Lease_Store Camera_Props
begin

text \<open>
  The slice leases as a service: sequences of admin commands, geometry changes, hook registrations, loads and
  camera policy operations. Every step keeps the invariant; every admin command leaves the store equal to the
  table; a lease seen after a run is an older one or carries an epoch the service had not handed out before.
\<close>

section \<open>Steps\<close>

datatype lease_op =
    Lease_Admin "string option" nat
  | Lease_Geometry bool u32 u64
  | Lease_Hooks "attach_fn option" bool
  | Lease_Store "string option"
  | Lease_Load
  | Lease_Camera camera_op

type_synonym lease_world = "lease_state \<times> camera_state \<times> host"

fun lease_step :: "lease_op \<Rightarrow> lease_world \<Rightarrow> lease_world" where
  "lease_step (Lease_Admin req n) (st, cam, h) = (let (st', cam', h', _) = virt_slice_lease_admin req n st cam h in (st', cam', h'))"
| "lease_step (Lease_Geometry m c b) (st, cam, h) = (let (st', h') = virt_slice_lease_set_geometry m c b st h in (st', cam, h'))"
| "lease_step (Lease_Hooks a d) (st, cam, h) = (virt_slice_lease_set_aux_hooks a d st, cam, h)"
| "lease_step (Lease_Store p) (st, cam, h) = (virt_slice_lease_set_store p st, cam, h)"
| "lease_step Lease_Load (st, cam, h) = (virt_slice_lease_load h st, cam, h)"
| "lease_step (Lease_Camera op) (st, cam, h) = (let (cam', h') = camera_step op (cam, h) in (st, cam', h'))"

definition lease_run :: "lease_op list \<Rightarrow> lease_world \<Rightarrow> lease_world" where
  "lease_run ops w = foldl (\<lambda>w op. lease_step op w) w ops"

lemma lease_run_Nil [simp]: "lease_run [] w = w"
  by (simp add: lease_run_def)

lemma lease_run_Cons [simp]: "lease_run (op # ops) w = lease_run ops (lease_step op w)"
  by (simp add: lease_run_def)

lemma lease_run_append: "lease_run (xs @ ys) w = lease_run ys (lease_run xs w)"
  by (simp add: lease_run_def)

section \<open>Admin commands\<close>

text \<open>What a command can do: nothing, a reserve with its verdict, or a release.\<close>

lemma admin_cases_sl:
  assumes "virt_slice_lease_admin req n st cam h = (st', cam', h', rc, resp)"
  obtains (same) "st' = st" "cam' = cam" "h' = h"
  | (reserve) u b m ex ticket intent where "reserve_with_camera u b m ex ticket intent n st cam h = (st', cam', h', resp)"
      "\<And>t. ticket = Some t \<Longrightarrow> virt_camera_ticket_ok t" "n \<noteq> 0"
  | (release) u e where "release_locked_sl u e n st h = (st', h', resp)" "cam' = cam" "n \<noteq> 0"
proof -
  consider "st' = st \<and> cam' = cam \<and> h' = h"
    | "\<exists>u b m ex ticket intent. reserve_with_camera u b m ex ticket intent n st cam h = (st', cam', h', resp) \<and>
        (\<forall>t. ticket = Some t \<longrightarrow> virt_camera_ticket_ok t) \<and> n \<noteq> 0"
    | "\<exists>u e. release_locked_sl u e n st h = (st', h', resp) \<and> cam' = cam \<and> n \<noteq> 0"
    using assms unfolding virt_slice_lease_admin_def Let_def
    by (auto split: if_splits option.splits prod.splits) blast+
  then show ?thesis using that by cases blast+
qed

section \<open>The table and its store\<close>

definition in_sync :: "lease_state \<Rightarrow> host \<Rightarrow> bool" where
  "in_sync st h \<longleftrightarrow> store_open (sl_store st) h = Inr (lease_text st) \<or>
     store_open (sl_store st) h = Inl ENOENT \<and> lease_text st = []"

lemma in_sync_cong:
  "sl_slots st' = sl_slots st \<Longrightarrow> sl_store st' = sl_store st \<Longrightarrow> store_open (sl_store st) h' = store_open (sl_store st) h \<Longrightarrow>
   in_sync st' h' = in_sync st h"
  by (simp add: in_sync_def lease_text_def)

lemma in_sync_saved:
  assumes "in_sync st h" "save_locked_sl st' h = (h', 0)" "sl_store st' = sl_store st"
  shows "in_sync st' h'"
proof -
  have "\<not> unreadable h (sl_store st)" using assms(1) by (auto simp: in_sync_def store_open_def split: if_splits)
  then show ?thesis
    using store_open_written [OF assms(2) [unfolded save_locked_sl_def]] assms(3) by (simp add: in_sync_def lease_text_def)
qed

section \<open>Epochs\<close>

text \<open>
  \<open>later_than st st'\<close>: the service moved from \<open>st\<close> to \<open>st'\<close> without handing out an epoch twice. The epoch
  counter 0 means that all epochs are spent.
\<close>

definition later_than :: "lease_state \<Rightarrow> lease_state \<Rightarrow> bool" where
  "later_than st st' \<longleftrightarrow>
     (sl_next_epoch st' = 0 \<or> sl_next_epoch st \<noteq> 0 \<and> sl_next_epoch st \<le> sl_next_epoch st') \<and>
     (\<forall>u s'. lease_map st' u = Some s' \<longrightarrow>
        (\<exists>s. lease_map st u = Some s \<and> ls_index s' = ls_index s \<and> ls_epoch s' = ls_epoch s) \<or>
        sl_next_epoch st \<noteq> 0 \<and> sl_next_epoch st \<le> ls_epoch s')"

definition epochs_spent :: "lease_state \<Rightarrow> bool" where
  "epochs_spent st \<longleftrightarrow> sl_next_epoch st = 0 \<or> (\<forall>u s. lease_map st u = Some s \<longrightarrow> ls_epoch s < sl_next_epoch st)"

lemma later_than_refl [simp]: "later_than st st"
  by (simp add: later_than_def)

lemma later_than_trans:
  assumes "later_than a b" "later_than b c"
  shows "later_than a c"
proof -
  have "sl_next_epoch c = 0 \<or> sl_next_epoch a \<noteq> 0 \<and> sl_next_epoch a \<le> sl_next_epoch c"
    using assms unfolding later_than_def by (meson order_trans)
  moreover have "(\<exists>s. lease_map a u = Some s \<and> ls_index s'' = ls_index s \<and> ls_epoch s'' = ls_epoch s) \<or>
      sl_next_epoch a \<noteq> 0 \<and> sl_next_epoch a \<le> ls_epoch s''" if c: "lease_map c u = Some s''" for u s''
  proof -
    consider s' where "lease_map b u = Some s'" "ls_index s'' = ls_index s'" "ls_epoch s'' = ls_epoch s'"
      | "sl_next_epoch b \<noteq> 0" "sl_next_epoch b \<le> ls_epoch s''"
      using assms(2) c unfolding later_than_def by blast
    then show ?thesis
    proof cases
      case 1
      then show ?thesis using assms(1) unfolding later_than_def by metis
    next
      case 2
      then show ?thesis using assms(1) unfolding later_than_def by (meson order_trans)
    qed
  qed
  ultimately show ?thesis unfolding later_than_def by blast
qed

lemma same_leases_later:
  assumes "sl_next_epoch st' = sl_next_epoch st"
    and "\<And>u s'. lease_map st' u = Some s' \<Longrightarrow> \<exists>s. lease_map st u = Some s \<and> ls_index s' = ls_index s \<and> ls_epoch s' = ls_epoch s"
  shows "later_than st st'" "epochs_spent st \<Longrightarrow> epochs_spent st'"
  using assms unfolding later_than_def epochs_spent_def by (simp, metis)

lemma word_succ_cases: "(x::u64) + 1 = 0 \<or> x < x + 1"
proof (cases "unat x + 1 < 2 ^ 64")
  case True
  then have "unat (x + 1) = unat x + 1" by (simp add: unat_word_ariths)
  then show ?thesis by (simp add: word_less_nat_alt)
next
  case False
  then have "unat x + 1 = 2 ^ 64" using unat_u64_less [of x] by simp
  then have "unat (x + 1) = 0" by (simp add: unat_word_ariths)
  then show ?thesis by (simp add: unat_eq_0)
qed

lemma spend_epoch:
  assumes e: "sl_next_epoch st \<noteq> 0" "sl_next_epoch st' = sl_next_epoch st + 1"
    and m: "lease_map st' = lease_map st \<or> (\<exists>u x. lease_map st' = (lease_map st)(u \<mapsto> x) \<and> ls_epoch x = sl_next_epoch st)"
  shows "later_than st st'" "epochs_spent st \<Longrightarrow> epochs_spent st'"
proof -
  have n: "sl_next_epoch st' = 0 \<or> sl_next_epoch st < sl_next_epoch st'"
    using e(2) word_succ_cases [of "sl_next_epoch st"] by simp
  show "later_than st st'"
    using e(1) n m unfolding later_than_def by (auto split: if_splits)
  assume "epochs_spent st"
  then have "\<And>u s. lease_map st u = Some s \<Longrightarrow> ls_epoch s < sl_next_epoch st" using e(1) by (auto simp: epochs_spent_def)
  then have "\<And>u s. lease_map st' u = Some s \<Longrightarrow> ls_epoch s \<le> sl_next_epoch st" using m by (metis fun_upd_apply less_imp_le option.inject order_refl)
  then show "epochs_spent st'" using n unfolding epochs_spent_def by (meson le_less_trans)
qed

section \<open>Every step\<close>

definition step_ok :: "lease_state \<Rightarrow> host \<Rightarrow> lease_state \<Rightarrow> host \<Rightarrow> bool" where
  "step_ok st h st' h' \<longleftrightarrow> lease_wf st' \<and> later_than st st' \<and> (epochs_spent st \<longrightarrow> epochs_spent st') \<and>
     (in_sync st h \<longrightarrow> in_sync st' h') \<and> sl_store st' = sl_store st \<and> sl_matched st' = sl_matched st \<and>
     sl_count st' = sl_count st \<and> sl_slice_bytes st' = sl_slice_bytes st"

lemma step_ok_refl: "lease_wf st \<Longrightarrow> step_ok st h st h"
  by (simp add: step_ok_def)

lemma step_ok_trans: "step_ok a ha b hb \<Longrightarrow> step_ok b hb c hc \<Longrightarrow> step_ok a ha c hc"
  unfolding step_ok_def using later_than_trans by metis

lemma reserve_ok:
  assumes wf: "lease_wf st" and r: "reserve_range_locked u b m ex n st h = (st', h', resp)"
  shows "step_ok st h st' h'"
proof (cases rule: reserve_cases [OF wf, of u b m ex n h])
  case (1 what)
  then show ?thesis using r wf by (simp add: step_ok_refl)
next
  case (2 i)
  then show ?thesis using r wf by (simp add: step_ok_refl)
next
  case (3 i k st1 h1)
  then have e: "st' = st1" "h' = h1" using r by simp_all
  have "sl_next_epoch st' = sl_next_epoch st + 1" "sl_store st' = sl_store st" "sl_matched st' = sl_matched st"
      "sl_count st' = sl_count st" "sl_slice_bytes st' = sl_slice_bytes st" using 3(2) e by simp_all
  moreover have "\<exists>u x. lease_map st' = (lease_map st)(u \<mapsto> x) \<and> ls_epoch x = sl_next_epoch st"
    using 3(5) e by (metis new_slot_def lease_slot.select_convs(4))
  ultimately show ?thesis
    using 3(3,4,8) e spend_epoch [of st st'] in_sync_saved [of st h st' h'] unfolding step_ok_def by blast
next
  case (4 h1)
  let ?st = "st\<lparr> sl_next_epoch := sl_next_epoch st + 1 \<rparr>"
  have e: "st' = ?st" "h' = h1" using r 4(1) by simp_all
  have "lease_map ?st = lease_map st" by (simp add: lease_map_def)
  moreover have "lease_wf ?st" using wf lease_wf_cong [of ?st st] by simp
  moreover have "in_sync ?st h1 = in_sync st h" using 4(2) by (intro in_sync_cong) simp_all
  ultimately show ?thesis using 4(3) spend_epoch [of st ?st] e unfolding step_ok_def by simp
qed

lemma append_camera_ok:
  assumes wf: "lease_wf st" and cam: "camera_wf cam" and t: "\<And>t. ticket = Some t \<Longrightarrow> virt_camera_ticket_ok t"
    and r: "append_camera_locked u ticket intent n resp st cam h = (st', cam', h', resp')"
  shows "step_ok st h st' h'" "camera_wf cam'"
proof -
  have "step_ok st h st' h' \<and> camera_wf cam'"
  proof (cases rule: append_camera_cases [OF wf cam t r])
    case (1 t)
    then show ?case .
  next
    case 2
    then show ?thesis using wf cam in_sync_cong [of st st h' h] by (simp add: step_ok_def)
  next
    case (3 t i)
    have f: "sl_matched st' = sl_matched st" "sl_count st' = sl_count st" "sl_slice_bytes st' = sl_slice_bytes st"
      "sl_next_epoch st' = sl_next_epoch st" "sl_store st' = sl_store st" using 3(5) by (simp_all add: same_frame_def)
    have "lease_map st u = Some (sl_slots st ! i)" using find_uuid_SomeD(4) [OF 3(2)] by (simp add: lease_map_def)
    then have "\<exists>s. lease_map st v = Some s \<and> ls_index s' = ls_index s \<and> ls_epoch s' = ls_epoch s" if "lease_map st' v = Some s'" for v s'
      using that 3(7) by (cases "v = u") (auto simp: recorded_slot_def)
    then show ?thesis
      using 3(3,4,8) f same_leases_later [of st' st] in_sync_saved [of st h st' h'] unfolding step_ok_def by blast
  qed
  then show "step_ok st h st' h'" "camera_wf cam'" by blast+
qed

lemma release_ok:
  assumes wf: "lease_wf st" and r: "release_locked_sl u e n st h = (st', h', resp)"
  shows "step_ok st h st' h'"
proof (cases rule: release_cases [OF wf, of u e n h])
  case (1 what)
  then show ?thesis using r wf by (simp add: step_ok_refl)
next
  case (2 i st1 h1)
  then have e: "st' = st1" "h' = h1" using r by simp_all
  have f: "sl_matched st' = sl_matched st" "sl_count st' = sl_count st" "sl_slice_bytes st' = sl_slice_bytes st"
      "sl_next_epoch st' = sl_next_epoch st" "sl_store st' = sl_store st" using 2(4) e by (simp_all split: if_splits)
  have "\<exists>s. lease_map st v = Some s \<and> ls_index s' = ls_index s \<and> ls_epoch s' = ls_epoch s" if "lease_map st' v = Some s'" for v s'
    using that 2(6) e by (cases "v = u") auto
  then show ?thesis
    using 2(5,7) e f same_leases_later [of st' st] in_sync_saved [of st h st' h'] unfolding step_ok_def by blast
next
  case (3 h1)
  then show ?thesis using r wf in_sync_cong [of st st h1 h] by (simp add: step_ok_def)
qed

lemma admin_ok:
  assumes wf: "lease_wf st" and cam: "camera_wf cam" and r: "virt_slice_lease_admin req n st cam h = (st', cam', h', rc, resp)"
  shows "step_ok st h st' h'" "camera_wf cam'"
proof -
  have "step_ok st h st' h' \<and> camera_wf cam'"
  proof (cases rule: admin_cases_sl [OF r])
    case 1
    then show ?thesis using wf cam by (simp add: step_ok_refl)
  next
    case (2 u b m ex ticket intent)
    obtain st1 h1 resp1 where s: "reserve_range_locked u b m ex n st h = (st1, h1, resp1)" by (metis prod_cases3)
    then have a: "append_camera_locked u ticket intent n resp1 st1 cam h1 = (st', cam', h', resp)"
      using 2(1) by (simp add: reserve_with_camera_def)
    have s1: "step_ok st h st1 h1" by (rule reserve_ok [OF wf s])
    then have "lease_wf st1" by (simp add: step_ok_def)
    then show ?thesis using append_camera_ok [OF _ cam 2(2) a] step_ok_trans [OF s1] by blast
  next
    case (3 u e)
    then show ?thesis using release_ok [OF wf] cam by blast
  qed
  then show "step_ok st h st' h'" "camera_wf cam'" by blast+
qed

section \<open>Runs\<close>

lemma lease_step_wf:
  assumes "lease_wf st" "camera_wf cam" "lease_step op (st, cam, h) = (st', cam', h')"
  shows "lease_wf st' \<and> camera_wf cam'"
proof (cases op)
  case (Lease_Admin req n)
  then obtain rc resp where "virt_slice_lease_admin req n st cam h = (st', cam', h', rc, resp)"
    using assms(3) by (auto split: prod.splits)
  then show ?thesis using admin_ok [OF assms(1,2)] by (auto simp: step_ok_def)
next
  case (Lease_Geometry m c b)
  then show ?thesis using assms set_geometry_wf [OF assms(1), of m c b h] by (auto split: prod.splits)
next
  case (Lease_Hooks a d)
  then show ?thesis using assms lease_wf_cong [of st' st] by (auto simp: virt_slice_lease_set_aux_hooks_def)
next
  case (Lease_Store p)
  then have "st' = virt_slice_lease_set_store p st" "cam' = cam" using assms(3) by auto
  then show ?thesis using assms lease_wf_cong [of st' st]
    by (auto simp: virt_slice_lease_set_store_def split: option.splits if_splits)
next
  case Lease_Load
  then show ?thesis using assms load_wf_sl by auto
next
  case (Lease_Camera op')
  then show ?thesis using assms camera_step_wf [of cam op' h] by (auto split: prod.splits)
qed

lemma lease_run_wf:
  "lease_wf st \<Longrightarrow> camera_wf cam \<Longrightarrow> lease_run ops (st, cam, h) = (st', cam', h') \<Longrightarrow> lease_wf st' \<and> camera_wf cam'"
proof (induction ops arbitrary: st cam h)
  case (Cons op ops)
  obtain st1 cam1 h1 where s: "lease_step op (st, cam, h) = (st1, cam1, h1)" by (metis prod_cases3)
  then show ?case using Cons.IH [of st1 cam1 h1] Cons.prems lease_step_wf [OF Cons.prems(1,2) s] by simp
qed simp

definition admin_only :: "lease_op list \<Rightarrow> bool" where
  "admin_only ops \<longleftrightarrow> list_all (\<lambda>op. case op of Lease_Admin _ _ \<Rightarrow> True | Lease_Hooks _ _ \<Rightarrow> True | _ \<Rightarrow> False) ops"

lemma lease_run_ok:
  "lease_wf st \<Longrightarrow> camera_wf cam \<Longrightarrow> admin_only ops \<Longrightarrow> lease_run ops (st, cam, h) = (st', cam', h') \<Longrightarrow> step_ok st h st' h'"
proof (induction ops arbitrary: st cam h)
  case Nil
  then show ?case by (simp add: step_ok_refl)
next
  case (Cons op ops)
  obtain st1 cam1 h1 where s: "lease_step op (st, cam, h) = (st1, cam1, h1)" by (metis prod_cases3)
  have w: "lease_wf st1" "camera_wf cam1" using lease_step_wf [OF Cons.prems(1,2) s] by blast+
  have "step_ok st h st1 h1"
  proof (cases op)
    case (Lease_Admin req n)
    then obtain rc resp where "virt_slice_lease_admin req n st cam h = (st1, cam1, h1, rc, resp)"
      using s by (auto split: prod.splits)
    then show ?thesis using admin_ok [OF Cons.prems(1,2)] by blast
  next
    case (Lease_Hooks a d)
    then have e: "st1 = st\<lparr> sl_attach := a, sl_detach := d \<rparr>" "h1 = h" using s by (auto simp: virt_slice_lease_set_aux_hooks_def)
    then show ?thesis using w(1) by (simp add: step_ok_def later_than_def epochs_spent_def in_sync_def lease_map_def lease_text_def)
  qed (use Cons.prems(3) in \<open>simp_all add: admin_only_def\<close>)
  moreover have "step_ok st1 h1 st' h'"
    using Cons.IH [OF w] Cons.prems(3,4) s by (simp add: admin_only_def)
  ultimately show ?case by (rule step_ok_trans)
qed

end
