(* ===== verification/Slice_Lease_Props.thy ===== *)
theory Slice_Lease_Props
  imports Slice_Lease_Steps "HOL-Library.Code_Target_Nat"
begin

text \<open>
  The properties of the slice leases, stated over command lines and sequences of operations, with a concrete
  instance of each.
\<close>

section \<open>Exclusive leases\<close>

text \<open>
  C5: after any sequence of admin commands, geometry changes, loads of any store, hook registrations and
  camera policy operations, with any file system failures, no UUID and no slice index is leased twice, and
  while the geometry is matched every lease is inside it and has its size.
\<close>

theorem leases_exclusive:
  assumes run: "lease_run ops (virt_slice_lease_reset st0, virt_camera_policy_reset, h) = (st, cam, h')"
    and i: "i < length (sl_slots st)" "ls_in_use (sl_slots st ! i)"
  shows "(\<forall>j < length (sl_slots st). ls_in_use (sl_slots st ! j) \<longrightarrow>
      ls_uuid (sl_slots st ! j) = ls_uuid (sl_slots st ! i) \<or> ls_index (sl_slots st ! j) = ls_index (sl_slots st ! i) \<longrightarrow> j = i) \<and>
    (sl_matched st \<longrightarrow> ls_index (sl_slots st ! i) < sl_count st \<and> unat (sl_count st) \<le> 8 \<and>
      ls_bytes (sl_slots st ! i) = sl_slice_bytes st)"
proof -
  have wf: "lease_wf st" using lease_run_wf [OF lease_wf_reset camera_wf_reset run] by blast
  have u: "unique_keys ls_in_use ls_uuid (sl_slots st)" "unique_keys ls_in_use ls_index (sl_slots st)"
    using wf by (simp_all add: lease_wf_def)
  have "j = i" if "j < length (sl_slots st)" "ls_in_use (sl_slots st ! j)"
      "ls_uuid (sl_slots st ! j) = ls_uuid (sl_slots st ! i) \<or> ls_index (sl_slots st ! j) = ls_index (sl_slots st ! i)" for j
    using unique_keys_nth [OF u(1)] unique_keys_nth [OF u(2)] i that by metis
  moreover have "ls_index (sl_slots st ! i) < sl_count st \<and> unat (sl_count st) \<le> 8 \<and> ls_bytes (sl_slots st ! i) = sl_slice_bytes st"
    if "sl_matched st"
    using wf that i by (simp add: lease_wf_def geometry_ok_def list_all_length in_geometry_def)
  ultimately show ?thesis by blast
qed

definition lease_boot :: lease_state where
  "lease_boot = virt_slice_lease_reset \<lparr> sl_slots = [], sl_attach = None, sl_detach = False, sl_calls = [], sl_matched = False,
     sl_count = 0, sl_slice_bytes = 0, sl_next_epoch = 0, sl_store = [] \<rparr>"

definition demo_geometry :: lease_op where
  "demo_geometry = Lease_Geometry True 3 0x1000"

definition demo_reserve :: "string \<Rightarrow> lease_op" where
  "demo_reserve u = Lease_Admin (Some (''RESERVE_SLICE '' @ u @ '' 4096'')) 512"

definition demo_leases :: "lease_op list" where
  "demo_leases = [demo_geometry, demo_reserve ''aa'', demo_reserve ''bb'']"

theorem leases_exclusive_witness:
  "\<exists>st cam h'. lease_run demo_leases (virt_slice_lease_reset lease_boot, virt_camera_policy_reset, empty_host) = (st, cam, h') \<and>
     ls_in_use (sl_slots st ! 0) \<and> ls_in_use (sl_slots st ! 1) \<and> ls_index (sl_slots st ! 0) \<noteq> ls_index (sl_slots st ! 1) \<and>
     ls_index (sl_slots st ! 1) < sl_count st"
proof -
  let ?r = "lease_run demo_leases (virt_slice_lease_reset lease_boot, virt_camera_policy_reset, empty_host)"
  have f: "case ?r of (st, cam, h') \<Rightarrow> length (sl_slots st) = 8 \<and> ls_in_use (sl_slots st ! 0) \<and> ls_in_use (sl_slots st ! 1) \<and> sl_matched st"
    by code_simp
  obtain st cam h' where r: "?r = (st, cam, h')" by (metis prod_cases3)
  have i: "1 < length (sl_slots st)" "ls_in_use (sl_slots st ! 1)" "0 < length (sl_slots st)" "ls_in_use (sl_slots st ! 0)" "sl_matched st"
    using f unfolding r prod.case by linarith+
  note x = leases_exclusive [OF r i(1,2)]
  then have "ls_index (sl_slots st ! 0) \<noteq> ls_index (sl_slots st ! 1)" using i(3,4) by (metis zero_neq_one)
  then show ?thesis using r i x by blast
qed

section \<open>Reserve\<close>

lemma parse_u64_dec64: "parse_u64 (dec64 v) = Some v"
  using strtoull_dec [OF unat_u64_less, of "[]" v] by (simp add: parse_u64_def dec64_def)

lemma dec64_word: "dec64 v \<noteq> []" "length (dec64 v) \<le> 63" "\<And>c. c \<in> set (dec64 v) \<Longrightarrow> \<not> isspace c"
  using length_dec64 [of v] dec_digits [of _ "unat v"] isdigit_not_space by (auto simp: dec64_def)

lemma lease_command_words:
  assumes "uuid_ok u" "cmd \<noteq> []" "length cmd \<le> 63" "\<And>c. c \<in> set cmd \<Longrightarrow> \<not> isspace c"
  shows "scan_words 7 63 (cmd @ sp # u @ sp # dec64 v) = [cmd, u, dec64 v]"
proof -
  have seven: "(7::nat) = Suc (Suc (Suc 4))" by simp
  have "scan_words 7 63 (cmd @ sp # u @ sp # dec64 v) = cmd # scan_words (Suc (Suc 4)) 63 (u @ sp # dec64 v)"
    unfolding seven using assms(2-4) by (rule scan_words_Cons)
  also have "scan_words (Suc (Suc 4)) 63 (u @ sp # dec64 v) = u # scan_words (Suc 4) 63 (dec64 v)"
    using uuid_chars [OF assms(1)] by (intro scan_words_Cons) auto
  also have "scan_words (Suc 4) 63 (dec64 v) = [dec64 v]" by (rule scan_words_last [OF dec64_word])
  finally show ?thesis .
qed

definition ok_reply :: "lease_slot \<Rightarrow> string" where
  "ok_reply s = ''OK index='' @ dec32 (ls_index s) @ '' path=/dev/amba_virt_shm'' @ dec32 (ls_index s) @
     '' epoch='' @ dec64 (ls_epoch s) @ verdict_text zero_verdict @ [nl]"

lemma length_format_ok: "length (format_ok_text s) \<le> 90"
  using length_dec32 [of "ls_index s"] length_dec64 [of "ls_epoch s"] by (simp add: format_ok_text_def)

lemma zero_verdict_fits: "length (verdict_text zero_verdict) < 100"
  by code_simp

lemma format_ok_reply:
  assumes "256 \<le> n"
  shows "snprintf n (format_ok_text s) = format_ok_text s" "starts_ok (format_ok_text s)"
    "add_suffix (verdict_text zero_verdict) n (format_ok_text s) = ok_reply s"
proof -
  show "snprintf n (format_ok_text s) = format_ok_text s" using assms length_format_ok [of s] by (simp add: snprintf_def)
  show "starts_ok (format_ok_text s)" by (simp add: starts_ok_def format_ok_text_def)
  have "format_ok_text s \<noteq> [] \<and> last (format_ok_text s) = nl" by (simp add: format_ok_text_def)
  moreover have "length (butlast (format_ok_text s)) + length (verdict_text zero_verdict) + 2 \<le> n"
    using assms length_format_ok [of s] zero_verdict_fits by simp
  moreover have "butlast (format_ok_text s) @ verdict_text zero_verdict @ [nl] = ok_reply s"
    by (simp add: format_ok_text_def ok_reply_def butlast_append)
  ultimately show "add_suffix (verdict_text zero_verdict) n (format_ok_text s) = ok_reply s"
    unfolding add_suffix_def by (simp add: Let_def not_less [symmetric])
qed

lemma plain_verdict:
  "append_camera_locked u None intent n resp st cam h =
     (st, cam, h, if starts_ok resp \<and> find_uuid_sl u (sl_slots st) \<noteq> None then add_suffix (verdict_text zero_verdict) n resp else resp)"
  using zero_verdict_fits by (auto simp: append_camera_locked_def virt_camera_verdict_format_def split: option.splits)

lemma err_fits: "256 \<le> n \<Longrightarrow> length w < 100 \<Longrightarrow> snprintf n (ERR w) = ERR w"
  by (simp add: snprintf_def ERR_def)

lemma err_not_ok: "\<not> starts_ok (snprintf n (ERR what))" "\<not> starts_ok (ERR what)" "''OK'' @ [nl] \<noteq> ERR what"
  by (cases n; cases "n - 1") (auto simp: starts_ok_def snprintf_def ERR_def)

text \<open>
  C26: \<open>RESERVE_SLICE\<close> for a valid UUID and the configured slice size. A domain that holds a lease gets that
  lease again and nothing changes. Otherwise it gets the lowest index no lease has, with the next epoch, and
  the reply names it; or the reply is \<open>ERR EXHAUSTED\<close>, only when every index of the geometry is leased or
  every epoch is spent; or \<open>ERR PERSIST\<close>, and then no lease has changed.
\<close>

theorem reserve_command:
  assumes wf: "lease_wf st" and geo: "sl_matched st" "b = sl_slice_bytes st" and u: "uuid_ok u" and n: "256 \<le> n"
    and r: "virt_slice_lease_admin (Some (''RESERVE_SLICE '' @ u @ '' '' @ dec64 b)) n st cam h = (st', cam', h', rc, resp)"
  shows "case lease_map st u of
      Some s \<Rightarrow> resp = ok_reply s \<and> st' = st
    | None \<Rightarrow>
        (\<exists>k s. k < sl_count st \<and> (\<forall>v s. lease_map st v = Some s \<longrightarrow> ls_index s \<noteq> k) \<and>
           (\<forall>j < k. \<exists>v s. lease_map st v = Some s \<and> ls_index s = j) \<and> s = new_slot u k (sl_next_epoch st) b \<and>
           lease_map st' = (lease_map st)(u \<mapsto> s) \<and> resp = ok_reply s)
      \<or> resp = ERR ''EXHAUSTED'' \<and> st' = st \<and>
          (sl_next_epoch st = 0 \<or> (\<forall>j < sl_count st. \<exists>v s. lease_map st v = Some s \<and> ls_index s = j))
      \<or> resp = ERR ''PERSIST'' \<and> lease_map st' = lease_map st"
proof -
  have "scan_words 7 63 (''RESERVE_SLICE'' @ sp # u @ sp # dec64 b) = [''RESERVE_SLICE'', u, dec64 b]"
    by (rule lease_command_words [OF u]) (auto simp: isspace_def code_of_def)
  then have ws: "scan_words 7 63 (''RESERVE_SLICE '' @ u @ '' '' @ dec64 b) = [''RESERVE_SLICE'', u, dec64 b]" by simp
  obtain st1 h1 resp1 where s: "reserve_range_locked u b 0 False n st h = (st1, h1, resp1)" by (metis prod_cases3)
  have "reserve_with_camera u b 0 False None INTENT_ABSENT n st cam h = (st', cam', h', resp)"
    using r n ws unfolding virt_slice_lease_admin_def
    by (simp add: field_def parse_u64_dec64 Let_def del: append_Cons split: prod.splits)
  then have a: "st' = st1" "resp = (if starts_ok resp1 \<and> find_uuid_sl u (sl_slots st1) \<noteq> None
      then add_suffix (verdict_text zero_verdict) n resp1 else resp1)"
    using s by (auto simp: reserve_with_camera_def plain_verdict)
  have taken: "index_taken_sl j (sl_slots st) \<longleftrightarrow> (\<exists>v s. lease_map st v = Some s \<and> ls_index s = j)" for j
    using wf unfolding index_taken_sl_def list_ex_iff lease_map_def lease_wf_def
    by (metis uuid_table.slot_of_iff in_set_conv_nth)
  note err = err_fits [OF n]
  show ?thesis
  proof (cases rule: reserve_cases [OF wf, of u b 0 False n h])
    case (1 what)
    note e = 1(2) [OF geo(1) u geo(2)]
    then have m: "lease_map st u = None" using find_uuid_None by (simp add: lease_map_def)
    have "resp = ERR ''EXHAUSTED''" "st' = st" using a s 1(1) e err_not_ok err by auto
    moreover have "sl_next_epoch st = 0 \<or> (\<forall>j < sl_count st. \<exists>v s. lease_map st v = Some s \<and> ls_index s = j)"
      using e pick_index_None [of 0 False st] by (auto simp: taken)
    ultimately show ?thesis using m by simp
  next
    case (2 i)
    have "lease_map st u = Some (sl_slots st ! i)" using find_uuid_SomeD(4) [OF 2(2)] by (simp add: lease_map_def)
    moreover have "st1 = st" "resp1 = format_ok_text (sl_slots st ! i)" using s 2(1) format_ok_reply(1) [OF n] by auto
    ultimately show ?thesis using a 2(2) format_ok_reply(2,3) [OF n, of "sl_slots st ! i"] by simp
  next
    case (3 i k st2 h2)
    let ?s = "new_slot u k (sl_next_epoch st) b"
    have e: "st' = st2" "resp = ok_reply ?s" using a s 3(1,11) format_ok_reply [OF n, of ?s] by auto
    have "k < sl_count st" "\<not> index_taken_sl k (sl_slots st)" "\<forall>j<k. index_taken_sl j (sl_slots st)"
      using pick_index_Some(1,2,5) [OF 3(7)] by auto
    then show ?thesis unfolding taken using e 3(5,6) by (simp only: option.case) blast
  next
    case (4 h2)
    have e: "st' = st\<lparr> sl_next_epoch := sl_next_epoch st + 1 \<rparr>" "resp = ERR ''PERSIST''"
      using a s 4(1) err_not_ok err by auto
    then show ?thesis using 4(4) by (simp add: lease_map_def)
  qed
qed

definition demo_table :: lease_state where
  "demo_table = fst (virt_slice_lease_set_geometry True 3 0x1000 (virt_slice_lease_reset lease_boot) empty_host)"

lemma demo_table_wf: "lease_wf demo_table"
  unfolding demo_table_def by (rule set_geometry_wf [OF lease_wf_reset])

lemma demo_table_state: "sl_matched demo_table" "sl_slice_bytes demo_table = 0x1000" "sl_count demo_table = 3" "uuid_ok ''aa''"
    "dec64 0x1000 = ''4096''"
  by code_simp+

lemma demo_table_empty: "lease_map demo_table u = None"
proof -
  have "sl_slots demo_table = replicate 8 zero_slot" by code_simp
  then show ?thesis by (simp add: lease_map_def slot_of_def find_None_iff)
qed

definition demo_request :: "string option" where
  "demo_request = Some (''RESERVE_SLICE '' @ ''aa'' @ '' '' @ ''4096'')"

theorem reserve_command_witness:
  "\<exists>st' cam' h' rc s. virt_slice_lease_admin demo_request 512 demo_table virt_camera_policy_reset empty_host = (st', cam', h', rc, ok_reply s) \<and>
     lease_map st' ''aa'' = Some s \<and> ls_index s < 3"
proof -
  let ?a = "virt_slice_lease_admin demo_request 512 demo_table virt_camera_policy_reset empty_host"
  have ok: "case ?a of (st', cam', h', rc, resp) \<Rightarrow> take 2 resp = ''OK''" by code_simp
  obtain st' cam' h' rc resp where a: "?a = (st', cam', h', rc, resp)" by (metis prod_cases5)
  have "resp \<noteq> ERR w" for w using ok unfolding a by (auto simp: ERR_def)
  moreover have a': "virt_slice_lease_admin (Some (''RESERVE_SLICE '' @ ''aa'' @ '' '' @ dec64 0x1000)) 512 demo_table
      virt_camera_policy_reset empty_host = (st', cam', h', rc, resp)"
    using a unfolding demo_request_def demo_table_state(5) .
  ultimately obtain s where "lease_map st' ''aa'' = Some s" "resp = ok_reply s" "ls_index s < 3"
    using reserve_command [OF demo_table_wf demo_table_state(1) demo_table_state(2) [symmetric] demo_table_state(4) _ a']
    by (auto simp: demo_table_empty demo_table_state(3) new_slot_def)
  then show ?thesis using a by blast
qed

section \<open>Release\<close>








section \<open>Restarts\<close>









end
