(* ===== verification/Slice_Lease_Aux.thy ===== *)
theory Slice_Lease_Aux
  imports Slice_Lease_Props
begin

text \<open>
  The aux aperture and the replies of the slice leases, and what loading a store does to epochs and tickets.
\<close>

section \<open>Who gets the aux aperture\<close>







section \<open>Replies\<close>

lemma add_suffix_fits: "length resp < n \<Longrightarrow> length (add_suffix s n resp) < n"
  by (auto simp: add_suffix_def Let_def)

lemma snprintf_fits: "0 < n \<Longrightarrow> length (snprintf n msg) < n"
  by (simp add: snprintf_def)

lemma append_camera_fits:
  assumes "length resp < n"
  shows "length (snd (snd (snd (append_camera_locked u ticket intent n resp st cam h)))) < n"
proof -
  have n: "0 < n" using assms by simp
  show ?thesis
    unfolding append_camera_locked_def Let_def
    by (simp add: assms add_suffix_fits snprintf_fits [OF n] split: option.split prod.split)
qed

lemma reserve_fits: "0 < n \<Longrightarrow> length (snd (snd (reserve_range_locked u b m ex n st h))) < n"
  unfolding reserve_range_locked_def Let_def by (simp add: snprintf_fits split: option.split prod.split)

lemma release_fits: "0 < n \<Longrightarrow> length (snd (snd (release_locked_sl u e n st h))) < n"
  unfolding release_locked_sl_def Let_def by (simp add: snprintf_fits split: option.split prod.split)

lemma query_fits: "0 < n \<Longrightarrow> length (query_locked u n st) < n"
  unfolding query_locked_def by (simp add: snprintf_fits split: option.split)

text \<open>
  C29: every lease command with a reply buffer returns 0 and a reply that fits the buffer with its NUL, for
  every command line, table, camera verdict, hook result and file system failure: the camera suffix is added
  whole or not at all. Without a buffer the call returns -1 and changes nothing.
\<close>

theorem lease_reply_fits:
  "case virt_slice_lease_admin req n st cam h of (st', cam', h', rc, resp) \<Rightarrow>
     if n = 0 then rc = - 1 \<and> st' = st \<and> cam' = cam \<and> h' = h else rc = 0 \<and> length resp < n"
proof (cases "n = 0")
  case False
  then have n: "0 < n" by simp
  have w: "length (snd (snd (snd (reserve_with_camera u b m ex t i n st cam h)))) < n" for u b m ex t i
    unfolding reserve_with_camera_def using append_camera_fits reserve_fits [OF n] by (simp add: split_beta Let_def)
  have l: "length r < n" if "reserve_with_camera u b m ex t i n st cam h = (a, c, g, r)" for u b m ex t i a c g r
    using w [of u b m ex t i] that by simp
  have e: "length r < n" if "release_locked_sl u e n st h = (a, g, r)" for u e a g r
    using release_fits [OF n, of u e st h] that by simp
  show ?thesis
    using False unfolding virt_slice_lease_admin_def Let_def
    by (auto simp: snprintf_fits [OF n] query_fits [OF n] split: option.split prod.split if_split dest: l e)
qed (simp add: virt_slice_lease_admin_def)

section \<open>What a load does to epochs and tickets\<close>




end
