(* ===== verification/Hmac_Sha256.thy ===== *)
theory Hmac_Sha256
  imports Virt_Prelude
begin

text \<open>
  Model of \<open>tools/hmac_sha256.c\<close>: SHA-256 with its block buffer, HMAC-SHA-256 and HKDF-SHA-256, on lists of
  bytes. Pointers with a length are lists, a NULL pointer is \<open>None\<close>. Lengths are \<open>size_t\<close>: the byte counter
  is the 64-bit word of the source. The counter of the expand loop is the \<open>uint8_t\<close> of the source, so that
  loop is a \<open>partial_function\<close>.
\<close>

section \<open>Compression\<close>

definition ROTR :: "u32 \<Rightarrow> nat \<Rightarrow> u32" where
  "ROTR x n = drop_bit n x OR push_bit (32 - n) x"

definition CH :: "u32 \<Rightarrow> u32 \<Rightarrow> u32 \<Rightarrow> u32" where
  "CH x y z = (x AND y) XOR (NOT x AND z)"

definition MAJ :: "u32 \<Rightarrow> u32 \<Rightarrow> u32 \<Rightarrow> u32" where
  "MAJ x y z = (x AND y) XOR (x AND z) XOR (y AND z)"

definition SIGMA0 :: "u32 \<Rightarrow> u32" where
  "SIGMA0 x = ROTR x 2 XOR ROTR x 13 XOR ROTR x 22"

definition SIGMA1 :: "u32 \<Rightarrow> u32" where
  "SIGMA1 x = ROTR x 6 XOR ROTR x 11 XOR ROTR x 25"

definition sigma0 :: "u32 \<Rightarrow> u32" where
  "sigma0 x = ROTR x 7 XOR ROTR x 18 XOR drop_bit 3 x"

definition sigma1 :: "u32 \<Rightarrow> u32" where
  "sigma1 x = ROTR x 17 XOR ROTR x 19 XOR drop_bit 10 x"

text \<open>The table in the sixteen rows the source writes it in.\<close>

definition K_table :: "u32 list" where
  "K_table = concat [
     [0x428a2f98, 0x71374491, 0xb5c0fbcf, 0xe9b5dba5],
     [0x3956c25b, 0x59f111f1, 0x923f82a4, 0xab1c5ed5],
     [0xd807aa98, 0x12835b01, 0x243185be, 0x550c7dc3],
     [0x72be5d74, 0x80deb1fe, 0x9bdc06a7, 0xc19bf174],
     [0xe49b69c1, 0xefbe4786, 0x0fc19dc6, 0x240ca1cc],
     [0x2de92c6f, 0x4a7484aa, 0x5cb0a9dc, 0x76f988da],
     [0x983e5152, 0xa831c66d, 0xb00327c8, 0xbf597fc7],
     [0xc6e00bf3, 0xd5a79147, 0x06ca6351, 0x14292967],
     [0x27b70a85, 0x2e1b2138, 0x4d2c6dfc, 0x53380d13],
     [0x650a7354, 0x766a0abb, 0x81c2c92e, 0x92722c85],
     [0xa2bfe8a1, 0xa81a664b, 0xc24b8b70, 0xc76c51a3],
     [0xd192e819, 0xd6990624, 0xf40e3585, 0x106aa070],
     [0x19a4c116, 0x1e376c08, 0x2748774c, 0x34b0bcb5],
     [0x391c0cb3, 0x4ed8aa4a, 0x5b9cca4f, 0x682e6ff3],
     [0x748f82ee, 0x78a5636f, 0x84c87814, 0x8cc70208],
     [0x90befffa, 0xa4506ceb, 0xbef9a3f7, 0xc67178f2]]"

record sha256_ctx =
  sc_state :: "u32 list"
  sc_count :: u64
  sc_buffer :: "u8 list"

definition be32 :: "u8 list \<Rightarrow> nat \<Rightarrow> u32" where
  "be32 d j = push_bit 24 (ucast (d ! j)) OR push_bit 16 (ucast (d ! (j + 1))) OR
     push_bit 8 (ucast (d ! (j + 2))) OR ucast (d ! (j + 3))"

definition sha256_schedule :: "u8 list \<Rightarrow> u32 list" where
  "sha256_schedule d =
     foldl (\<lambda>W i. W @ [sigma1 (W ! (i - 2)) + W ! (i - 7) + sigma0 (W ! (i - 15)) + W ! (i - 16)])
       (map (\<lambda>i. be32 d (i * 4)) [0..<16]) [16..<64]"

type_synonym sha_regs = "u32 \<times> u32 \<times> u32 \<times> u32 \<times> u32 \<times> u32 \<times> u32 \<times> u32"

definition sha256_round :: "u32 \<Rightarrow> u32 \<Rightarrow> sha_regs \<Rightarrow> sha_regs" where
  "sha256_round k w r =
     (case r of (a, b, c, d, e, f, g, h) \<Rightarrow>
        let T1 = h + SIGMA1 e + CH e f g + k + w;
            T2 = SIGMA0 a + MAJ a b c
        in (T1 + T2, a, b, c, d + T1, e, f, g))"

definition sha256_transform :: "u8 list \<Rightarrow> sha256_ctx \<Rightarrow> sha256_ctx" where
  "sha256_transform data ctx =
     (let W = sha256_schedule data; s = sc_state ctx in
      case foldl (\<lambda>r i. sha256_round (K_table ! i) (W ! i) r)
             (s ! 0, s ! 1, s ! 2, s ! 3, s ! 4, s ! 5, s ! 6, s ! 7) [0..<64] of
        (a, b, c, d, e, f, g, h) \<Rightarrow>
          ctx\<lparr> sc_state := [s ! 0 + a, s ! 1 + b, s ! 2 + c, s ! 3 + d, s ! 4 + e, s ! 5 + f, s ! 6 + g, s ! 7 + h] \<rparr>)"

section \<open>SHA-256\<close>

definition sha256_zero :: sha256_ctx where
  "sha256_zero = \<lparr> sc_state = replicate 8 0, sc_count = 0, sc_buffer = replicate 64 0 \<rparr>"

text \<open>\<open>sha256_init\<close> does not write the block buffer: it keeps what is there.\<close>

definition sha256_init :: "sha256_ctx \<Rightarrow> sha256_ctx" where
  "sha256_init ctx = ctx\<lparr>
     sc_state := [0x6a09e667, 0xbb67ae85, 0x3c6ef372, 0xa54ff53a, 0x510e527f, 0x9b05688c, 0x1f83d9ab, 0x5be0cd19],
     sc_count := 0 \<rparr>"

text \<open>\<open>memcpy (&buf[i], xs, length xs)\<close>.\<close>

definition put_bytes :: "nat \<Rightarrow> u8 list \<Rightarrow> u8 list \<Rightarrow> u8 list" where
  "put_bytes i xs buf = take i buf @ xs @ drop (i + length xs) buf"

function sha256_fill :: "nat \<Rightarrow> u8 list \<Rightarrow> sha256_ctx \<Rightarrow> sha256_ctx" where
  "sha256_fill buf_idx p ctx =
     (if p = [] then ctx
      else let to_fill = 64 - buf_idx in
        if length p < to_fill then ctx\<lparr> sc_buffer := put_bytes buf_idx p (sc_buffer ctx) \<rparr>
        else
          let buf = put_bytes buf_idx (take to_fill p) (sc_buffer ctx)
          in sha256_fill 0 (drop to_fill p) (sha256_transform buf (ctx\<lparr> sc_buffer := buf \<rparr>)))"
  by auto
termination by (relation "measures [\<lambda>(i, p, c). length p, \<lambda>(i, p, c). i]") auto

declare sha256_fill.simps [simp del]

definition sha256_update :: "u8 list \<Rightarrow> sha256_ctx \<Rightarrow> sha256_ctx" where
  "sha256_update data ctx =
     (let buf_idx = unat (sc_count ctx AND 0x3f)
      in sha256_fill buf_idx data (ctx\<lparr> sc_count := sc_count ctx + of_nat (length data) \<rparr>))"

definition be64 :: "u64 \<Rightarrow> u8 list" where
  "be64 v = map (\<lambda>i. ucast (drop_bit (i * 8) v AND 0xff)) [7, 6, 5, 4, 3, 2, 1, 0]"

definition digest_bytes :: "u32 list \<Rightarrow> u8 list" where
  "digest_bytes s = concat (map (\<lambda>i.
     [ucast (drop_bit 24 (s ! i) AND 0xff), ucast (drop_bit 16 (s ! i) AND 0xff),
      ucast (drop_bit 8 (s ! i) AND 0xff), ucast (s ! i AND 0xff)]) [0..<8])"

definition sha256_final :: "sha256_ctx \<Rightarrow> sha256_ctx \<times> u8 list" where
  "sha256_final ctx =
     (let total_bits = sc_count ctx * 8;
          buf_idx = unat (sc_count ctx AND 0x3f);
          buf = put_bytes buf_idx [0x80] (sc_buffer ctx);
          buf_idx = buf_idx + 1;
          (buf_idx, ctx1) =
            (if buf_idx > 56 then
               let b = put_bytes buf_idx (replicate (64 - buf_idx) 0) buf
               in (0, sha256_transform b (ctx\<lparr> sc_buffer := b \<rparr>))
             else (buf_idx, ctx\<lparr> sc_buffer := buf \<rparr>));
          b = put_bytes buf_idx (replicate (56 - buf_idx) 0) (sc_buffer ctx1);
          b = put_bytes 56 (be64 total_bits) b;
          ctx2 = sha256_transform b (ctx1\<lparr> sc_buffer := b \<rparr>)
      in (sha256_zero, digest_bytes (sc_state ctx2)))"

definition sha256 :: "sha256_ctx \<Rightarrow> u8 list \<Rightarrow> u8 list" where
  "sha256 stack data = snd (sha256_final (sha256_update data (sha256_init stack)))"

section \<open>HMAC\<close>

record hmac_ctx =
  hc_inner :: sha256_ctx
  hc_outer :: sha256_ctx

definition hmac_sha256_init :: "u8 list \<Rightarrow> hmac_ctx \<Rightarrow> hmac_ctx" where
  "hmac_sha256_init key ctx =
     (let k = put_bytes 0 (if length key > 64 then sha256 sha256_zero key else key) (replicate 64 0);
          k_ipad = map (\<lambda>b. b XOR 0x36) k;
          k_opad = map (\<lambda>b. b XOR 0x5c) k
      in ctx\<lparr> hc_inner := sha256_update k_ipad (sha256_init (hc_inner ctx)),
              hc_outer := sha256_update k_opad (sha256_init (hc_outer ctx)) \<rparr>)"

definition hmac_sha256_update :: "u8 list \<Rightarrow> hmac_ctx \<Rightarrow> hmac_ctx" where
  "hmac_sha256_update data ctx = ctx\<lparr> hc_inner := sha256_update data (hc_inner ctx) \<rparr>"

definition hmac_sha256_final :: "hmac_ctx \<Rightarrow> hmac_ctx \<times> u8 list" where
  "hmac_sha256_final ctx =
     (let (inner, inner_hash) = sha256_final (hc_inner ctx);
          (outer, out) = sha256_final (sha256_update inner_hash (hc_outer ctx))
      in (ctx\<lparr> hc_inner := inner, hc_outer := outer \<rparr>, out))"

definition hmac_zero :: hmac_ctx where
  "hmac_zero = \<lparr> hc_inner = sha256_zero, hc_outer = sha256_zero \<rparr>"

text \<open>The contexts the callers below keep on the stack start as zeroes here; no digest depends on that.\<close>

definition hmac_sha256 :: "u8 list \<Rightarrow> u8 list \<Rightarrow> u8 list" where
  "hmac_sha256 key data = snd (hmac_sha256_final (hmac_sha256_update data (hmac_sha256_init key hmac_zero)))"

section \<open>HKDF\<close>

definition hkdf_sha256_extract :: "u8 list option \<Rightarrow> u8 list \<Rightarrow> u8 list" where
  "hkdf_sha256_extract salt ikm =
     (case salt of
        Some s \<Rightarrow> if s = [] then hmac_sha256 (replicate 32 0) ikm else hmac_sha256 s ikm
      | None \<Rightarrow> hmac_sha256 (replicate 32 0) ikm)"

text \<open>One turn of the expand loop: the next block \<open>T\<close> from the previous one.\<close>

definition hkdf_block :: "u8 list \<Rightarrow> u8 list \<Rightarrow> u8 list \<Rightarrow> u8 \<Rightarrow> u8 list" where
  "hkdf_block prk info T i =
     (let ctx = hmac_sha256_init prk hmac_zero;
          ctx = (if T \<noteq> [] then hmac_sha256_update T ctx else ctx);
          ctx = (if info \<noteq> [] then hmac_sha256_update info ctx else ctx)
      in snd (hmac_sha256_final (hmac_sha256_update [i] ctx)))"

text \<open>\<open>for (i = 1; i <= (uint8_t)N; i++)\<close>, with the 8-bit counter of the source. \<open>None\<close> is not returning.\<close>

partial_function (option) hkdf_loop :: "u8 list \<Rightarrow> u8 list \<Rightarrow> u8 \<Rightarrow> u8 \<Rightarrow> u8 list \<Rightarrow> nat \<Rightarrow> u8 list \<Rightarrow> u8 list option" where
  "hkdf_loop prk info N i T pos okm =
     (if i \<le> N then
        let T' = hkdf_block prk info T i;
            to_copy = (if length okm - pos > 32 then 32 else length okm - pos)
        in hkdf_loop prk info N (i + 1) T' (pos + to_copy) (put_bytes pos (take to_copy T') okm)
      else Some okm)"

text \<open>The expansion into the buffer \<open>okm\<close>: \<open>Inl\<close> is the error return, \<open>None\<close> is not returning.\<close>

definition hkdf_sha256_expand :: "u8 list \<Rightarrow> u8 list option \<Rightarrow> u8 list option \<Rightarrow> (int + u8 list) option" where
  "hkdf_sha256_expand prk info okm =
     (case okm of
        None \<Rightarrow> Some (Inl (- 1))
      | Some buf \<Rightarrow>
          let N = (of_nat ((length buf + 32 - 1) div 32) :: u32) in
          if N > 255 then Some (Inl (- 1))
          else map_option Inr (hkdf_loop prk (case info of None \<Rightarrow> [] | Some s \<Rightarrow> s) (ucast N) 1 [] 0 buf))"

definition hkdf_sha256 :: "u8 list option \<Rightarrow> u8 list \<Rightarrow> u8 list option \<Rightarrow> u8 list option \<Rightarrow> (int + u8 list) option" where
  "hkdf_sha256 salt ikm info okm = hkdf_sha256_expand (hkdf_sha256_extract salt ikm) info okm"

end
