(* ===== verification/Sha256_Spec.thy ===== *)
theory Sha256_Spec
  imports Hmac_Sha256
begin

text \<open>
  SHA-256, HMAC and HKDF as their standards state them (FIPS 180-4, RFC 2104, RFC 5869), on whole messages,
  and that the buffered implementation computes them however the message is cut into updates.
\<close>

section \<open>The standards\<close>

fun sha_W :: "u8 list \<Rightarrow> nat \<Rightarrow> u32" where
  "sha_W d t = (if t < 16 then be32 d (t * 4)
     else sigma1 (sha_W d (t - 2)) + sha_W d (t - 7) + sigma0 (sha_W d (t - 15)) + sha_W d (t - 16))"

declare sha_W.simps [simp del]

primrec sha_regs_at :: "u8 list \<Rightarrow> sha_regs \<Rightarrow> nat \<Rightarrow> sha_regs" where
  "sha_regs_at d r 0 = r"
| "sha_regs_at d r (Suc t) = sha256_round (K_table ! t) (sha_W d t) (sha_regs_at d r t)"

definition sha_compress :: "u32 list \<Rightarrow> u8 list \<Rightarrow> u32 list" where
  "sha_compress H d =
     (case sha_regs_at d (H ! 0, H ! 1, H ! 2, H ! 3, H ! 4, H ! 5, H ! 6, H ! 7) 64 of
        (a, b, c, d, e, f, g, h) \<Rightarrow> [H ! 0 + a, H ! 1 + b, H ! 2 + c, H ! 3 + d, H ! 4 + e, H ! 5 + f, H ! 6 + g, H ! 7 + h])"

definition sha_H0 :: "u32 list" where
  "sha_H0 = [0x6a09e667, 0xbb67ae85, 0x3c6ef372, 0xa54ff53a, 0x510e527f, 0x9b05688c, 0x1f83d9ab, 0x5be0cd19]"

function sha_blocks :: "u8 list \<Rightarrow> u8 list list" where
  "sha_blocks bs = (if bs = [] then [] else take 64 bs # sha_blocks (drop 64 bs))"
  by auto
termination by (relation "measure length") auto

declare sha_blocks.simps [simp del]

definition sha_pad :: "u8 list \<Rightarrow> u8 list" where
  "sha_pad m = m @ [0x80] @ replicate ((119 - length m mod 64) mod 64) 0 @ be64 (of_nat (8 * length m))"

definition sha256_spec :: "u8 list \<Rightarrow> u8 list" where
  "sha256_spec m = digest_bytes (foldl sha_compress sha_H0 (sha_blocks (sha_pad m)))"

definition hmac_key :: "u8 list \<Rightarrow> u8 list" where
  "hmac_key key = (let k = if length key > 64 then sha256_spec key else key in k @ replicate (64 - length k) 0)"

definition hmac_spec :: "u8 list \<Rightarrow> u8 list \<Rightarrow> u8 list" where
  "hmac_spec key m = sha256_spec (map (\<lambda>b. b XOR 0x5c) (hmac_key key) @ sha256_spec (map (\<lambda>b. b XOR 0x36) (hmac_key key) @ m))"

primrec hkdf_T :: "u8 list \<Rightarrow> u8 list \<Rightarrow> nat \<Rightarrow> u8 list" where
  "hkdf_T prk info 0 = []"
| "hkdf_T prk info (Suc n) = hmac_spec prk (hkdf_T prk info n @ info @ [of_nat (Suc n)])"

definition hkdf_okm :: "u8 list \<Rightarrow> u8 list \<Rightarrow> nat \<Rightarrow> u8 list" where
  "hkdf_okm prk info L = take L (concat (map (hkdf_T prk info) [1..<(L + 31) div 32 + 1]))"

section \<open>Compression\<close>

lemma sha256_schedule_nth: "n \<le> 48 \<Longrightarrow>
    foldl (\<lambda>W i. W @ [sigma1 (W ! (i - 2)) + W ! (i - 7) + sigma0 (W ! (i - 15)) + W ! (i - 16)])
      (map (\<lambda>i. be32 d (i * 4)) [0..<16]) [16..<16 + n] = map (sha_W d) [0..<16 + n]"
proof (induction n)
  case 0
  have "map (\<lambda>i. be32 d (i * 4)) [0..<16] = map (sha_W d) [0..<16]" by (rule map_cong) (simp_all add: sha_W.simps)
  moreover have "[16..<16 + 0] = ([] :: nat list)" by simp
  ultimately show ?case by (simp only: add_0_right foldl_Nil)
next
  case (Suc n)
  have "sha_W d (16 + n) = sigma1 (sha_W d (16 + n - 2)) + sha_W d (16 + n - 7) + sigma0 (sha_W d (16 + n - 15)) + sha_W d (16 + n - 16)"
    by (subst sha_W.simps) simp
  moreover have "[16..<16 + Suc n] = [16..<16 + n] @ [16 + n]" "[0..<16 + Suc n] = [0..<16 + n] @ [16 + n]"
    by (simp_all only: add_Suc_right upt_Suc_append le_add1 zero_le)
  ultimately show ?case using Suc by (simp del: upt_Suc)
qed

lemma sha256_schedule_spec: "t < 64 \<Longrightarrow> sha256_schedule d ! t = sha_W d t"
proof -
  assume t: "t < 64"
  have e: "(64::nat) = 16 + 48" by simp
  have "sha256_schedule d = map (sha_W d) [0..<16 + 48]"
    unfolding sha256_schedule_def e by (rule sha256_schedule_nth) simp
  moreover have "map (sha_W d) [0..<16 + 48] ! t = sha_W d t" using t by (subst nth_map) (simp_all del: upt_conv_Cons_Cons)
  ultimately show ?thesis by (simp only:)
qed

lemma sha_rounds: "n \<le> 64 \<Longrightarrow>
    foldl (\<lambda>r i. sha256_round (K_table ! i) (sha256_schedule d ! i) r) r [0..<n] = sha_regs_at d r n"
  by (induction n) (simp_all add: sha256_schedule_spec)

lemma transform_spec:
  "sc_state (sha256_transform d ctx) = sha_compress (sc_state ctx) d"
  "sc_count (sha256_transform d ctx) = sc_count ctx" "sc_buffer (sha256_transform d ctx) = sc_buffer ctx"
proof -
  let ?s = "sc_state ctx"
  obtain a b c d' e f g h where r: "sha_regs_at d (?s ! 0, ?s ! 1, ?s ! 2, ?s ! 3, ?s ! 4, ?s ! 5, ?s ! 6, ?s ! 7) 64 = (a, b, c, d', e, f, g, h)"
    by (metis prod_cases7 surj_pair)
  show "sc_state (sha256_transform d ctx) = sha_compress (sc_state ctx) d"
    "sc_count (sha256_transform d ctx) = sc_count ctx" "sc_buffer (sha256_transform d ctx) = sc_buffer ctx"
    unfolding sha256_transform_def sha_compress_def Let_def sha_rounds [OF order.refl] r prod.case by simp_all
qed

section \<open>The block buffer\<close>

lemma sha_blocks_Nil [simp]: "sha_blocks [] = []"
  by (simp add: sha_blocks.simps)

lemma sha_blocks_one: "length b = 64 \<Longrightarrow> sha_blocks b = [b]"
  by (subst sha_blocks.simps) auto

lemma sha_blocks_append: "64 dvd length bs \<Longrightarrow> sha_blocks (bs @ xs) = sha_blocks bs @ sha_blocks xs"
proof (induction bs rule: sha_blocks.induct)
  case (1 bs)
  show ?case
  proof (cases "bs = []")
    case False
    then have l: "64 \<le> length bs" using 1(2) by (simp add: dvd_imp_le)
    then have "64 dvd length (drop 64 bs)" using 1(2) by (simp add: dvd_diff_nat)
    then have "sha_blocks (drop 64 bs @ xs) = sha_blocks (drop 64 bs) @ sha_blocks xs" using 1(1) False by blast
    then show ?thesis using False l by (simp add: sha_blocks.simps [of "bs @ xs"] sha_blocks.simps [of bs])
  qed simp
qed

text \<open>The chaining value after whole blocks.\<close>

definition sha_chain :: "u8 list \<Rightarrow> u32 list" where
  "sha_chain bs = foldl sha_compress sha_H0 (sha_blocks bs)"

lemma sha_chain_block: "64 dvd length bs \<Longrightarrow> length b = 64 \<Longrightarrow> sha_chain (bs @ b) = sha_compress (sha_chain bs) b"
  by (simp add: sha_chain_def sha_blocks_append sha_blocks_one)

text \<open>What a context has absorbed: whole blocks in the state, the rest in the buffer.\<close>

definition holds :: "sha256_ctx \<Rightarrow> u8 list \<Rightarrow> u8 list \<Rightarrow> bool" where
  "holds ctx bs r \<longleftrightarrow> 64 dvd length bs \<and> length r < 64 \<and> length (sc_buffer ctx) = 64 \<and>
     take (length r) (sc_buffer ctx) = r \<and> sc_state ctx = sha_chain bs"

definition absorbed :: "sha256_ctx \<Rightarrow> u8 list \<Rightarrow> bool" where
  "absorbed ctx m \<longleftrightarrow> sc_count ctx = of_nat (length m) \<and> (\<exists>bs r. m = bs @ r \<and> holds ctx bs r)"

lemma fill_Nil: "sha256_fill i [] ctx = ctx"
  by (subst sha256_fill.simps) simp

lemma fill_part: "p \<noteq> [] \<Longrightarrow> length p < 64 - i \<Longrightarrow> sha256_fill i p ctx = ctx\<lparr> sc_buffer := put_bytes i p (sc_buffer ctx) \<rparr>"
  by (subst sha256_fill.simps) (simp add: Let_def)

lemma fill_block: "p \<noteq> [] \<Longrightarrow> 64 - i \<le> length p \<Longrightarrow> put_bytes i (take (64 - i) p) (sc_buffer ctx) = b \<Longrightarrow>
    sha256_fill i p ctx = sha256_fill 0 (drop (64 - i) p) (sha256_transform b (ctx\<lparr> sc_buffer := b \<rparr>))"
  by (subst sha256_fill.simps) (simp add: Let_def)

lemma fill_holds:
  "holds ctx bs r \<Longrightarrow> \<exists>bs' r'. bs @ r @ p = bs' @ r' \<and> holds (sha256_fill (length r) p ctx) bs' r' \<and>
     sc_count (sha256_fill (length r) p ctx) = sc_count ctx"
proof (induction "length p" arbitrary: p ctx bs r rule: less_induct)
  case less
  have h: "64 dvd length bs" "length r < 64" "length (sc_buffer ctx) = 64" "take (length r) (sc_buffer ctx) = r" "sc_state ctx = sha_chain bs"
    using less.prems by (simp_all add: holds_def)
  consider "p = []" | "p \<noteq> []" "length p < 64 - length r" | "p \<noteq> []" "64 - length r \<le> length p" by fastforce
  then show ?case
  proof cases
    case 1
    then show ?thesis using less.prems by (auto simp: fill_Nil)
  next
    case 2
    let ?b = "r @ p @ drop (length r + length p) (sc_buffer ctx)"
    have f: "sha256_fill (length r) p ctx = ctx\<lparr> sc_buffer := ?b \<rparr>"
      unfolding fill_part [OF 2] put_bytes_def h(4) by (rule refl)
    have "length ?b = 64" "length (r @ p) < 64" using h(3) 2(2) by simp_all
    then have "holds (ctx\<lparr> sc_buffer := ?b \<rparr>) bs (r @ p)" using h(1,5) by (simp add: holds_def)
    then show ?thesis unfolding f by (intro exI [of _ bs] exI [of _ "r @ p"]) simp
  next
    case 3
    define b where "b = r @ take (64 - length r) p"
    define q where "q = drop (64 - length r) p"
    define c where "c = sha256_transform b (ctx\<lparr> sc_buffer := b \<rparr>)"
    have b: "put_bytes (length r) (take (64 - length r) p) (sc_buffer ctx) = b" "length b = 64"
      using h 3 by (simp_all add: put_bytes_def b_def)
    have f: "sha256_fill (length r) p ctx = sha256_fill (length ([] :: u8 list)) q c"
      using fill_block [OF 3 b(1)] by (simp add: q_def c_def)
    have hc: "holds c (bs @ b) []" using h b by (simp add: holds_def transform_spec sha_chain_block c_def)
    have "length q < length p" using h(2) 3(1) by (cases p) (auto simp: q_def)
    from less.hyps [OF this hc] obtain bs' r' where g: "(bs @ b) @ [] @ q = bs' @ r'"
        "holds (sha256_fill (length ([] :: u8 list)) q c) bs' r'"
        "sc_count (sha256_fill (length ([] :: u8 list)) q c) = sc_count c"
      by blast
    have "sc_count c = sc_count ctx" by (simp add: transform_spec c_def)
    moreover have "bs @ r @ p = (bs @ b) @ [] @ q" by (simp add: b_def q_def)
    ultimately show ?thesis unfolding f using g by (intro exI [of _ bs'] exI [of _ r']) (simp only: simp_thms)
  qed
qed

lemma count_mod: "unat (of_nat n AND 0x3f :: u64) = n mod 64"
proof -
  have "(0x3f :: u64) = mask 6" by (simp add: mask_eq_exp_minus_1)
  then have "unat (of_nat n AND 0x3f :: u64) = unat (take_bit 6 (of_nat n :: u64))" by (simp only: take_bit_eq_mask)
  also have "\<dots> = take_bit 6 (unat (of_nat n :: u64))" by (simp only: unsigned_take_bit_eq)
  also have "\<dots> = n mod 2 ^ 64 mod 2 ^ 6" by (simp add: unat_of_nat take_bit_eq_mod)
  also have "\<dots> = n mod 2 ^ 6" by (rule mod_mod_cancel) (rule le_imp_power_dvd, simp)
  finally show ?thesis by simp
qed

lemma absorbed_index: "absorbed ctx m \<Longrightarrow> m = bs @ r \<Longrightarrow> holds ctx bs r \<Longrightarrow> unat (sc_count ctx AND 0x3f) = length r"
proof -
  assume a: "absorbed ctx m" "m = bs @ r" "holds ctx bs r"
  then obtain k where "length bs = 64 * k" "length r < 64" by (auto simp: holds_def)
  then have "length m mod 64 = length r" using a(2) by simp
  moreover have "sc_count ctx = of_nat (length m)" using a(1) by (simp add: absorbed_def)
  ultimately show ?thesis using count_mod [of "length m"] by simp
qed

lemma update_absorbed:
  assumes "absorbed ctx m"
  shows "absorbed (sha256_update d ctx) (m @ d)"
proof -
  obtain bs r where m: "m = bs @ r" "holds ctx bs r" using assms by (auto simp: absorbed_def)
  let ?c = "ctx\<lparr> sc_count := sc_count ctx + of_nat (length d) \<rparr>"
  have "holds ?c bs r" using m(2) by (simp add: holds_def)
  from fill_holds [OF this, of d] obtain bs' r' where f: "bs @ r @ d = bs' @ r'" "holds (sha256_fill (length r) d ?c) bs' r'"
      "sc_count (sha256_fill (length r) d ?c) = sc_count ?c" by blast
  moreover have "sc_count ?c = of_nat (length (m @ d))" using assms by (simp add: absorbed_def)
  ultimately have "absorbed (sha256_fill (length r) d ?c) (m @ d)" using m(1) unfolding absorbed_def
    by (intro conjI exI [of _ bs'] exI [of _ r']) (simp_all only: append.assoc)
  then show ?thesis unfolding sha256_update_def absorbed_index [OF assms m] Let_def .
qed

lemma init_absorbed: "length (sc_buffer ctx) = 64 \<Longrightarrow> absorbed (sha256_init ctx) []"
  by (simp add: absorbed_def holds_def sha256_init_def sha_chain_def sha_H0_def)

lemma length_be64 [simp]: "length (be64 v) = 8"
  by (simp add: be64_def)

section \<open>Padding\<close>

lemma pad_blocks:
  assumes "64 dvd length bs" "length r < 64"
  shows "length r \<le> 55 \<Longrightarrow> sha_pad (bs @ r) = bs @ (r @ [0x80] @ replicate (55 - length r) 0 @ be64 (of_nat (8 * length (bs @ r))))"
    and "56 \<le> length r \<Longrightarrow> sha_pad (bs @ r) = bs @ (r @ [0x80] @ replicate (63 - length r) 0) @ (replicate 56 0 @ be64 (of_nat (8 * length (bs @ r))))"
proof -
  obtain k where "length bs = 64 * k" using assms(1) by (auto simp: dvd_def)
  then have m: "length (bs @ r) mod 64 = length r" using assms(2) by simp
  show "sha_pad (bs @ r) = bs @ (r @ [0x80] @ replicate (55 - length r) 0 @ be64 (of_nat (8 * length (bs @ r))))" if "length r \<le> 55"
  proof -
    have "119 - length r = (55 - length r) + 64" "55 - length r < 64" using that by simp_all
    then have "(119 - length r) mod 64 = 55 - length r" by (simp only: mod_add_self2 mod_less)
    then show ?thesis unfolding sha_pad_def m by (simp only: append.assoc)
  qed
  show "sha_pad (bs @ r) = bs @ (r @ [0x80] @ replicate (63 - length r) 0) @ (replicate 56 0 @ be64 (of_nat (8 * length (bs @ r))))" if "56 \<le> length r"
  proof -
    have "119 - length r = (63 - length r) + 56" "119 - length r < 64" using that assms(2) by simp_all
    then have "(119 - length r) mod 64 = (63 - length r) + 56" by (simp only: mod_less)
    then show ?thesis unfolding sha_pad_def m by (simp only: append.assoc replicate_add)
  qed
qed

lemma put_bytes_append: "length xs = i \<Longrightarrow> put_bytes i ys (xs @ zs) = xs @ ys @ drop (length ys) zs"
  by (simp add: put_bytes_def)

lemma final_state:
  assumes h: "holds ctx bs r" and n: "unat (sc_count ctx AND 0x3f) = length r"
  shows "snd (sha256_final ctx) =
    (let tail = be64 (sc_count ctx * 8) in
     digest_bytes (if length r \<le> 55 then sha_chain (bs @ (r @ [0x80] @ replicate (55 - length r) 0 @ tail))
       else sha_chain ((bs @ (r @ [0x80] @ replicate (63 - length r) 0)) @ (replicate 56 0 @ tail))))"
proof -
  have b: "64 dvd length bs" "length r < 64" "length (sc_buffer ctx) = 64" "take (length r) (sc_buffer ctx) = r" "sc_state ctx = sha_chain bs"
    using h by (simp_all add: holds_def)
  define tail where "tail = be64 (sc_count ctx * 8)"
  define buf where "buf = put_bytes (length r) [0x80] (sc_buffer ctx)"
  have buf: "buf = r @ [0x80] @ drop (length r + 1) (sc_buffer ctx)" by (simp add: buf_def put_bytes_def b(4))
  have lt: "length tail = 8" by (simp add: tail_def)
  show ?thesis
  proof (cases "length r \<le> 55")
    case True
    define b2 where "b2 = r @ [0x80] @ replicate (55 - length r) 0 @ tail"
    define e where "e = drop (length r + 1) (sc_buffer ctx)"
    have "put_bytes (length r + 1) (replicate (56 - (length r + 1)) 0) ((r @ [0x80]) @ e) =
        (r @ [0x80]) @ replicate (55 - length r) 0 @ drop (55 - length r) e" by (subst put_bytes_append) simp_all
    also have "\<dots> = (r @ [0x80] @ replicate (55 - length r) 0) @ drop (55 - length r) e" by simp
    also have "put_bytes 56 tail \<dots> = (r @ [0x80] @ replicate (55 - length r) 0) @ tail @ drop 8 (drop (55 - length r) e)"
      using True by (subst put_bytes_append) (simp_all add: lt)
    also have "drop 8 (drop (55 - length r) e) = []" using True b(3) by (simp add: e_def)
    finally have "put_bytes 56 tail (put_bytes (length r + 1) (replicate (56 - (length r + 1)) 0) buf) = b2"
      by (simp add: buf b2_def e_def)
    then have "snd (sha256_final ctx) = digest_bytes (sc_state (sha256_transform b2 (ctx\<lparr> sc_buffer := b2 \<rparr>)))"
      using True by (simp add: sha256_final_def n Let_def tail_def [symmetric] buf_def [symmetric])
    moreover have "length b2 = 64" using True by (simp add: b2_def lt)
    ultimately show ?thesis
      using True b(1,5) by (simp add: transform_spec sha_chain_block b2_def tail_def Let_def)
  next
    case False
    define b1 where "b1 = r @ [0x80] @ replicate (63 - length r) (0 :: u8)"
    define b2 where "b2 = replicate 56 0 @ tail"
    have l1: "length b1 = 64" using b(2) by (simp add: b1_def)
    have p1: "put_bytes (length r + 1) (replicate (64 - (length r + 1)) 0) buf = b1"
      using b(2,3) by (simp add: buf put_bytes_def b1_def)
    have p2: "put_bytes 56 tail (put_bytes 0 (replicate (56 - 0) 0) b1) = b2"
      using l1 by (simp add: put_bytes_def b2_def lt)
    have g: "length r + 1 > 56" using False by simp
    define c1 where "c1 = sha256_transform b1 (ctx\<lparr> sc_buffer := b1 \<rparr>)"
    have c1: "sc_buffer c1 = b1" "sc_state c1 = sha_chain (bs @ b1)"
      using b(1,5) l1 by (simp_all add: c1_def transform_spec sha_chain_block)
    have "snd (sha256_final ctx) = digest_bytes (sc_state (sha256_transform b2 (c1\<lparr> sc_buffer := b2 \<rparr>)))"
      unfolding sha256_final_def Let_def n tail_def [symmetric] buf_def [symmetric] if_P [OF g] p1 c1_def [symmetric] prod.case c1(1) p2
      by simp
    moreover have "length b2 = 64" "64 dvd length (bs @ b1)" using b(1) l1 by (simp_all add: b2_def lt)
    ultimately have "snd (sha256_final ctx) = digest_bytes (sha_chain ((bs @ b1) @ b2))"
      using c1(2) by (simp add: transform_spec sha_chain_block del: append_assoc)
    then show ?thesis unfolding Let_def if_not_P [OF False] tail_def [symmetric] b1_def b2_def .
  qed
qed

lemma final_absorbed:
  assumes "absorbed ctx m"
  shows "snd (sha256_final ctx) = sha256_spec m"
proof -
  obtain bs r where m: "m = bs @ r" "holds ctx bs r" using assms by (auto simp: absorbed_def)
  have c: "sc_count ctx * 8 = of_nat (8 * length (bs @ r))" using assms m(1) by (simp add: absorbed_def)
  have b: "64 dvd length bs" "length r < 64" using m(2) by (simp_all add: holds_def)
  note f = final_state [OF m(2) absorbed_index [OF assms m], unfolded c Let_def]
  show ?thesis
  proof (cases "length r \<le> 55")
    case True
    show ?thesis unfolding f sha256_spec_def m(1) pad_blocks(1) [OF b True] if_P [OF True] sha_chain_def by (rule refl)
  next
    case False
    then have g: "56 \<le> length r" by simp
    show ?thesis unfolding f sha256_spec_def m(1) pad_blocks(2) [OF b g] if_not_P [OF False] sha_chain_def append.assoc by (rule refl)
  qed
qed


lemma sha256_is_spec: "length (sc_buffer stack) = 64 \<Longrightarrow> sha256 stack m = sha256_spec m"
  using final_absorbed [OF update_absorbed [OF init_absorbed]] by (simp add: sha256_def)

lemma length_digest: "length (digest_bytes s) = 32"
  by (simp add: digest_bytes_def length_concat comp_def sum_list_triv)

lemma length_spec: "length (sha256_spec m) = 32"
  by (simp add: sha256_spec_def length_digest)

section \<open>HMAC\<close>

definition hmac_absorbed :: "hmac_ctx \<Rightarrow> u8 list \<Rightarrow> u8 list \<Rightarrow> bool" where
  "hmac_absorbed ctx key m \<longleftrightarrow> absorbed (hc_inner ctx) (map (\<lambda>b. b XOR 0x36) (hmac_key key) @ m) \<and>
     absorbed (hc_outer ctx) (map (\<lambda>b. b XOR 0x5c) (hmac_key key))"

lemma hmac_init_absorbed:
  assumes "length (sc_buffer (hc_inner ctx)) = 64" "length (sc_buffer (hc_outer ctx)) = 64"
  shows "hmac_absorbed (hmac_sha256_init key ctx) key []"
proof -
  define x where "x = (if length key > 64 then sha256_spec key else key)"
  have s: "sha256 sha256_zero key = sha256_spec key" by (rule sha256_is_spec) (simp add: sha256_zero_def)
  have "length x \<le> 64" by (simp add: x_def length_spec)
  then have "put_bytes 0 x (replicate 64 0) = hmac_key key"
    by (simp add: put_bytes_def hmac_key_def x_def [symmetric] Let_def)
  then have k: "put_bytes 0 (if length key > 64 then sha256 sha256_zero key else key) (replicate 64 0) = hmac_key key"
    by (simp only: s x_def)
  show ?thesis
    unfolding hmac_absorbed_def hmac_sha256_init_def Let_def k
    using update_absorbed [OF init_absorbed] assms by (simp add: update_absorbed [OF init_absorbed, simplified])
qed

lemma hmac_update_absorbed: "hmac_absorbed ctx key m \<Longrightarrow> hmac_absorbed (hmac_sha256_update d ctx) key (m @ d)"
  using update_absorbed [of "hc_inner ctx" _ d] by (fastforce simp: hmac_absorbed_def hmac_sha256_update_def)

lemma hmac_final_absorbed: "hmac_absorbed ctx key m \<Longrightarrow> snd (hmac_sha256_final ctx) = hmac_spec key m"
proof -
  assume h: "hmac_absorbed ctx key m"
  have i: "snd (sha256_final (hc_inner ctx)) = sha256_spec (map (\<lambda>b. b XOR 0x36) (hmac_key key) @ m)"
    using h by (intro final_absorbed) (simp add: hmac_absorbed_def)
  have "snd (sha256_final (sha256_update x (hc_outer ctx))) = sha256_spec (map (\<lambda>b. b XOR 0x5c) (hmac_key key) @ x)" for x
    using h by (intro final_absorbed update_absorbed) (simp add: hmac_absorbed_def)
  then show ?thesis by (simp add: hmac_sha256_final_def hmac_spec_def split_beta Let_def i)
qed

lemma hmac_chunks: "hmac_absorbed ctx key m \<Longrightarrow> hmac_absorbed (foldl (\<lambda>c d. hmac_sha256_update d c) ctx ds) key (m @ concat ds)"
proof (induction ds arbitrary: ctx m)
  case (Cons d ds)
  then show ?case using Cons.IH [OF hmac_update_absorbed [OF Cons.prems, of d]] by simp
qed simp

section \<open>HKDF\<close>

lemma hmac_zero_absorbed: "hmac_absorbed (hmac_sha256_init key hmac_zero) key []"
  by (rule hmac_init_absorbed) (simp_all add: hmac_zero_def sha256_zero_def)

lemma hkdf_block_spec: "hkdf_block prk info T i = hmac_spec prk (T @ info @ [i])"
proof -
  have u: "hmac_absorbed c prk m \<Longrightarrow> hmac_absorbed (if d \<noteq> [] then hmac_sha256_update d c else c) prk (m @ d)" for c m d
    using hmac_update_absorbed [of c prk m d] by simp
  have "hmac_absorbed (if T \<noteq> [] then hmac_sha256_update T (hmac_sha256_init prk hmac_zero) else hmac_sha256_init prk hmac_zero) prk ([] @ T)"
    by (rule u [OF hmac_zero_absorbed])
  from hmac_final_absorbed [OF hmac_update_absorbed [OF u [OF this], of "[i]"]]
  show ?thesis unfolding hkdf_block_def Let_def by simp
qed

lemma length_hkdf_T: "0 < n \<Longrightarrow> length (hkdf_T prk info n) = 32"
  by (cases n) (simp_all add: hmac_spec_def length_spec)

lemma length_hkdf_Ts: "length (concat (map (hkdf_T prk info) [1..<n + 1])) = 32 * n"
proof (induction n)
  case (Suc n)
  have "[1..<Suc n + 1] = [1..<n + 1] @ [n + 1]" by simp
  then show ?case using Suc length_hkdf_T [of "n + 1" prk info] by simp
qed simp

lemma hkdf_loop_done: "\<not> i \<le> N \<Longrightarrow> hkdf_loop prk info N i T pos okm = Some okm"
  by (subst hkdf_loop.simps) simp

lemma hkdf_loop_step: "i \<le> N \<Longrightarrow> hkdf_loop prk info N i T pos okm =
    (let n = min 32 (length okm - pos) in hkdf_loop prk info N (i + 1) (hkdf_block prk info T i) (pos + n) (put_bytes pos (take n (hkdf_block prk info T i)) okm))"
  by (subst hkdf_loop.simps) (simp add: Let_def min_def)

lemma u8_le: "m \<le> 255 \<Longrightarrow> n \<le> 255 \<Longrightarrow> (of_nat m :: u8) \<le> of_nat n \<longleftrightarrow> m \<le> n"
  by (simp add: word_le_nat_alt unat_of_nat take_bit_nat_eq_self)

text \<open>The loop with a bound below 255: after the blocks up to \<open>n\<close> their bytes are in the buffer.\<close>

lemma hkdf_loop_blocks:
  assumes "N \<le> 254" "n \<le> N" "N = (length buf + 31) div 32"
  shows "hkdf_loop prk info (of_nat N) (of_nat (n + 1)) (hkdf_T prk info n) (min (32 * n) (length buf))
      (take (length buf) (concat (map (hkdf_T prk info) [1..<n + 1])) @ drop (32 * n) buf) =
    Some (hkdf_okm prk info (length buf))"
  using assms(2)
proof (induction "N - n" arbitrary: n)
  case 0
  then have n: "n = N" by simp
  have b: "length buf \<le> 32 * N" using assms(3) by linarith
  have "\<not> (of_nat (N + 1) :: u8) \<le> of_nat N" using assms(1) by (subst u8_le) simp_all
  then show ?case using b assms(3) by (simp add: n hkdf_loop_done hkdf_okm_def)
next
  case (Suc k)
  let ?L = "length buf" and ?X = "concat (map (hkdf_T prk info) [1..<n + 1])" and ?T = "hkdf_T prk info (n + 1)"
  define d where "d = min 32 (?L - 32 * n)"
  have n: "n < N" "k = N - (n + 1)" "n + 1 \<le> N" using Suc.hyps(2) by simp_all
  then have L: "32 * n < ?L" using assms(3) by linarith
  have X: "length ?X = 32 * n" "length ?T = 32" by (rule length_hkdf_Ts) (rule length_hkdf_T, simp)
  have T: "hkdf_block prk info (hkdf_T prk info n) (of_nat (n + 1)) = ?T" by (simp add: hkdf_block_spec)
  have i: "(of_nat (n + 1) :: u8) \<le> of_nat N" using assms(1) n by (subst u8_le) simp_all
  have pos: "min (32 * n) ?L = 32 * n" "32 * n + d = min (32 * (n + 1)) ?L" using L by (simp_all add: d_def)
  have tk: "take ?L ?X = ?X" using X(1) L by simp
  have len: "length (?X @ drop (32 * n) buf) = ?L" using X(1) L by simp
  have up: "[1..<n + 1 + 1] = [1..<n + 1] @ [n + 1]" by simp
  have "take d ?T = take (?L - 32 * n) ?T" using X(2) by (simp add: d_def min_def)
  then have "take ?L (?X @ ?T) = ?X @ take d ?T" using X(1) L by simp
  moreover have "drop d (drop (32 * n) buf) = drop (32 * (n + 1)) buf" using L by (auto simp: d_def min_def)
  moreover have "length (take d ?T) = d" using X(2) by (simp add: d_def)
  ultimately have put: "put_bytes (32 * n) (take d ?T) (?X @ drop (32 * n) buf) =
      take ?L (concat (map (hkdf_T prk info) [1..<n + 1 + 1])) @ drop (32 * (n + 1)) buf"
    unfolding up using put_bytes_append [OF X(1), of "take d ?T" "drop (32 * n) buf"] by simp
  have "(of_nat (n + 1) :: u8) + 1 = of_nat (n + 1 + 1)" by simp
  then show ?case
    unfolding pos(1) tk hkdf_loop_step [OF i] len d_def [symmetric] Let_def T put pos(2)
    using Suc.hyps(1) [OF n(2,3)] by (simp only:)
qed

text \<open>With the bound 255 the 8-bit counter wraps before it can pass it: the loop has no exit.\<close>

lemma hkdf_loop_bound: "hkdf_loop prk info N i T pos okm = Some y \<Longrightarrow> N \<noteq> 255"
proof (rule hkdf_loop.raw_induct [of "\<lambda>prk info N i T pos okm y. N \<noteq> 255"])
  fix f :: "u8 list \<Rightarrow> u8 list \<Rightarrow> u8 \<Rightarrow> u8 \<Rightarrow> u8 list \<Rightarrow> nat \<Rightarrow> u8 list \<Rightarrow> u8 list option"
  fix prk info N i T pos okm y
  assume ih: "\<And>prk info N i T pos okm y. f prk info N i T pos okm = Some y \<Longrightarrow> N \<noteq> 255"
    and r: "(if i \<le> N then
        let T' = hkdf_block prk info T i;
            to_copy = (if length okm - pos > 32 then 32 else length okm - pos)
        in f prk info N (i + 1) T' (pos + to_copy) (put_bytes pos (take to_copy T') okm)
      else Some okm) = Some y"
  show "N \<noteq> 255"
  proof (cases "i \<le> N")
    case True
    show ?thesis by (rule ih) (rule r [unfolded if_P [OF True] Let_def])
  next
    case False
    moreover have "i \<le> - 1" "(255 :: u8) = - 1" by simp_all
    ultimately show ?thesis by metis
  qed
qed

lemma hkdf_blocks_count:
  assumes "(L + 31) div 32 \<le> 255"
  shows "\<not> (of_nat ((L + 32 - 1) div 32) :: u32) > 255" "ucast (of_nat ((L + 32 - 1) div 32) :: u32) = (of_nat ((L + 31) div 32) :: u8)"
proof -
  have e: "L + 32 - 1 = L + 31" by simp
  show "\<not> (of_nat ((L + 32 - 1) div 32) :: u32) > 255"
    unfolding e using assms by (simp add: word_less_nat_alt unat_of_nat take_bit_nat_eq_self)
  show "ucast (of_nat ((L + 32 - 1) div 32) :: u32) = (of_nat ((L + 31) div 32) :: u8)"
    unfolding e using assms by (simp add: word_unat_eq_iff unsigned_ucast_eq unat_of_nat take_bit_nat_eq_self)
qed

section \<open>Properties\<close>



text \<open>
  C13: HMAC-SHA-256 is the construction of RFC 2104 over that hash, for keys of every length (a key longer
  than a block is hashed first) and for a message given in any number of updates.
\<close>

theorem hmac_sha256_rfc2104:
  assumes "length (sc_buffer (hc_inner ctx)) = 64" "length (sc_buffer (hc_outer ctx)) = 64"
  shows "snd (hmac_sha256_final (foldl (\<lambda>c d. hmac_sha256_update d c) (hmac_sha256_init key ctx) chunks)) = hmac_spec key (concat chunks)"
  using hmac_final_absorbed [OF hmac_chunks [OF hmac_init_absorbed [OF assms]], of key chunks] by simp

theorem hmac_sha256_rfc2104_witness:
  "snd (hmac_sha256_final (hmac_sha256_update [1, 2] (hmac_sha256_init [7] hmac_zero))) = hmac_spec [7] [1, 2]"
  using hmac_sha256_rfc2104 [of hmac_zero "[7]" "[[1, 2]]"] by (simp add: hmac_zero_def sha256_zero_def)

text \<open>
  C32: \<open>hkdf_sha256_expand\<close> returns for every output of at most 254 blocks, and then the buffer holds the
  output keying material of RFC 5869: the first bytes of T(1) T(2) \dots
\<close>

theorem hkdf_expand_returns:
  assumes "length buf \<le> 254 * 32"
  shows "hkdf_sha256_expand prk (Some info) (Some buf) = Some (Inr (hkdf_okm prk info (length buf)))"
proof -
  define N where "N = (length buf + 31) div 32"
  have N: "N \<le> 254" using assms by (simp add: N_def)
  then have c: "(length buf + 31) div 32 \<le> 255" by (simp add: N_def)
  have "hkdf_loop prk info (of_nat N) (of_nat (0 + 1)) (hkdf_T prk info 0) (min (32 * 0) (length buf))
      (take (length buf) (concat (map (hkdf_T prk info) [1..<0 + 1])) @ drop (32 * 0) buf) = Some (hkdf_okm prk info (length buf))"
    using N by (rule hkdf_loop_blocks) (simp_all add: N_def)
  then have "hkdf_loop prk info (of_nat N) 1 [] 0 buf = Some (hkdf_okm prk info (length buf))" by simp
  then show ?thesis
    unfolding hkdf_sha256_expand_def option.case Let_def if_not_P [OF hkdf_blocks_count(1) [OF c]] hkdf_blocks_count(2) [OF c]
    by (simp add: N_def)
qed

theorem hkdf_expand_returns_witness:
  "hkdf_sha256_expand [1, 2, 3] (Some []) (Some (replicate 42 0)) = Some (Inr (hkdf_okm [1, 2, 3] [] 42))"
  using hkdf_expand_returns [of "replicate 42 0" "[1, 2, 3]" "[]"] by simp

text \<open>
  C33: \<open>hkdf_sha256_expand\<close> never returns for an output of 255 blocks, the largest RFC 5869 allows and the
  guard lets through: the loop counter is a \<open>uint8_t\<close> and wraps to 0 after 255.
\<close>

theorem hkdf_expand_255_blocks_hangs:
  assumes "254 * 32 < length buf" "length buf \<le> 255 * 32"
  shows "hkdf_sha256_expand prk info (Some buf) = None"
proof -
  have n: "(length buf + 31) div 32 = 255" using assms by (intro div_nat_eqI) simp_all
  then have c: "(length buf + 31) div 32 \<le> 255" by simp
  have "hkdf_loop prk x 255 1 [] 0 buf = None" for x
    using hkdf_loop_bound [of prk x 255 1 "[]" 0 buf] by (cases "hkdf_loop prk x 255 1 [] 0 buf") auto
  then show ?thesis
    unfolding hkdf_sha256_expand_def option.case Let_def if_not_P [OF hkdf_blocks_count(1) [OF c]] hkdf_blocks_count(2) [OF c] n
    by simp
qed

theorem hkdf_expand_255_blocks_hangs_witness:
  "hkdf_sha256_expand [] None (Some (replicate 8160 0)) = None"
  using hkdf_expand_255_blocks_hangs [of "replicate 8160 0"] by simp

end
