(* ===== verification/Slice_Arena.thy ===== *)
theory Slice_Arena
  imports C_Text
begin

text \<open>
  Model of \<open>tools/virt_slice_arena.c\<close>: the eight private slices with their calls in flight, the quarantine after
  a release, the scrub, and the slice header. The memory of the slices and the clock are the interface
  \<open>struct virt_slice_io\<close> of the source; here they are the record \<open>slice_io\<close>: the bytes of each slice, what a
  store leaves in a byte (the identity for working memory), the \<open>errno\<close> of a mapping that fails, and the time.
  The lock leaves no trace, and a write barrier does nothing to this memory.
\<close>

section \<open>State\<close>

abbreviation (input) VIRT_SLICE_ARENA_COUNT :: nat where "VIRT_SLICE_ARENA_COUNT \<equiv> 8"
abbreviation (input) VIRT_SLICE_ARENA_BYTES :: nat where "VIRT_SLICE_ARENA_BYTES \<equiv> 0x4000000"
abbreviation (input) VIRT_SLICE_ARENA_PAGE :: nat where "VIRT_SLICE_ARENA_PAGE \<equiv> 4096"
abbreviation (input) VIRT_SLICE_QUARANTINE_MS :: u64 where "VIRT_SLICE_QUARANTINE_MS \<equiv> 4000"

record slice_io =
  io_mem :: "u32 \<Rightarrow> nat \<Rightarrow> u8"
  io_store :: "u32 \<Rightarrow> nat \<Rightarrow> u8 \<Rightarrow> u8"
  io_map :: "u32 \<Rightarrow> int option"
  io_now :: u64

record arena_slot =
  as_quarantined :: bool
  as_inflight :: u32
  as_last_end :: u64
  as_released :: u64
  as_scrubs :: u64
  as_failures :: u64
  as_last_ms :: int
  as_last_rc :: int

record arena_state =
  sa_init :: bool
  sa_slots :: "arena_slot list"

definition zero_arena_slot :: arena_slot where
  "zero_arena_slot = \<lparr> as_quarantined = False, as_inflight = 0, as_last_end = 0, as_released = 0, as_scrubs = 0,
     as_failures = 0, as_last_ms = 0, as_last_rc = 0 \<rparr>"

definition init_locked_sa :: "arena_state \<Rightarrow> arena_state" where
  "init_locked_sa a =
     (if sa_init a then a
      else \<lparr> sa_init = True, sa_slots = replicate VIRT_SLICE_ARENA_COUNT (zero_arena_slot\<lparr> as_last_ms := - 1 \<rparr>) \<rparr>)"

definition virt_slice_arena_reset :: "arena_state \<Rightarrow> arena_state" where
  "virt_slice_arena_reset a = init_locked_sa (a\<lparr> sa_init := False \<rparr>)"

definition virt_slice_arena_now_ms :: "slice_io \<Rightarrow> arena_state \<Rightarrow> arena_state \<times> u64" where
  "virt_slice_arena_now_ms io a = (init_locked_sa a, io_now io)"

text \<open>One slot rewritten, after the lazy initialisation every entry point starts with.\<close>

definition at_slot :: "u32 \<Rightarrow> (arena_slot \<Rightarrow> arena_slot) \<Rightarrow> arena_state \<Rightarrow> arena_state" where
  "at_slot index f a =
     (let a1 = init_locked_sa a in a1\<lparr> sa_slots := (sa_slots a1)[unat index := f (sa_slots a1 ! unat index)] \<rparr>)"

definition slot_at :: "u32 \<Rightarrow> arena_state \<Rightarrow> arena_slot" where
  "slot_at index a = sa_slots (init_locked_sa a) ! unat index"

section \<open>Calls in flight and quarantine\<close>

definition virt_slice_arena_begin :: "u32 \<Rightarrow> arena_state \<Rightarrow> arena_state \<times> int" where
  "virt_slice_arena_begin index a =
     (if index \<ge> 8 then (a, - EINVAL)
      else if as_quarantined (slot_at index a) then (init_locked_sa a, - EBUSY)
      else (at_slot index (\<lambda>s. s\<lparr> as_inflight := as_inflight s + 1 \<rparr>) a, 0))"

definition virt_slice_arena_end :: "u32 \<Rightarrow> slice_io \<Rightarrow> arena_state \<Rightarrow> arena_state" where
  "virt_slice_arena_end index io a =
     (if index \<ge> 8 then a
      else at_slot index (\<lambda>s. s\<lparr> as_inflight := (if as_inflight s > 0 then as_inflight s - 1 else as_inflight s),
                                  as_last_end := io_now io \<rparr>) a)"

definition virt_slice_arena_quarantine :: "u32 \<Rightarrow> u64 \<Rightarrow> arena_state \<Rightarrow> arena_state" where
  "virt_slice_arena_quarantine index released_ms a =
     (if index \<ge> 8 then a
      else at_slot index (\<lambda>s. s\<lparr> as_quarantined := True, as_released := released_ms \<rparr>) a)"

definition virt_slice_arena_quarantined :: "u32 \<Rightarrow> arena_state \<Rightarrow> bool" where
  "virt_slice_arena_quarantined index a \<longleftrightarrow> \<not> index \<ge> 8 \<and> as_quarantined (slot_at index a)"

definition virt_slice_arena_unquarantine :: "u32 \<Rightarrow> arena_state \<Rightarrow> arena_state" where
  "virt_slice_arena_unquarantine index a =
     (if index \<ge> 8 then a else at_slot index (\<lambda>s. s\<lparr> as_quarantined := False \<rparr>) a)"

text \<open>Whether a slice may be scrubbed now, and the time still to wait.\<close>

definition virt_slice_arena_scrub_due :: "u32 \<Rightarrow> slice_io \<Rightarrow> arena_state \<Rightarrow> bool \<times> u64" where
  "virt_slice_arena_scrub_due index io a =
     (if index \<ge> 8 then (False, 0)
      else let s = slot_at index a in
        if as_quarantined s \<and> as_inflight s = 0 then
          let from = (if as_released s > as_last_end s then as_released s else as_last_end s);
              until = from + VIRT_SLICE_QUARANTINE_MS
          in if io_now io \<ge> until then (True, 0) else (False, until - io_now io)
        else (False, 0))"

section \<open>Scrub\<close>

definition le64_at :: "(nat \<Rightarrow> u8) \<Rightarrow> nat \<Rightarrow> u64" where
  "le64_at m k = foldr (\<lambda>j w. push_bit 8 w OR ucast (m (k + j))) [0..<8] 0"

definition readback_zero :: "(nat \<Rightarrow> u8) \<Rightarrow> nat \<Rightarrow> bool" where
  "readback_zero m n \<longleftrightarrow> list_all (\<lambda>i. le64_at m (8 * i) = 0) [0..<n]"

definition errno_rc :: "int \<Rightarrow> int" where
  "errno_rc e = (if e \<noteq> 0 then - e else - EIO)"

definition scrub_memory :: "u32 \<Rightarrow> slice_io \<Rightarrow> slice_io \<times> int" where
  "scrub_memory index io =
     (case io_map io index of
        Some e \<Rightarrow> (io, errno_rc e)
      | None \<Rightarrow>
          let m = (\<lambda>k. if k < VIRT_SLICE_ARENA_BYTES then io_store io index k 0 else io_mem io index k)
          in (io\<lparr> io_mem := (io_mem io)(index := m) \<rparr>,
              if readback_zero m (VIRT_SLICE_ARENA_BYTES div 8) then 0 else - EIO))"

definition record_scrub :: "u32 \<Rightarrow> int \<Rightarrow> u64 \<Rightarrow> arena_state \<Rightarrow> arena_state" where
  "record_scrub index rc elapsed a =
     at_slot index (\<lambda>s. s\<lparr> as_last_rc := rc, as_last_ms := sint elapsed,
       as_scrubs := (if rc = 0 then as_scrubs s + 1 else as_scrubs s),
       as_failures := (if rc = 0 then as_failures s else as_failures s + 1) \<rparr>) a"

text \<open>\<open>elapsed\<close> is the difference of the two clock readings of the source.\<close>

definition virt_slice_arena_scrub :: "u32 \<Rightarrow> u64 \<Rightarrow> slice_io \<Rightarrow> arena_state \<Rightarrow> slice_io \<times> arena_state \<times> int" where
  "virt_slice_arena_scrub index elapsed io a =
     (if index \<ge> 8 then (io, a, - EINVAL)
      else let (io1, rc) = scrub_memory index io in (io1, record_scrub index rc elapsed a, rc))"

section \<open>Slice header\<close>

definition AMBA_VIRT_IAV_WIN_HDR_MAGIC :: u32 where "AMBA_VIRT_IAV_WIN_HDR_MAGIC = 0x57494d41"
definition AMBA_VIRT_IAV_WIN_HDR_VERSION :: u32 where "AMBA_VIRT_IAV_WIN_HDR_VERSION = 1"
abbreviation (input) AMBA_VIRT_IAV_WIN_HDR_BYTES :: nat where "AMBA_VIRT_IAV_WIN_HDR_BYTES \<equiv> 64"
definition AMBA_VIRT_IAV_WIN_ID_SLICE :: u32 where "AMBA_VIRT_IAV_WIN_ID_SLICE = 0x100"

record win_hdr =
  wh_magic :: u32
  wh_version :: u32
  wh_window_id :: u32
  wh_reserved :: u32
  wh_part_len :: u64
  wh_size :: u64

definition le_bytes :: "nat \<Rightarrow> 'a::len word \<Rightarrow> u8 list" where
  "le_bytes n w = map (\<lambda>i. ucast (drop_bit (8 * i) w)) [0..<n]"

text \<open>The bytes of \<open>struct amba_virt_iav_win_hdr\<close> (little-endian, no padding).\<close>

definition win_hdr_bytes :: "win_hdr \<Rightarrow> u8 list" where
  "win_hdr_bytes h = le_bytes 4 (wh_magic h) @ le_bytes 4 (wh_version h) @ le_bytes 4 (wh_window_id h) @
     le_bytes 4 (wh_reserved h) @ le_bytes 8 (wh_part_len h) @ le_bytes 8 (wh_size h)"

definition slice_hdr :: "u32 \<Rightarrow> win_hdr" where
  "slice_hdr index = \<lparr> wh_magic = AMBA_VIRT_IAV_WIN_HDR_MAGIC, wh_version = AMBA_VIRT_IAV_WIN_HDR_VERSION,
     wh_window_id = AMBA_VIRT_IAV_WIN_ID_SLICE + index, wh_reserved = 0,
     wh_part_len = of_nat (VIRT_SLICE_ARENA_BYTES - VIRT_SLICE_ARENA_PAGE), wh_size = of_nat VIRT_SLICE_ARENA_BYTES \<rparr>"

definition put_header :: "u32 \<Rightarrow> slice_io \<Rightarrow> nat \<Rightarrow> u8" where
  "put_header index io =
     (let at = VIRT_SLICE_ARENA_BYTES - AMBA_VIRT_IAV_WIN_HDR_BYTES; src = win_hdr_bytes (slice_hdr index) in
      (\<lambda>k. if at \<le> k \<and> k < VIRT_SLICE_ARENA_BYTES
           then io_store io index k (if k - at < length src then src ! (k - at) else 0)
           else io_mem io index k))"

definition virt_slice_arena_write_header :: "u32 \<Rightarrow> slice_io \<Rightarrow> slice_io \<times> int" where
  "virt_slice_arena_write_header index io =
     (if index \<ge> 8 then (io, - EINVAL)
      else case io_map io index of
        Some e \<Rightarrow> (io, errno_rc e)
      | None \<Rightarrow> (io\<lparr> io_mem := (io_mem io)(index := put_header index io) \<rparr>, 0))"

text \<open>
  The guest's side: \<open>iav_arena_claim_device_locked\<close> of the guest module reads the header from the last 64 bytes
  of the BAR and takes the device when every field matches the arena entry the broker reported.
\<close>

definition read_le :: "nat \<Rightarrow> (nat \<Rightarrow> u8) \<Rightarrow> nat \<Rightarrow> 'a::len word" where
  "read_le n m k = foldr (\<lambda>j w. push_bit 8 w OR ucast (m (k + j))) [0..<n] 0"

definition read_win_hdr :: "(nat \<Rightarrow> u8) \<Rightarrow> nat \<Rightarrow> win_hdr" where
  "read_win_hdr m k = \<lparr> wh_magic = read_le 4 m k, wh_version = read_le 4 m (k + 4), wh_window_id = read_le 4 m (k + 8),
     wh_reserved = read_le 4 m (k + 12), wh_part_len = read_le 8 m (k + 16), wh_size = read_le 8 m (k + 24) \<rparr>"

definition claims_slice :: "u32 \<Rightarrow> u64 \<Rightarrow> u64 \<Rightarrow> u64 \<Rightarrow> (nat \<Rightarrow> u8) \<Rightarrow> bool" where
  "claims_slice ent_index ent_size ent_part_len len m \<longleftrightarrow>
     len = ent_size \<and>
     (let hdr = read_win_hdr m (unat (len - of_nat AMBA_VIRT_IAV_WIN_HDR_BYTES)) in
      wh_magic hdr = AMBA_VIRT_IAV_WIN_HDR_MAGIC \<and> wh_version hdr = AMBA_VIRT_IAV_WIN_HDR_VERSION \<and>
      wh_window_id hdr = AMBA_VIRT_IAV_WIN_ID_SLICE + ent_index \<and> wh_size hdr = len \<and> wh_part_len hdr = ent_part_len)"

section \<open>Status line\<close>

definition arena_slot_text :: "nat \<Rightarrow> arena_slot \<Rightarrow> string" where
  "arena_slot_text i s =
     '' '' @ dec i @ '':'' @ (if as_quarantined s then ''quarantined'' else ''open'') @ '',inflight='' @ dec32 (as_inflight s) @
     '',scrubs='' @ dec64 (as_scrubs s) @ '',failed='' @ dec64 (as_failures s) @ '',last_ms='' @ dec_int (as_last_ms s) @
     '',last_rc='' @ dec_int (as_last_rc s)"

text \<open>The text stops growing once it has reached the size of the buffer.\<close>

definition arena_text :: "nat \<Rightarrow> arena_state \<Rightarrow> string" where
  "arena_text len a =
     foldl (\<lambda>t i. if length t < len then t @ arena_slot_text i (sa_slots a ! i) else t)
       ''SLICES quarantine_ms=4000'' [0..<VIRT_SLICE_ARENA_COUNT]"

definition virt_slice_arena_format :: "nat \<Rightarrow> arena_state \<Rightarrow> int \<times> string" where
  "virt_slice_arena_format len a =
     (if len = 0 then (- 1, [])
      else let t = arena_text len (init_locked_sa a);
               t = (if length t + 1 < len then t @ [nl] else t)
           in (if length t \<ge> len then - 1 else int (length t), snprintf len t))"

end
