(* ===== verification/Slice_Rpc.thy ===== *)
theory Slice_Rpc
  imports C_Text
begin

text \<open>
  Model of \<open>tools/iav_slice_rpc.c\<close>: the bindings of guest CIDs to private slices and the handler of the slice
  query and release messages. Encoding and decoding of the envelope is nanopb and its generated descriptors,
  which are not in the repository: both are parameters of the handler.
\<close>

abbreviation (input) EBADMSG :: int where "EBADMSG \<equiv> 74"
abbreviation (input) EPROTONOSUPPORT :: int where "EPROTONOSUPPORT \<equiv> 93"

record slice_binding =
  sb_used :: bool
  sb_cid :: u32
  sb_window_id :: u32
  sb_usable :: u32

definition zero_binding :: slice_binding where
  "zero_binding = \<lparr> sb_used = False, sb_cid = 0, sb_window_id = 0, sb_usable = 0 \<rparr>"

definition SLICE_USABLE_MAX :: u32 where
  "SLICE_USABLE_MAX = 0x4000000 - 4096"

definition find_cid_sb :: "u32 \<Rightarrow> slice_binding list \<Rightarrow> nat option" where
  "find_cid_sb cid bs = (if cid = 0 then None else first_idx (\<lambda>b. sb_used b \<and> sb_cid b = cid) bs)"

definition iav_slice_rpc_bind :: "u32 \<Rightarrow> u32 \<Rightarrow> u32 \<Rightarrow> slice_binding list \<Rightarrow> slice_binding list \<times> int" where
  "iav_slice_rpc_bind cid window_id usable_length bs =
     (if cid = 0 \<or> usable_length = 0 \<or> usable_length > SLICE_USABLE_MAX then (bs, - EINVAL)
      else case (case find_cid_sb cid bs of Some i \<Rightarrow> Some i | None \<Rightarrow> first_idx (\<lambda>b. \<not> sb_used b) bs) of
        None \<Rightarrow> (bs, - ENOMEM)
      | Some i \<Rightarrow> (bs[i := \<lparr> sb_used = True, sb_cid = cid, sb_window_id = window_id, sb_usable = usable_length \<rparr>], 0))"

definition iav_slice_rpc_unbind :: "u32 \<Rightarrow> slice_binding list \<Rightarrow> slice_binding list" where
  "iav_slice_rpc_unbind cid bs = (case find_cid_sb cid bs of None \<Rightarrow> bs | Some i \<Rightarrow> bs[i := zero_binding])"

definition iav_slice_rpc_reset :: "slice_binding list" where
  "iav_slice_rpc_reset = replicate 8 zero_binding"

definition iav_slice_rpc_held :: "u32 \<Rightarrow> slice_binding list \<Rightarrow> int + u32 \<times> u32" where
  "iav_slice_rpc_held cid bs =
     (case find_cid_sb cid bs of None \<Rightarrow> Inl (- ENOENT) | Some i \<Rightarrow> Inr (sb_window_id (bs ! i), sb_usable (bs ! i)))"

section \<open>Messages\<close>

datatype rpc_body =
    Slice_query_request u32
  | Slice_query_response int u32 u32
  | Slice_release_request u32
  | Slice_release_response int bool
  | Rpc_error int string
  | Other_body

record rpc_envelope =
  re_major :: u32
  re_minor :: u32
  re_request_id :: u64
  re_body :: rpc_body

type_synonym pb_decode_fn = "u8 list \<Rightarrow> rpc_envelope option"
type_synonym pb_encode_fn = "nat \<Rightarrow> rpc_envelope \<Rightarrow> u8 list option"

definition error_env :: "u64 \<Rightarrow> int \<Rightarrow> rpc_envelope" where
  "error_env request_id status = \<lparr> re_major = 1, re_minor = 0, re_request_id = request_id,
     re_body = Rpc_error status (''iav slice rpc status '' @ dec_int status) \<rparr>"

definition encode_env :: "pb_encode_fn \<Rightarrow> nat \<Rightarrow> rpc_envelope \<Rightarrow> int + u8 list" where
  "encode_env pb_encode max_len env = (case pb_encode max_len env of None \<Rightarrow> Inl (- EIO) | Some bs \<Rightarrow> Inr bs)"

text \<open>The envelope the handler answers with.\<close>

definition slice_reply :: "pb_decode_fn \<Rightarrow> u8 list \<Rightarrow> u32 \<Rightarrow> slice_binding list \<Rightarrow> rpc_envelope" where
  "slice_reply pb_decode req client_cid bs =
     (case pb_decode req of
        None \<Rightarrow> error_env 0 (- EBADMSG)
      | Some env \<Rightarrow>
          if re_major env \<noteq> 1 then error_env (re_request_id env) (- EPROTONOSUPPORT)
          else
            let ok = (\<lambda>body. \<lparr> re_major = 1, re_minor = 0, re_request_id = re_request_id env, re_body = body \<rparr>);
                slot = find_cid_sb client_cid bs in
            case re_body env of
              Slice_query_request window_kind \<Rightarrow>
                (if window_kind \<noteq> 1 then error_env (re_request_id env) (- EINVAL)
                 else case slot of
                   None \<Rightarrow> error_env (re_request_id env) (- ENOENT)
                 | Some i \<Rightarrow> ok (Slice_query_response 0 (sb_window_id (bs ! i)) (sb_usable (bs ! i))))
            | Slice_release_request window_id \<Rightarrow>
                ok (Slice_release_response
                  (case slot of None \<Rightarrow> - ENOENT
                   | Some i \<Rightarrow> if window_id \<noteq> sb_window_id (bs ! i) then - EINVAL else 0) True)
            | _ \<Rightarrow> error_env (re_request_id env) (- EINVAL))"

definition iav_slice_rpc_handle :: "pb_decode_fn \<Rightarrow> pb_encode_fn \<Rightarrow> u8 list option \<Rightarrow> nat option \<Rightarrow> u32 \<Rightarrow>
    slice_binding list \<Rightarrow> int + u8 list" where
  "iav_slice_rpc_handle pb_decode pb_encode req max_resp_len client_cid bs =
     (case (req, max_resp_len) of
        (Some r, Some len) \<Rightarrow> encode_env pb_encode len (slice_reply pb_decode r client_cid bs)
      | _ \<Rightarrow> Inl (- EINVAL))"

end
