(* ===== verification/Low_Lease.thy ===== *)
theory Low_Lease
  imports Slice_Lease Slice_Arena Slice_Rpc
begin

text \<open>
  Model of \<open>tools/virt_low_lease.c\<close>: the leases of the eight private low slices, their store, the scrub of
  released slices, and the admin commands. The world the functions work on has the static variables of the
  file, the slice arena and its memory, the bindings of the slice RPC, the file system, and the slice leases
  that a reserve must be paired with. A reserve that waits for a scrub releases the lock in between: it is cut
  there into the call (which may end in \<open>Waiting\<close>) and the wake-ups that follow.
\<close>

section \<open>State\<close>

abbreviation (input) VIRT_LOW_LEASE_COUNT :: nat where "VIRT_LOW_LEASE_COUNT \<equiv> 8"

definition VIRT_LOW_LEASE_STORE :: string where
  "VIRT_LOW_LEASE_STORE = ''/run/amba-virt/low-leases''"

definition VIRT_LOW_LEASE_USABLE :: u32 where
  "VIRT_LOW_LEASE_USABLE = 0x4000000 - 4096"

record low_slot =
  lo_in_use :: bool
  lo_uuid :: string
  lo_index :: u32
  lo_epoch :: u64
  lo_cid :: u32

definition zero_low :: low_slot where
  "zero_low = \<lparr> lo_in_use = False, lo_uuid = [], lo_index = 0, lo_epoch = 0, lo_cid = 0 \<rparr>"

record low_world =
  lw_slots :: "low_slot list"
  lw_scrub :: "bool list"
  lw_wait_ms :: u32
  lw_started :: bool
  lw_stop :: bool
  lw_ready :: bool
  lw_base :: u64
  lw_pid :: u32
  lw_have_pid :: bool
  lw_next_epoch :: u64
  lw_store :: string
  lw_arena :: arena_state
  lw_io :: slice_io
  lw_rpc :: "slice_binding list"
  lw_host :: host
  lw_lease :: lease_state
  lw_cam :: camera_state

text \<open>
  A command ends with a reply, or it waits for a scrub: then its locals (the owner, the CID, the size of the reply
  buffer) stay on the stack of the admin thread.
\<close>

datatype low_reply = Replied string | Waiting string u32 nat

section \<open>Helpers\<close>

definition parse_u32 :: "string \<Rightarrow> u32 option" where
  "parse_u32 s =
     (if s = [] then None
      else case strtoull s of
        None \<Rightarrow> None
      | Some (v, erange, rest) \<Rightarrow> if erange \<or> rest \<noteq> [] \<or> v > 0xffffffff then None else Some (ucast v))"

text \<open>\<open>QUERY_SLICE\<close> leaves the slice leases as they are: only the reply matters.\<close>

definition cavalry_held :: "string \<Rightarrow> low_world \<Rightarrow> bool" where
  "cavalry_held uuid w =
     (let (_, _, _, rc, resp) =
        virt_slice_lease_admin (Some (snprintf 96 (''QUERY_SLICE '' @ uuid))) 160 (lw_lease w) (lw_cam w) (lw_host w)
      in rc = 0 \<and> take 3 resp = ''OK '')"

definition low_line :: "low_slot \<Rightarrow> string" where
  "low_line s = lo_uuid s @ [sp] @ dec32 (lo_index s) @ [sp] @ dec64 (lo_epoch s) @ [sp] @ dec32 (lo_cid s)"

definition scrub_line :: "nat \<Rightarrow> string" where
  "scrub_line i = ''scrub '' @ dec i @ '' 0 0''"

definition low_text :: "low_world \<Rightarrow> string" where
  "low_text w =
     concat (map (\<lambda>s. low_line s @ [nl]) (filter lo_in_use (lw_slots w))) @
     concat (map (\<lambda>i. scrub_line i @ [nl]) (filter (\<lambda>i. lw_scrub w ! i) [0..<VIRT_LOW_LEASE_COUNT]))"

definition save_locked_lo :: "low_world \<Rightarrow> low_world \<times> int" where
  "save_locked_lo w =
     (let (h, rc) = store_write True (lw_store w) (low_text w) (lw_host w) in (w\<lparr> lw_host := h \<rparr>, rc))"

definition find_uuid_lo :: "string \<Rightarrow> low_slot list \<Rightarrow> nat option" where
  "find_uuid_lo uuid ss = first_idx (\<lambda>s. lo_in_use s \<and> lo_uuid s = uuid) ss"

definition index_leased :: "u32 \<Rightarrow> low_slot list \<Rightarrow> bool" where
  "index_leased index ss = list_ex (\<lambda>s. lo_in_use s \<and> lo_index s = index) ss"

definition index_taken_lo :: "u32 \<Rightarrow> low_world \<Rightarrow> bool" where
  "index_taken_lo index w \<longleftrightarrow> index_leased index (lw_slots w) \<or> (index < 8 \<and> lw_scrub w ! unat index)"

definition any_scrub_pending :: "low_world \<Rightarrow> bool" where
  "any_scrub_pending w = list_ex (\<lambda>i. lw_scrub w ! i) [0..<VIRT_LOW_LEASE_COUNT]"

definition write_header :: "u32 \<Rightarrow> low_world \<Rightarrow> low_world" where
  "write_header index w = w\<lparr> lw_io := fst (virt_slice_arena_write_header index (lw_io w)) \<rparr>"

definition low_ok_text :: "low_slot \<Rightarrow> string" where
  "low_ok_text s =
     ''OK index='' @ dec32 (lo_index s) @ '' path=/dev/amba_virt_iav_slice'' @ dec32 (lo_index s) @
     '' epoch='' @ dec64 (lo_epoch s) @ '' usable='' @ dec32 VIRT_LOW_LEASE_USABLE @ [nl]"

definition bind_slot :: "low_slot \<Rightarrow> low_world \<Rightarrow> low_world" where
  "bind_slot s w =
     (if lo_cid s \<noteq> 0 then w\<lparr> lw_rpc := fst (iav_slice_rpc_bind (lo_cid s) (lo_index s) VIRT_LOW_LEASE_USABLE (lw_rpc w)) \<rparr> else w)"

definition unbind_cid :: "u32 \<Rightarrow> low_world \<Rightarrow> low_world" where
  "unbind_cid cid w = w\<lparr> lw_rpc := iav_slice_rpc_unbind cid (lw_rpc w) \<rparr>"

section \<open>Reserve\<close>

definition free_index :: "low_world \<Rightarrow> u32 option" where
  "free_index w = map_option of_nat (find (\<lambda>i. \<not> index_taken_lo (of_nat i) w) [0..<VIRT_LOW_LEASE_COUNT])"

definition reserve_finish :: "string \<Rightarrow> u32 \<Rightarrow> nat \<Rightarrow> u32 option \<Rightarrow> low_world \<Rightarrow> low_world \<times> low_reply" where
  "reserve_finish uuid cid resp_len index w =
     (case index of
        None \<Rightarrow> (w, Replied (snprintf resp_len (ERR ''EXHAUSTED'')))
      | Some index \<Rightarrow>
          (case first_idx (\<lambda>s. \<not> lo_in_use s) (lw_slots w) of
             None \<Rightarrow> (w, Replied (snprintf resp_len (ERR ''EXHAUSTED'')))
           | Some i \<Rightarrow>
               let slot = \<lparr> lo_in_use = True, lo_uuid = snprintf 64 uuid, lo_index = index, lo_epoch = lw_next_epoch w, lo_cid = cid \<rparr>;
                   w1 = w\<lparr> lw_next_epoch := lw_next_epoch w + 1, lw_slots := (lw_slots w)[i := slot] \<rparr>;
                   (w2, rc) = save_locked_lo w1
               in if rc \<noteq> 0
                  then (w2\<lparr> lw_slots := (lw_slots w)[i := zero_low] \<rparr>, Replied (snprintf resp_len (ERR ''PERSIST'')))
                  else (write_header index (bind_slot slot w2), Replied (snprintf resp_len (low_ok_text slot)))))"

definition reserve_loop :: "string \<Rightarrow> u32 \<Rightarrow> nat \<Rightarrow> low_world \<Rightarrow> low_world \<times> low_reply" where
  "reserve_loop uuid cid resp_len w =
     (let index = free_index w in
      if index \<noteq> None \<or> \<not> any_scrub_pending w \<or> lw_wait_ms w = 0 then reserve_finish uuid cid resp_len index w
      else (w, Waiting uuid cid resp_len))"

text \<open>After \<open>pthread_cond_timedwait\<close>: a time-out ends the loop, a wake-up looks again.\<close>

definition reserve_woken :: "string \<Rightarrow> u32 \<Rightarrow> nat \<Rightarrow> bool \<Rightarrow> low_world \<Rightarrow> low_world \<times> low_reply" where
  "reserve_woken uuid cid resp_len timed_out w =
     (if timed_out then reserve_finish uuid cid resp_len (free_index w) w
      else case find_uuid_lo uuid (lw_slots w) of
        Some i \<Rightarrow> (bind_slot (lw_slots w ! i) w, Replied (snprintf resp_len (low_ok_text (lw_slots w ! i))))
      | None \<Rightarrow> reserve_loop uuid cid resp_len w)"

definition reserve_locked_lo :: "string \<Rightarrow> u32 \<Rightarrow> nat \<Rightarrow> low_world \<Rightarrow> low_world \<times> low_reply" where
  "reserve_locked_lo uuid cid resp_len w =
     (let reply = (\<lambda>w msg. (w, Replied (snprintf resp_len msg))) in
      if \<not> lw_ready w then reply w (ERR ''GEOMETRY'')
      else if \<not> uuid_ok uuid \<or> cid = 0 then reply w (ERR ''INVAL'')
      else case find_uuid_lo uuid (lw_slots w) of
        Some i \<Rightarrow>
          let slot = (lw_slots w ! i)\<lparr> lo_cid := cid \<rparr>;
              w1 = (if lo_cid (lw_slots w ! i) \<noteq> cid then unbind_cid (lo_cid (lw_slots w ! i)) w else w);
              w2 = w1\<lparr> lw_slots := (lw_slots w)[i := slot] \<rparr>;
              (w3, rc) = save_locked_lo w2
          in if rc \<noteq> 0 then reply w3 (ERR ''PERSIST'')
             else reply (write_header (lo_index slot) (bind_slot slot w3)) (low_ok_text slot)
      | None \<Rightarrow>
          if lw_next_epoch w = 0 then reply w (ERR ''EXHAUSTED'')
          else reserve_loop uuid cid resp_len w)"

section \<open>Release\<close>

definition release_locked_lo :: "string \<Rightarrow> u64 \<Rightarrow> nat \<Rightarrow> low_world \<Rightarrow> low_world \<times> string" where
  "release_locked_lo uuid epoch resp_len w =
     (let reply = (\<lambda>w msg. (w, snprintf resp_len msg)) in
      if \<not> uuid_ok uuid then reply w (ERR ''INVAL'')
      else case find_uuid_lo uuid (lw_slots w) of
        None \<Rightarrow> reply w (ERR ''NOT_FOUND'')
      | Some i \<Rightarrow>
          let saved = lw_slots w ! i; k = lo_index saved in
          if lo_epoch saved \<noteq> epoch then reply w (ERR ''STALE'')
          else
            let (a, now) = virt_slice_arena_now_ms (lw_io w) (lw_arena w);
                w1 = w\<lparr> lw_arena := virt_slice_arena_quarantine k now a, lw_scrub := (lw_scrub w)[unat k := True] \<rparr>;
                w2 = (unbind_cid (lo_cid saved) w1)\<lparr> lw_slots := (lw_slots w)[i := zero_low] \<rparr>;
                (w3, rc) = save_locked_lo w2
            in if rc \<noteq> 0 then
                 reply (bind_slot saved
                   (w3\<lparr> lw_slots := lw_slots w, lw_scrub := (lw_scrub w3)[unat k := False],
                        lw_arena := virt_slice_arena_unquarantine k (lw_arena w3) \<rparr>)) (ERR ''PERSIST'')
               else reply w3 (''OK'' @ [nl]))"

section \<open>Scrub\<close>

definition scrub_wanted :: "nat \<Rightarrow> low_world \<Rightarrow> bool" where
  "scrub_wanted i w \<longleftrightarrow> lw_scrub w ! i \<and> \<not> index_leased (of_nat i) (lw_slots w)"

definition scrub_memory_of :: "nat \<Rightarrow> u64 \<Rightarrow> low_world \<Rightarrow> low_world \<times> int" where
  "scrub_memory_of i elapsed w =
     (let (io, a, rc) = virt_slice_arena_scrub (of_nat i) elapsed (lw_io w) (lw_arena w)
      in (w\<lparr> lw_io := io, lw_arena := a \<rparr>, rc))"

text \<open>The slice is free: the store is written, whatever that returns.\<close>

definition scrub_finish :: "nat \<Rightarrow> low_world \<Rightarrow> low_world" where
  "scrub_finish i w =
     fst (save_locked_lo (w\<lparr> lw_scrub := (lw_scrub w)[i := False],
       lw_arena := virt_slice_arena_unquarantine (of_nat i) (lw_arena w) \<rparr>))"

definition scrub_slice :: "u64 \<Rightarrow> nat \<Rightarrow> low_world \<times> nat \<Rightarrow> low_world \<times> nat" where
  "scrub_slice elapsed i x =
     (let (w, n) = x in
      if \<not> scrub_wanted i w \<or> \<not> fst (virt_slice_arena_scrub_due (of_nat i) (lw_io w) (lw_arena w)) then (w, n)
      else let (w1, rc) = scrub_memory_of i elapsed w in
        if rc \<noteq> 0 then (w1, n) else (scrub_finish i w1, n + 1))"

definition virt_low_lease_scrub_pass :: "u64 \<Rightarrow> low_world \<Rightarrow> low_world \<times> nat" where
  "virt_low_lease_scrub_pass elapsed w = foldl (\<lambda>x i. scrub_slice elapsed i x) (w, 0) [0..<VIRT_LOW_LEASE_COUNT]"

definition virt_low_lease_scrub_pending :: "u32 \<Rightarrow> low_world \<Rightarrow> bool" where
  "virt_low_lease_scrub_pending index w \<longleftrightarrow> \<not> index \<ge> 8 \<and> lw_scrub w ! unat index"

definition virt_low_lease_set_reserve_wait_ms :: "u32 \<Rightarrow> low_world \<Rightarrow> low_world" where
  "virt_low_lease_set_reserve_wait_ms ms w = w\<lparr> lw_wait_ms := ms \<rparr>"

text \<open>\<open>created\<close> says whether \<open>pthread_create\<close> succeeded.\<close>

definition virt_low_lease_start_scrubber :: "bool \<Rightarrow> low_world \<Rightarrow> low_world \<times> int" where
  "virt_low_lease_start_scrubber created w =
     (if lw_started w then (w, 0)
      else if created then (w\<lparr> lw_stop := False, lw_started := True \<rparr>, 0)
      else (w\<lparr> lw_stop := False \<rparr>, - 11))"

definition virt_low_lease_stop_scrubber :: "low_world \<Rightarrow> low_world" where
  "virt_low_lease_stop_scrubber w = w\<lparr> lw_stop := True, lw_started := False \<rparr>"

section \<open>Start-up\<close>

definition virt_low_lease_reset :: "low_world \<Rightarrow> low_world" where
  "virt_low_lease_reset w =
     (virt_low_lease_stop_scrubber w)\<lparr> lw_slots := replicate VIRT_LOW_LEASE_COUNT zero_low,
       lw_scrub := replicate VIRT_LOW_LEASE_COUNT False, lw_wait_ms := 4000 + 6000, lw_ready := False, lw_base := 0,
       lw_pid := 0, lw_have_pid := False, lw_next_epoch := 1, lw_store := VIRT_LOW_LEASE_STORE,
       lw_rpc := iav_slice_rpc_reset, lw_arena := virt_slice_arena_reset (lw_arena w) \<rparr>"

definition virt_low_lease_set_store :: "string option \<Rightarrow> low_world \<Rightarrow> low_world" where
  "virt_low_lease_set_store path w =
     (case path of
        Some p \<Rightarrow> if p \<noteq> [] \<and> length p < 256 then w\<lparr> lw_store := snprintf 256 p \<rparr> else w
      | None \<Rightarrow> w)"

definition virt_low_lease_set_partition :: "u32 \<Rightarrow> low_world \<Rightarrow> low_world" where
  "virt_low_lease_set_partition pid w = w\<lparr> lw_pid := pid, lw_have_pid := True \<rparr>"

definition virt_low_lease_geometry :: "bool \<Rightarrow> low_world \<Rightarrow> int + u64 \<times> u32" where
  "virt_low_lease_geometry out_given w =
     (if \<not> out_given then Inl (- EINVAL)
      else if lw_ready w \<and> lw_have_pid w then Inr (lw_base w, lw_pid w) else Inl (- ENODEV))"

definition virt_low_lease_set_parent :: "u64 \<Rightarrow> low_world \<Rightarrow> low_world \<times> int" where
  "virt_low_lease_set_parent base w =
     (if base = 0 \<or> base mod 0x4000000 \<noteq> 0 then (w, - EINVAL) else (w\<lparr> lw_base := base, lw_ready := True \<rparr>, 0))"

definition quarantine_one :: "u64 \<Rightarrow> low_world \<Rightarrow> nat \<Rightarrow> low_world" where
  "quarantine_one now w i =
     (if index_leased (of_nat i) (lw_slots w) then w
      else if \<not> lw_scrub w ! i then
        w\<lparr> lw_scrub := (lw_scrub w)[i := True],
           lw_arena := virt_slice_arena_quarantine (of_nat i)
             (if now > VIRT_SLICE_QUARANTINE_MS then now - VIRT_SLICE_QUARANTINE_MS else 0) (lw_arena w) \<rparr>
      else w\<lparr> lw_arena := virt_slice_arena_quarantine (of_nat i) now (lw_arena w) \<rparr>)"

definition quarantine_unleased_locked :: "low_world \<Rightarrow> low_world" where
  "quarantine_unleased_locked w =
     (let (a, now) = virt_slice_arena_now_ms (lw_io w) (lw_arena w); w1 = w\<lparr> lw_arena := a \<rparr> in
      if \<not> lw_ready w then w1 else foldl (quarantine_one now) w1 [0..<VIRT_LOW_LEASE_COUNT])"

definition scan_low :: "string \<Rightarrow> (string \<times> u32 \<times> u64 \<times> u32) option" where
  "scan_low line =
     (case scan_s 63 line of None \<Rightarrow> None | Some (uuid, r1) \<Rightarrow>
      (case scan_u r1 of None \<Rightarrow> None | Some (index, r2) \<Rightarrow>
      (case scan_llu r2 of None \<Rightarrow> None | Some (epoch, r3) \<Rightarrow>
      (case scan_u r3 of None \<Rightarrow> None | Some (cid, _) \<Rightarrow> Some (uuid, index, epoch, cid)))))"

text \<open>What one line of the store does; \<open>None\<close> is the \<open>break\<close> when the table is full.\<close>

definition load_line_lo :: "string \<Rightarrow> low_world \<Rightarrow> low_world option" where
  "load_line_lo line w =
     (case scan_low (c_str line) of
        None \<Rightarrow> Some w
      | Some (uuid, index, epoch, cid) \<Rightarrow>
          if uuid = ''scrub'' then
            Some (if index < 8 then w\<lparr> lw_scrub := (lw_scrub w)[unat index := True] \<rparr> else w)
          else if \<not> lw_ready w \<or> \<not> uuid_ok uuid \<or> epoch = 0 \<or> cid = 0 then Some w
          else if index \<ge> 8 \<or> find_uuid_lo uuid (lw_slots w) \<noteq> None \<or> index_taken_lo index w then Some w
          else case first_idx (\<lambda>s. \<not> lo_in_use s) (lw_slots w) of
            None \<Rightarrow> None
          | Some i \<Rightarrow>
              let slot = \<lparr> lo_in_use = True, lo_uuid = snprintf 64 uuid, lo_index = index, lo_epoch = epoch, lo_cid = cid \<rparr>
              in Some (bind_slot slot (w\<lparr> lw_slots := (lw_slots w)[i := slot],
                   lw_next_epoch := (if epoch \<ge> lw_next_epoch w then (if epoch = - 1 then 0 else epoch + 1)
                                     else lw_next_epoch w) \<rparr>)))"

fun load_lines_lo :: "string list \<Rightarrow> low_world \<Rightarrow> low_world" where
  "load_lines_lo [] w = w"
| "load_lines_lo (l # ls) w = (case load_line_lo l w of None \<Rightarrow> w | Some w' \<Rightarrow> load_lines_lo ls w')"

definition virt_low_lease_load :: "low_world \<Rightarrow> low_world" where
  "virt_low_lease_load w =
     (case store_open (lw_store w) (lw_host w) of
        Inl _ \<Rightarrow> quarantine_unleased_locked w
      | Inr content \<Rightarrow> quarantine_unleased_locked (load_lines_lo (fgets_lines content) w))"

text \<open>\<open>module_rc\<close> is what loading \<open>amba_iav_pool.ko\<close> returned, \<open>created\<close> whether the scrubber thread started.\<close>

definition virt_low_lease_arm_module :: "int \<Rightarrow> bool \<Rightarrow> u64 \<Rightarrow> low_world \<Rightarrow> low_world \<times> int" where
  "virt_low_lease_arm_module module_rc created base w =
     (let (w1, rc) = virt_low_lease_set_parent base w in
      if rc < 0 then (w1, rc)
      else if lw_base w1 \<noteq> base then (w1, - EINVAL)
      else
        let w2 = virt_low_lease_load w1;
            rc = (if module_rc = - EEXIST then 0 else module_rc) in
        if rc = 0 then
          let w3 = foldl (\<lambda>w s. if lo_in_use s then write_header (lo_index s) w else w) w2 (lw_slots w2)
          in (fst (virt_low_lease_start_scrubber created w3), rc)
        else (w2, rc))"

section \<open>Admin commands\<close>

definition virt_low_lease_admin :: "string option \<Rightarrow> nat \<Rightarrow> low_world \<Rightarrow> low_world \<times> int \<times> low_reply" where
  "virt_low_lease_admin req resp_len w =
     (if resp_len = 0 then (w, - 1, Replied [])
      else
      let reply = (\<lambda>msg. (w, 0, Replied (snprintf resp_len msg))); inval = reply (ERR ''INVAL'') in
      case req of
        None \<Rightarrow> inval
      | Some line \<Rightarrow>
          let ws = scan_words 4 63 line; cmd = field ws 0; uuid = field ws 1; num = field ws 2 in
          if length ws < 1 then inval
          else if cmd = ''RESERVE_LOW'' then
            (case parse_u32 num of
               None \<Rightarrow> inval
             | Some cid \<Rightarrow>
                 if \<not> cavalry_held uuid w then reply (ERR ''NOT_PAIRED'')
                 else let (w', r) = reserve_locked_lo uuid cid resp_len w in (w', 0, r))
          else if cmd = ''RELEASE_LOW'' then
            (case parse_u64 num of
               None \<Rightarrow> inval
             | Some epoch \<Rightarrow> (let (w', r) = release_locked_lo uuid epoch resp_len w in (w', 0, Replied r)))
          else if cmd = ''QUERY_LOW'' then
            (case find_uuid_lo uuid (lw_slots w) of
               None \<Rightarrow> reply (ERR ''NOT_FOUND'')
             | Some i \<Rightarrow> reply (low_ok_text (lw_slots w ! i)))
          else reply (ERR ''UNKNOWN_CMD''))"

definition virt_low_lease_index_used :: "u32 \<Rightarrow> low_world \<Rightarrow> bool" where
  "virt_low_lease_index_used index w = index_leased index (lw_slots w)"

end
