(* ===== verification/Low_Lease_Steps.thy ===== *)
theory Low_Lease_Steps
  imports Low_Lease
begin

text \<open>
  The threads that share a low slice, as steps on one state: the admin thread (which may stand in the wait of a
  reserve), the scrubber thread with the four lock regions of its pass, the broker threads with the calls they
  have in flight, the memory traffic of the holders, the clock, and the file system. Between two steps any
  other thread may run, as it may where the code holds no lock.
\<close>

section \<open>State\<close>

datatype admin_pc = Admin_idle | Admin_waits string u32 nat

text \<open>
  The scrubber is between slices, or it found slice \<open>i\<close> pending, or it found its scrub due, or it has
  scrubbed it with result \<open>rc\<close>.
\<close>

datatype scrub_pc = Scrub_idle | Scrub_pending nat | Scrub_due nat | Scrub_done nat int

text \<open>A call counted in flight on a slice; \<open>job_admitted\<close> once the binding was checked again.\<close>

record arena_job =
  job_cid :: u32
  job_index :: u32
  job_admitted :: bool

text \<open>
  \<open>ls_settled\<close> is the time by which the DSP or GDMA work that calls left behind on a slice is over: 4000 ms
  after the end of an admitted call, the bound the quarantine of the source is built on.
\<close>

record low_sys =
  ls_w :: low_world
  ls_admin :: admin_pc
  ls_scrub :: scrub_pc
  ls_jobs :: "arena_job list"
  ls_settled :: "u32 \<Rightarrow> nat"

definition now_of :: "low_sys \<Rightarrow> nat" where
  "now_of s = unat (io_now (lw_io (ls_w s)))"

definition after_reply :: "low_reply \<Rightarrow> admin_pc" where
  "after_reply r = (case r of Replied _ \<Rightarrow> Admin_idle | Waiting uuid cid n \<Rightarrow> Admin_waits uuid cid n)"

section \<open>Broker calls\<close>

text \<open>
  The middle of \<open>do_ioctl\<close>: count the call in flight, then look whether the slice still is the caller's, else
  take the count back; after the ioctl, take the count back.
\<close>

definition slice_of :: "u32 \<Rightarrow> low_world \<Rightarrow> u32 option" where
  "slice_of cid w = (case iav_slice_rpc_held cid (lw_rpc w) of Inl _ \<Rightarrow> None | Inr (window, _) \<Rightarrow> Some window)"

definition job_begin :: "u32 \<Rightarrow> u32 \<Rightarrow> low_sys \<Rightarrow> low_sys option" where
  "job_begin cid index s =
     (let (a, rc) = virt_slice_arena_begin index (lw_arena (ls_w s)) in
      if rc \<noteq> 0 then None
      else Some (s\<lparr> ls_w := (ls_w s)\<lparr> lw_arena := a \<rparr>,
        ls_jobs := \<lparr> job_cid = cid, job_index = index, job_admitted = False \<rparr> # ls_jobs s \<rparr>))"

definition job_leave :: "nat \<Rightarrow> low_sys \<Rightarrow> low_sys" where
  "job_leave k s =
     s\<lparr> ls_w := (ls_w s)\<lparr> lw_arena := virt_slice_arena_end (job_index (ls_jobs s ! k)) (lw_io (ls_w s)) (lw_arena (ls_w s)) \<rparr>,
        ls_jobs := take k (ls_jobs s) @ drop (Suc k) (ls_jobs s) \<rparr>"

definition job_recheck :: "nat \<Rightarrow> low_sys \<Rightarrow> low_sys" where
  "job_recheck k s =
     (let j = ls_jobs s ! k in
      if slice_of (job_cid j) (ls_w s) \<noteq> Some (job_index j) then job_leave k s
      else s\<lparr> ls_jobs := (ls_jobs s)[k := j\<lparr> job_admitted := True \<rparr>] \<rparr>)"

definition job_end :: "nat \<Rightarrow> low_sys \<Rightarrow> low_sys" where
  "job_end k s =
     (job_leave k s)\<lparr> ls_settled := (ls_settled s)(job_index (ls_jobs s ! k) := now_of s + 4000) \<rparr>"

section \<open>Steps\<close>

text \<open>
  Who may write a slice: its holder, a call that was admitted to it and has not ended, and the work such calls
  left behind until it is settled.
\<close>

definition may_write :: "u32 \<Rightarrow> low_sys \<Rightarrow> bool" where
  "may_write i s \<longleftrightarrow> index_leased i (lw_slots (ls_w s)) \<or>
     list_ex (\<lambda>j. job_index j = i \<and> job_admitted j) (ls_jobs s) \<or> now_of s < ls_settled s i"

definition write_byte :: "u32 \<Rightarrow> nat \<Rightarrow> u8 \<Rightarrow> low_sys \<Rightarrow> low_sys" where
  "write_byte i k v s =
     s\<lparr> ls_w := (ls_w s)\<lparr> lw_io := (lw_io (ls_w s))\<lparr> io_mem :=
        (io_mem (lw_io (ls_w s)))(i := (io_mem (lw_io (ls_w s)) i)(k := v)) \<rparr> \<rparr> \<rparr>"

definition pass_time :: "nat \<Rightarrow> low_sys \<Rightarrow> low_sys" where
  "pass_time d s =
     s\<lparr> ls_w := (ls_w s)\<lparr> lw_io := (lw_io (ls_w s))\<lparr> io_now := io_now (lw_io (ls_w s)) + of_nat d \<rparr> \<rparr> \<rparr>"

inductive low_step :: "low_sys \<Rightarrow> low_sys \<Rightarrow> bool" where
  admin: "\<lbrakk> ls_admin s = Admin_idle; virt_low_lease_admin req n (ls_w s) = (w, rc, r) \<rbrakk>
    \<Longrightarrow> low_step s (s\<lparr> ls_w := w, ls_admin := after_reply r \<rparr>)"
| woken: "\<lbrakk> ls_admin s = Admin_waits uuid cid n; reserve_woken uuid cid n timed_out (ls_w s) = (w, r) \<rbrakk>
    \<Longrightarrow> low_step s (s\<lparr> ls_w := w, ls_admin := after_reply r \<rparr>)"
| scrub_check: "\<lbrakk> ls_scrub s = Scrub_idle; i < VIRT_LOW_LEASE_COUNT; scrub_wanted i (ls_w s) \<rbrakk>
    \<Longrightarrow> low_step s (s\<lparr> ls_scrub := Scrub_pending i \<rparr>)"
| scrub_due: "\<lbrakk> ls_scrub s = Scrub_pending i; fst (virt_slice_arena_scrub_due (of_nat i) (lw_io (ls_w s)) (lw_arena (ls_w s))) \<rbrakk>
    \<Longrightarrow> low_step s (s\<lparr> ls_scrub := Scrub_due i \<rparr>)"
| scrub_later: "ls_scrub s = Scrub_pending i \<Longrightarrow> low_step s (s\<lparr> ls_scrub := Scrub_idle \<rparr>)"
| scrub_run: "\<lbrakk> ls_scrub s = Scrub_due i; scrub_memory_of i elapsed (ls_w s) = (w, rc) \<rbrakk>
    \<Longrightarrow> low_step s (s\<lparr> ls_w := w, ls_scrub := Scrub_done i rc \<rparr>)"
| scrub_end: "ls_scrub s = Scrub_done i rc
    \<Longrightarrow> low_step s (s\<lparr> ls_w := (if rc \<noteq> 0 then ls_w s else scrub_finish i (ls_w s)), ls_scrub := Scrub_idle \<rparr>)"
| call_begin: "\<lbrakk> job_begin cid i s = Some s'; Suc (length (ls_jobs s)) < 2 ^ 32 \<rbrakk> \<Longrightarrow> low_step s s'"
| call_recheck: "\<lbrakk> k < length (ls_jobs s); \<not> job_admitted (ls_jobs s ! k) \<rbrakk> \<Longrightarrow> low_step s (job_recheck k s)"
| call_end: "\<lbrakk> k < length (ls_jobs s); job_admitted (ls_jobs s ! k) \<rbrakk> \<Longrightarrow> low_step s (job_end k s)"
| memory_write: "may_write i s \<Longrightarrow> low_step s (write_byte i k v s)"
| clock: "now_of s + d + 4000 < 2 ^ 64 \<Longrightarrow> low_step s (pass_time d s)"
| outside: "low_step s (s\<lparr> ls_w := (ls_w s)\<lparr> lw_host := h, lw_lease := l, lw_cam := c,
     lw_io := (lw_io (ls_w s))\<lparr> io_map := m \<rparr> \<rparr> \<rparr>)"

inductive low_reach :: "low_sys \<Rightarrow> low_sys \<Rightarrow> bool" where
  reach_init: "low_reach s s"
| reach_step: "\<lbrakk> low_reach s0 s; low_step s s' \<rbrakk> \<Longrightarrow> low_reach s0 s'"

text \<open>The server after \<open>virt_low_lease_arm_module\<close>, from any state of the variables and any store.\<close>

definition armed :: "int \<Rightarrow> bool \<Rightarrow> u64 \<Rightarrow> low_world \<Rightarrow> low_sys" where
  "armed module_rc created base w =
     \<lparr> ls_w = fst (virt_low_lease_arm_module module_rc created base (virt_low_lease_reset w)),
       ls_admin = Admin_idle, ls_scrub = Scrub_idle, ls_jobs = [], ls_settled = (\<lambda>_. 0) \<rparr>"

end
