(* ===== verification/Low_Lease_Correct.thy ===== *)
theory Low_Lease_Correct
  imports Low_Lease_Steps
begin

text \<open>
  What the low leases keep at all times: one lease per owner and per slice, bindings only for leased slices, and a
  quarantine only on slices that wait for their scrub; and what every admin command guarantees to the threads
  that run beside it.
\<close>

interpretation low_uuid: keyed_slots lo_in_use lo_uuid zero_low
  by unfold_locales (simp add: zero_low_def)

interpretation low_index: keyed_slots lo_in_use lo_index zero_low
  by unfold_locales (simp add: zero_low_def)

interpretation bind_table: keyed_slots sb_used sb_cid zero_binding
  by unfold_locales (simp add: zero_binding_def)

section \<open>Invariant\<close>

definition low_slot_ok :: "low_slot \<Rightarrow> bool" where
  "low_slot_ok s \<longleftrightarrow> (lo_in_use s \<longrightarrow> uuid_ok (lo_uuid s) \<and> lo_index s < 8 \<and> lo_epoch s \<noteq> 0 \<and> lo_cid s \<noteq> 0)"

definition slots_ok :: "low_slot list \<Rightarrow> bool" where
  "slots_ok ss \<longleftrightarrow> length ss = VIRT_LOW_LEASE_COUNT \<and> list_all low_slot_ok ss \<and>
     unique_keys lo_in_use lo_uuid ss \<and> unique_keys lo_in_use lo_index ss"

definition binding_ok :: "low_slot list \<Rightarrow> slice_binding \<Rightarrow> bool" where
  "binding_ok ss b \<longleftrightarrow> (sb_used b \<longrightarrow>
     list_ex (\<lambda>s. lo_in_use s \<and> lo_index s = sb_window_id b \<and> lo_cid s = sb_cid b) ss)"

definition rpc_ok :: "low_slot list \<Rightarrow> slice_binding list \<Rightarrow> bool" where
  "rpc_ok ss bs \<longleftrightarrow> length bs = 8 \<and> unique_keys sb_used sb_cid bs \<and> list_all (binding_ok ss) bs"

definition arena_ok :: "arena_state \<Rightarrow> bool" where
  "arena_ok a \<longleftrightarrow> sa_init a \<and> length (sa_slots a) = VIRT_SLICE_ARENA_COUNT"

definition quar_ok :: "low_slot list \<Rightarrow> bool list \<Rightarrow> arena_state \<Rightarrow> bool" where
  "quar_ok ss sc a \<longleftrightarrow> length sc = VIRT_LOW_LEASE_COUNT \<and>
     (\<forall>i < 8. as_quarantined (slot_at i a) \<longrightarrow> sc ! unat i \<and> \<not> index_leased i ss)"

definition low_ok :: "low_world \<Rightarrow> bool" where
  "low_ok w \<longleftrightarrow> slots_ok (lw_slots w) \<and> rpc_ok (lw_slots w) (lw_rpc w) \<and> arena_ok (lw_arena w) \<and>
     quar_ok (lw_slots w) (lw_scrub w) (lw_arena w)"

text \<open>
  What a command may change of a slice, seen by another thread: a slice that waits for its scrub stays as it is,
  a slice becomes free only through its scrub, and only the header of a leased slice is written.
\<close>

definition slice_body :: nat where
  "slice_body = VIRT_SLICE_ARENA_BYTES - AMBA_VIRT_IAV_WIN_HDR_BYTES"

definition slice_guar :: "low_world \<Rightarrow> low_world \<Rightarrow> u32 \<Rightarrow> bool" where
  "slice_guar w w' i \<longleftrightarrow>
     as_inflight (slot_at i (lw_arena w')) = as_inflight (slot_at i (lw_arena w)) \<and>
     as_last_end (slot_at i (lw_arena w')) = as_last_end (slot_at i (lw_arena w)) \<and>
     as_released (slot_at i (lw_arena w')) \<in> {as_released (slot_at i (lw_arena w)), io_now (lw_io w)} \<and>
     (\<not> index_leased i (lw_slots w) \<and> lw_scrub w ! unat i \<longrightarrow>
        \<not> index_leased i (lw_slots w') \<and> lw_scrub w' ! unat i \<and>
        as_quarantined (slot_at i (lw_arena w')) = as_quarantined (slot_at i (lw_arena w))) \<and>
     (\<not> index_leased i (lw_slots w') \<and> \<not> lw_scrub w' ! unat i \<longrightarrow>
        \<not> index_leased i (lw_slots w) \<and> \<not> lw_scrub w ! unat i) \<and>
     (\<not> index_leased i (lw_slots w') \<longrightarrow> io_mem (lw_io w') i = io_mem (lw_io w) i) \<and>
     (\<forall>k < slice_body. io_mem (lw_io w') i k = io_mem (lw_io w) i k)"

definition guar :: "low_world \<Rightarrow> low_world \<Rightarrow> bool" where
  "guar w w' \<longleftrightarrow> io_now (lw_io w') = io_now (lw_io w) \<and> (\<forall>i < 8. slice_guar w w' i)"

section \<open>Slots\<close>

lemma zero_low_free [simp]: "\<not> lo_in_use zero_low"
  by (simp add: zero_low_def)

lemma index_leased_live: "index_leased k ss \<longleftrightarrow> k \<in> set (live_keys lo_in_use lo_index ss)"
  by (auto simp: index_leased_def list_ex_iff set_live_keys)

lemma find_uuid_lo_None: "find_uuid_lo u ss = None \<longleftrightarrow> u \<notin> set (live_keys lo_in_use lo_uuid ss)"
  by (auto simp: find_uuid_lo_def first_idx_None set_live_keys)

lemma find_uuid_lo_SomeD: "find_uuid_lo u ss = Some i \<Longrightarrow> i < length ss \<and> lo_in_use (ss ! i) \<and> lo_uuid (ss ! i) = u"
  unfolding find_uuid_lo_def by (drule first_idx_SomeD) simp

lemma slot_ok_nth: "slots_ok ss \<Longrightarrow> i < length ss \<Longrightarrow> lo_in_use (ss ! i)
  \<Longrightarrow> uuid_ok (lo_uuid (ss ! i)) \<and> lo_index (ss ! i) < 8 \<and> lo_epoch (ss ! i) \<noteq> 0 \<and> lo_cid (ss ! i) \<noteq> 0"
  by (auto simp: slots_ok_def list_all_length low_slot_ok_def)

lemma list_all_upd: "list_all P xs \<Longrightarrow> P x \<Longrightarrow> list_all P (xs[i := x])"
  using set_update_subset_insert [of xs i x] by (auto simp: list_all_iff)

lemma slots_ok_claim:
  assumes "slots_ok ss" "i < length ss" "\<not> lo_in_use (ss ! i)" "low_slot_ok s" "lo_in_use s"
    and "find_uuid_lo (lo_uuid s) ss = None" "\<not> index_leased (lo_index s) ss"
  shows "slots_ok (ss[i := s])" "index_leased k (ss[i := s]) \<longleftrightarrow> k = lo_index s \<or> index_leased k ss"
proof -
  show "slots_ok (ss[i := s])"
    using assms by (auto simp: slots_ok_def find_uuid_lo_None index_leased_live intro: unique_keys_insert list_all_upd)
  have "(\<exists>j < length ss. lo_in_use (ss[i := s] ! j) \<and> lo_index (ss[i := s] ! j) = k) \<longleftrightarrow>
      k = lo_index s \<or> (\<exists>j < length ss. lo_in_use (ss ! j) \<and> lo_index (ss ! j) = k)"
    using assms(2,3,5) by (metis nth_list_update_eq nth_list_update_neq)
  then show "index_leased k (ss[i := s]) \<longleftrightarrow> k = lo_index s \<or> index_leased k ss"
    by (auto simp: index_leased_def list_ex_length)
qed

lemma index_leased_clear_free:
  "i < length ss \<Longrightarrow> \<not> lo_in_use (ss ! i) \<Longrightarrow> index_leased k (ss[i := zero_low]) = index_leased k ss"
  using live_keys_update_same [of i ss lo_in_use zero_low lo_index] by (simp add: index_leased_live)

lemma slots_ok_clear: "slots_ok ss \<Longrightarrow> slots_ok (ss[i := zero_low])"
  by (auto simp: slots_ok_def low_slot_ok_def intro: unique_keys_clear list_all_upd)

lemma index_leased_clear:
  assumes "slots_ok ss" "i < length ss" "lo_in_use (ss ! i)"
  shows "index_leased k (ss[i := zero_low]) \<longleftrightarrow> k \<noteq> lo_index (ss ! i) \<and> index_leased k ss"
proof -
  have u: "unique_keys lo_in_use lo_index ss" using assms(1) by (simp add: slots_ok_def)
  show ?thesis
    using low_index.slot_of_release_map [OF u assms(2,3)] low_index.slot_of_None [of ss k]
      low_index.slot_of_None [of "ss[i := zero_low]" k]
    by (auto simp: index_leased_live split: if_splits)
qed

lemma slots_ok_cid:
  assumes "slots_ok ss" "i < length ss" "lo_in_use (ss ! i)" "c \<noteq> 0"
  shows "slots_ok (ss[i := (ss ! i)\<lparr> lo_cid := c \<rparr>])"
    "index_leased k (ss[i := (ss ! i)\<lparr> lo_cid := c \<rparr>]) = index_leased k ss"
  using assms slot_ok_nth [OF assms(1-3)]
  by (auto simp: slots_ok_def index_leased_live live_keys_update_same low_slot_ok_def
      intro!: unique_keys_update_same list_all_upd)

lemma index_leasedI: "i < length ss \<Longrightarrow> lo_in_use (ss ! i) \<Longrightarrow> index_leased (lo_index (ss ! i)) ss"
  by (auto simp: index_leased_def list_ex_length)

section \<open>Bindings\<close>

lemma binding_ok_zero [simp]: "binding_ok ss zero_binding"
  by (simp add: binding_ok_def zero_binding_def)

lemma find_cid_sb_SomeD: "find_cid_sb c bs = Some i \<Longrightarrow> i < length bs \<and> sb_used (bs ! i) \<and> sb_cid (bs ! i) = c"
  unfolding find_cid_sb_def by (auto split: if_splits dest: first_idx_SomeD)

lemma find_cid_sb_None: "c \<noteq> 0 \<Longrightarrow> find_cid_sb c bs = None \<longleftrightarrow> c \<notin> set (live_keys sb_used sb_cid bs)"
  by (auto simp: find_cid_sb_def first_idx_None set_live_keys)

lemma rpc_ok_bind:
  assumes "rpc_ok ss bs" "s \<in> set ss" "lo_in_use s"
  shows "rpc_ok ss (fst (iav_slice_rpc_bind (lo_cid s) (lo_index s) u bs))"
proof -
  let ?b = "\<lparr> sb_used = True, sb_cid = lo_cid s, sb_window_id = lo_index s, sb_usable = u \<rparr>"
  have b: "binding_ok ss ?b" using assms(2,3) by (auto simp: binding_ok_def list_ex_iff)
  have "unique_keys sb_used sb_cid (bs[i := ?b])"
    if "lo_cid s \<noteq> 0" "find_cid_sb (lo_cid s) bs = Some i \<or>
      (find_cid_sb (lo_cid s) bs = None \<and> first_idx (\<lambda>b. \<not> sb_used b) bs = Some i)" for i
    using that(2)
  proof
    assume "find_cid_sb (lo_cid s) bs = Some i"
    then show ?thesis
      using assms(1) find_cid_sb_SomeD [of "lo_cid s" bs i] by (auto simp: rpc_ok_def intro: unique_keys_update_same)
  next
    assume n: "find_cid_sb (lo_cid s) bs = None \<and> first_idx (\<lambda>b. \<not> sb_used b) bs = Some i"
    then have "i < length bs \<and> \<not> sb_used (bs ! i)" using first_idx_SomeD by fastforce
    then show ?thesis using n that(1) assms(1) by (auto simp: rpc_ok_def find_cid_sb_None intro: unique_keys_insert)
  qed
  then show ?thesis
    using assms(1) b unfolding iav_slice_rpc_bind_def
    by (auto simp: rpc_ok_def intro: list_all_upd split: option.splits)
qed

lemma rpc_ok_unused:
  assumes "rpc_ok ss bs" "i < length ss" "\<not> lo_in_use (ss ! i)"
  shows "rpc_ok (ss[i := s]) bs"
proof -
  have "binding_ok ss b \<Longrightarrow> binding_ok (ss[i := s]) b" for b
    using assms(2,3) unfolding binding_ok_def list_ex_length by (metis length_list_update nth_list_update_neq)
  then show ?thesis using assms(1) by (auto simp: rpc_ok_def list_all_iff)
qed

lemma rpc_ok_unbind:
  assumes "rpc_ok ss bs" "i < length ss" "lo_in_use (ss ! i)" "lo_cid (ss ! i) \<noteq> 0"
  shows "rpc_ok (ss[i := s]) (iav_slice_rpc_unbind (lo_cid (ss ! i)) bs)"
proof -
  let ?c = "lo_cid (ss ! i)" and ?bs = "iav_slice_rpc_unbind (lo_cid (ss ! i)) bs"
  have u: "unique_keys sb_used sb_cid bs" using assms(1) by (simp add: rpc_ok_def)
  have none: "?c \<notin> set (live_keys sb_used sb_cid ?bs)"
  proof (cases "find_cid_sb ?c bs")
    case None
    then have "?bs = bs" by (simp add: iav_slice_rpc_unbind_def)
    then show ?thesis using None assms(4) by (simp add: find_cid_sb_None)
  next
    case (Some j)
    then show ?thesis using find_cid_sb_SomeD [OF Some] bind_table.slot_of_release [OF u, of j]
        bind_table.slot_of_None [of "bs[j := zero_binding]" ?c]
      by (simp add: iav_slice_rpc_unbind_def)
  qed
  have all: "list_all (binding_ok ss) ?bs" "unique_keys sb_used sb_cid ?bs" "length ?bs = 8"
    using assms(1) by (auto simp: rpc_ok_def iav_slice_rpc_unbind_def intro: list_all_upd bind_table.release_unique
        split: option.splits)
  have "binding_ok (ss[i := s]) b" if "b \<in> set ?bs" for b
  proof (cases "sb_used b")
    case True
    note b = that
    then have "sb_cid b \<noteq> ?c" using True none by (auto simp: set_live_keys)
    moreover obtain j where "j < length ss" "lo_in_use (ss ! j)" "lo_index (ss ! j) = sb_window_id b" "lo_cid (ss ! j) = sb_cid b"
      using True b all(1) by (auto simp: list_all_iff binding_ok_def list_ex_length)
    moreover have "j \<noteq> i" using calculation by auto
    ultimately show ?thesis by (auto simp: binding_ok_def list_ex_length intro!: exI [of _ j])
  qed (simp add: binding_ok_def)
  then show ?thesis using all by (simp add: rpc_ok_def list_all_iff)
qed

section \<open>Arena\<close>

lemma init_done [simp]: "arena_ok a \<Longrightarrow> init_locked_sa a = a"
  by (simp add: arena_ok_def init_locked_sa_def)

lemma arena_ok_at [simp]: "arena_ok a \<Longrightarrow> arena_ok (at_slot i f a)"
  by (simp add: at_slot_def Let_def) (simp add: arena_ok_def)

lemma unat_less_8: "(i::u32) < 8 \<Longrightarrow> unat i < 8"
  by (simp add: word_less_nat_alt)

lemma slot_at_at [simp]:
  assumes "arena_ok a" "i < 8"
  shows "slot_at j (at_slot i f a) = (if j = i then f (slot_at i a) else slot_at j a)"
proof -
  have "sa_slots (at_slot i f a) = (sa_slots a)[unat i := f (sa_slots a ! unat i)]"
    using assms by (simp add: at_slot_def Let_def)
  moreover have "unat i < length (sa_slots a)" using assms unat_less_8 by (simp add: arena_ok_def)
  moreover have "init_locked_sa (at_slot i f a) = at_slot i f a" using assms by simp
  ultimately show ?thesis using assms(1) by (simp add: slot_at_def nth_list_update word_unat_eq_iff)
qed

lemma arena_quarantine_eq: "i < 8 \<Longrightarrow> virt_slice_arena_quarantine i t a =
    at_slot i (\<lambda>s. s\<lparr> as_quarantined := True, as_released := t \<rparr>) a"
  by (simp add: virt_slice_arena_quarantine_def)

lemma arena_unquarantine_eq: "i < 8 \<Longrightarrow> virt_slice_arena_unquarantine i a = at_slot i (\<lambda>s. s\<lparr> as_quarantined := False \<rparr>) a"
  by (simp add: virt_slice_arena_unquarantine_def)

lemma arena_end_eq: "i < 8 \<Longrightarrow> virt_slice_arena_end i io a =
    at_slot i (\<lambda>s. s\<lparr> as_inflight := (if as_inflight s > 0 then as_inflight s - 1 else as_inflight s),
                       as_last_end := io_now io \<rparr>) a"
  by (simp add: virt_slice_arena_end_def)

lemmas arena_ops = arena_quarantine_eq arena_unquarantine_eq arena_end_eq

lemma header_frame:
  "io_now (fst (virt_slice_arena_write_header i io)) = io_now io"
  "io_store (fst (virt_slice_arena_write_header i io)) = io_store io"
  "j \<noteq> i \<Longrightarrow> io_mem (fst (virt_slice_arena_write_header i io)) j = io_mem io j"
  "k < slice_body \<Longrightarrow> io_mem (fst (virt_slice_arena_write_header i io)) j k = io_mem io j k"
  unfolding virt_slice_arena_write_header_def
  by (auto simp: put_header_def Let_def slice_body_def split: option.split)

section \<open>Commands\<close>

lemma save_lo_frame:
  assumes "save_locked_lo w = (w', rc)"
  obtains h where "w' = w\<lparr> lw_host := h \<rparr>"
  using assms by (auto simp: save_locked_lo_def Let_def split: prod.splits)

lemma guar_refl: "guar w w"
  by (simp add: guar_def slice_guar_def)

text \<open>A change of the slots, the bindings and the header of a leased slice, with the leased slices a superset.\<close>

lemma guar_lease:
  assumes "lw_arena w' = lw_arena w" "lw_scrub w' = lw_scrub w"
    and "\<And>k. k < 8 \<Longrightarrow> index_leased k (lw_slots w') \<longleftrightarrow> index_leased k (lw_slots w) \<or> (k = i \<and> \<not> index_taken_lo i w)"
    and "lw_io w' = lw_io w \<or> (lw_io w' = fst (virt_slice_arena_write_header i (lw_io w)) \<and> index_leased i (lw_slots w'))"
  shows "guar w w'"
proof -
  have now: "io_now (lw_io w') = io_now (lw_io w)" using assms(4) header_frame(1) by auto
  have "slice_guar w w' k" if "k < 8" for k
  proof -
    have mem: "\<not> index_leased k (lw_slots w') \<longrightarrow> io_mem (lw_io w') k = io_mem (lw_io w) k"
      using assms(4) header_frame(3) [of k i] by (cases "k = i") auto
    note l = assms(3) [OF that]
    have "index_leased k (lw_slots w') \<longrightarrow> index_leased k (lw_slots w) \<or> \<not> lw_scrub w ! unat k"
      using l that by (auto simp: index_taken_lo_def)
    moreover have "\<forall>n < slice_body. io_mem (lw_io w') k n = io_mem (lw_io w) k n"
      using assms(4) header_frame(4) by auto
    moreover have "index_leased k (lw_slots w) \<longrightarrow> index_leased k (lw_slots w')" using l by simp
    ultimately show ?thesis using assms(1,2) mem by (auto simp: slice_guar_def)
  qed
  then show ?thesis using now by (simp add: guar_def)
qed

lemma bind_slot_frame: "bind_slot s w = w\<lparr> lw_rpc := lw_rpc (bind_slot s w) \<rparr>"
  by (simp add: bind_slot_def)

lemma bind_slot_ok:
  assumes "low_ok w" "s \<in> set (lw_slots w)" "lo_in_use s"
  shows "low_ok (bind_slot s w)"
  using assms rpc_ok_bind [of "lw_slots w" "lw_rpc w" s] by (simp add: low_ok_def bind_slot_def)

lemma write_header_ok: "low_ok w \<Longrightarrow> low_ok (write_header i w)"
  by (simp add: low_ok_def write_header_def)

lemma free_index_SomeD: "free_index w = Some i \<Longrightarrow> i < 8 \<and> \<not> index_taken_lo i w"
  by (auto simp: free_index_def find_Some_iff word_less_nat_alt unat_of_nat take_bit_nat_eq_self)

lemma low_ok_host: "low_ok w \<Longrightarrow> low_ok (w\<lparr> lw_host := h \<rparr>)"
  by (simp add: low_ok_def)

text \<open>The state in which a reserve of a new owner may go on.\<close>

definition may_reserve :: "string \<Rightarrow> u32 \<Rightarrow> low_world \<Rightarrow> bool" where
  "may_reserve uuid cid w \<longleftrightarrow> uuid_ok uuid \<and> cid \<noteq> 0 \<and> lw_next_epoch w \<noteq> 0 \<and> find_uuid_lo uuid (lw_slots w) = None"

definition outcome_ok :: "low_world \<Rightarrow> low_world \<Rightarrow> low_reply \<Rightarrow> bool" where
  "outcome_ok w w' r \<longleftrightarrow> low_ok w' \<and> guar w w' \<and>
     (case r of Replied _ \<Rightarrow> True | Waiting uuid cid _ \<Rightarrow> may_reserve uuid cid w')"

lemma outcome_ok_same: "low_ok w \<Longrightarrow> outcome_ok w w (Replied m)"
  by (simp add: outcome_ok_def guar_refl)

lemma snprintf_uuid: "uuid_ok u \<Longrightarrow> snprintf 64 u = u"
  by (simp add: snprintf_def uuid_ok_def)

definition new_low :: "string \<Rightarrow> u32 \<Rightarrow> u64 \<Rightarrow> u32 \<Rightarrow> low_slot" where
  "new_low uuid k e cid = \<lparr> lo_in_use = True, lo_uuid = snprintf 64 uuid, lo_index = k, lo_epoch = e, lo_cid = cid \<rparr>"

lemma new_low_sel [simp]: "lo_in_use (new_low u k e c)" "lo_index (new_low u k e c) = k" "lo_cid (new_low u k e c) = c"
  by (simp_all add: new_low_def)

lemma claim_world:
  assumes ok: "low_ok w" and new: "uuid_ok uuid" "cid \<noteq> 0" "e \<noteq> 0" "find_uuid_lo uuid (lw_slots w) = None"
    and k: "k < 8" "\<not> index_taken_lo k w" and i: "i < length (lw_slots w)" "\<not> lo_in_use (lw_slots w ! i)"
  shows "low_ok (w\<lparr> lw_slots := (lw_slots w)[i := new_low uuid k e cid] \<rparr>)"
    "index_leased j ((lw_slots w)[i := new_low uuid k e cid]) \<longleftrightarrow> index_leased j (lw_slots w) \<or> (j = k \<and> \<not> index_taken_lo k w)"
proof -
  have ss: "slots_ok (lw_slots w)" and rp: "rpc_ok (lw_slots w) (lw_rpc w)"
    and qu: "quar_ok (lw_slots w) (lw_scrub w) (lw_arena w)" using ok by (simp_all add: low_ok_def)
  have s_ok: "low_slot_ok (new_low uuid k e cid)" using new k by (simp add: low_slot_ok_def new_low_def snprintf_uuid)
  have f: "find_uuid_lo (lo_uuid (new_low uuid k e cid)) (lw_slots w) = None"
    "\<not> index_leased (lo_index (new_low uuid k e cid)) (lw_slots w)"
    using new k by (simp_all add: new_low_def snprintf_uuid index_taken_lo_def)
  note claim = slots_ok_claim [OF ss i s_ok new_low_sel(1) f]
  have "\<not> as_quarantined (slot_at k (lw_arena w))" using qu k by (auto simp: quar_ok_def index_taken_lo_def)
  then have "quar_ok ((lw_slots w)[i := new_low uuid k e cid]) (lw_scrub w) (lw_arena w)"
    using qu claim(2) by (auto simp: quar_ok_def)
  then show "low_ok (w\<lparr> lw_slots := (lw_slots w)[i := new_low uuid k e cid] \<rparr>)"
    using ok claim(1) rpc_ok_unused [OF rp i] by (simp add: low_ok_def)
  show "index_leased j ((lw_slots w)[i := new_low uuid k e cid]) \<longleftrightarrow> index_leased j (lw_slots w) \<or> (j = k \<and> \<not> index_taken_lo k w)"
    using claim(2) [of j] k by auto
qed

lemma unclaim_world:
  assumes ok: "low_ok w" and i: "i < length (lw_slots w)" "\<not> lo_in_use (lw_slots w ! i)"
  shows "low_ok (w\<lparr> lw_slots := (lw_slots w)[i := zero_low] \<rparr>)"
  using ok slots_ok_clear [of "lw_slots w" i] rpc_ok_unused [OF _ i] index_leased_clear_free [OF i]
  by (simp add: low_ok_def quar_ok_def)

lemma low_ok_cong:
  "low_ok w \<Longrightarrow> lw_slots w' = lw_slots w \<Longrightarrow> lw_rpc w' = lw_rpc w \<Longrightarrow> lw_arena w' = lw_arena w \<Longrightarrow>
   lw_scrub w' = lw_scrub w \<Longrightarrow> low_ok w'"
  by (simp add: low_ok_def)

lemma reserve_finish_ok:
  assumes ok: "low_ok w" and may: "may_reserve uuid cid w" and r: "reserve_finish uuid cid n (free_index w) w = (w', r)"
  shows "outcome_ok w w' r"
proof (cases "free_index w = None \<or> first_idx (\<lambda>s. \<not> lo_in_use s) (lw_slots w) = None")
  case True
  then show ?thesis using ok r by (auto simp: reserve_finish_def outcome_ok_same split: option.splits)
next
  case False
  then obtain k i where k: "free_index w = Some k" and i: "first_idx (\<lambda>s. \<not> lo_in_use s) (lw_slots w) = Some i" by auto
  define s where "s = new_low uuid k (lw_next_epoch w) cid"
  define w1 where "w1 = w\<lparr> lw_next_epoch := lw_next_epoch w + 1, lw_slots := (lw_slots w)[i := s] \<rparr>"
  have i1: "i < length (lw_slots w)" and i2: "\<not> lo_in_use (lw_slots w ! i)" using first_idx_SomeD [OF i] by simp_all
  have k1: "k < 8" and k2: "\<not> index_taken_lo k w" using free_index_SomeD [OF k] by simp_all
  have m: "uuid_ok uuid" "cid \<noteq> 0" "lw_next_epoch w \<noteq> 0" "find_uuid_lo uuid (lw_slots w) = None"
    using may by (simp_all add: may_reserve_def)
  note claim = claim_world [OF ok m k1 k2 i1 i2, folded s_def]
  obtain w2 rc where sv: "save_locked_lo w1 = (w2, rc)" by fastforce
  obtain h where w2: "w2 = w1\<lparr> lw_host := h \<rparr>" using save_lo_frame [OF sv] .
  have res: "(w', r) = (if rc \<noteq> 0 then (w2\<lparr> lw_slots := (lw_slots w)[i := zero_low] \<rparr>, Replied (snprintf n (ERR ''PERSIST'')))
      else (write_header k (bind_slot s w2), Replied (snprintf n (low_ok_text s))))"
    using r k i sv by (simp add: reserve_finish_def Let_def s_def [unfolded new_low_def, symmetric] w1_def [symmetric])
  show ?thesis
  proof (cases "rc = 0")
    case False
    then have w': "w' = w2\<lparr> lw_slots := (lw_slots w)[i := zero_low] \<rparr>" using res by simp
    have "low_ok w'" by (rule low_ok_cong [OF unclaim_world [OF ok i1 i2]]) (simp_all add: w' w2 w1_def)
    moreover have "guar w w'"
      by (rule guar_lease [where i = 8]) (simp_all add: w' w2 w1_def index_leased_clear_free [OF i1 i2], auto)
    ultimately show ?thesis using False res by (simp add: outcome_ok_def)
  next
    case True
    then have w': "w' = write_header k (bind_slot s w2)" using res by simp
    have "low_ok w2" by (rule low_ok_cong [OF claim(1)]) (simp_all add: w2 w1_def)
    moreover have "s \<in> set (lw_slots w2)" using i1 by (simp add: w2 w1_def set_update_memI)
    ultimately have "low_ok w'" unfolding w' by (intro write_header_ok bind_slot_ok) (simp_all add: s_def)
    moreover have "guar w w'"
      by (rule guar_lease [where i = k]) (simp_all add: w' write_header_def bind_slot_def w2 w1_def claim(2) k2)
    ultimately show ?thesis using True res by (simp add: outcome_ok_def)
  qed
qed

lemma reserve_loop_ok:
  assumes "low_ok w" "may_reserve uuid cid w" "reserve_loop uuid cid n w = (w', r)"
  shows "outcome_ok w w' r"
proof (cases "free_index w \<noteq> None \<or> \<not> any_scrub_pending w \<or> lw_wait_ms w = 0")
  case True
  then show ?thesis using assms reserve_finish_ok by (simp add: reserve_loop_def Let_def)
next
  case False
  then show ?thesis using assms by (auto simp: reserve_loop_def outcome_ok_def guar_refl)
qed

lemma reserve_woken_ok:
  assumes "low_ok w" "may_reserve uuid cid w" "reserve_woken uuid cid n timed_out w = (w', r)"
  shows "outcome_ok w w' r"
  using assms reserve_finish_ok [OF assms(1,2)] reserve_loop_ok [OF assms(1,2)]
  by (simp add: reserve_woken_def may_reserve_def split: if_splits)

lemma recid_world:
  assumes ok: "low_ok w" and i: "i < length (lw_slots w)" "lo_in_use (lw_slots w ! i)" and c: "cid \<noteq> 0"
  shows "low_ok ((if lo_cid (lw_slots w ! i) \<noteq> cid then unbind_cid (lo_cid (lw_slots w ! i)) w else w)
      \<lparr> lw_slots := (lw_slots w)[i := (lw_slots w ! i)\<lparr> lo_cid := cid \<rparr>] \<rparr>)"
proof -
  have ss: "slots_ok (lw_slots w)" and rp: "rpc_ok (lw_slots w) (lw_rpc w)" using ok by (simp_all add: low_ok_def)
  have c0: "lo_cid (lw_slots w ! i) \<noteq> 0" using slot_ok_nth [OF ss i] by simp
  have "rpc_ok ((lw_slots w)[i := (lw_slots w ! i)\<lparr> lo_cid := cid \<rparr>])
      (if lo_cid (lw_slots w ! i) \<noteq> cid then iav_slice_rpc_unbind (lo_cid (lw_slots w ! i)) (lw_rpc w) else lw_rpc w)"
    using rpc_ok_unbind [OF rp i c0] rp by auto
  then show ?thesis using ok slots_ok_cid [OF ss i c]
    by (simp add: low_ok_def quar_ok_def unbind_cid_def split: if_splits)
qed

lemma reserve_locked_ok:
  assumes ok: "low_ok w" and r: "reserve_locked_lo uuid cid n w = (w', r)"
  shows "outcome_ok w w' r"
proof (cases "lw_ready w \<and> uuid_ok uuid \<and> cid \<noteq> 0")
  case False
  then show ?thesis using ok r by (auto simp: reserve_locked_lo_def outcome_ok_same Let_def split: if_splits)
next
  case valid: True
  show ?thesis
  proof (cases "find_uuid_lo uuid (lw_slots w)")
    case None
    then show ?thesis using valid ok r reserve_loop_ok [OF ok]
      by (auto simp: reserve_locked_lo_def outcome_ok_same may_reserve_def Let_def split: if_splits)
  next
    case (Some i)
    define s where "s = (lw_slots w ! i)\<lparr> lo_cid := cid \<rparr>"
    define w2 where "w2 = (if lo_cid (lw_slots w ! i) \<noteq> cid then unbind_cid (lo_cid (lw_slots w ! i)) w else w)
      \<lparr> lw_slots := (lw_slots w)[i := s] \<rparr>"
    have i: "i < length (lw_slots w)" "lo_in_use (lw_slots w ! i)" using find_uuid_lo_SomeD [OF Some] by simp_all
    obtain w3 rc where sv: "save_locked_lo w2 = (w3, rc)" by fastforce
    obtain h where w3: "w3 = w2\<lparr> lw_host := h \<rparr>" using save_lo_frame [OF sv] .
    have res: "(w', r) = (if rc \<noteq> 0 then (w3, Replied (snprintf n (ERR ''PERSIST'')))
        else (write_header (lo_index s) (bind_slot s w3), Replied (snprintf n (low_ok_text s))))"
      using r valid Some sv by (simp add: reserve_locked_lo_def Let_def s_def [symmetric] w2_def [symmetric])
    have "low_ok w2" using recid_world [OF ok i, of cid] valid by (simp add: w2_def s_def)
    then have ok3: "low_ok w3" by (simp add: w3 low_ok_host)
    have "slots_ok (lw_slots w)" "cid \<noteq> 0" using ok valid by (simp_all add: low_ok_def)
    note leased = slots_ok_cid(2) [OF this(1) i this(2), folded s_def]
    have s: "s \<in> set (lw_slots w3)" "lo_in_use s" "lo_index s = lo_index (lw_slots w ! i)"
      using i by (simp_all add: w3 w2_def s_def set_update_memI)
    have fr: "lw_arena w3 = lw_arena w" "lw_scrub w3 = lw_scrub w" "lw_io w3 = lw_io w" "lw_slots w3 = (lw_slots w)[i := s]"
      by (simp_all add: w3 w2_def unbind_cid_def)
    have "low_ok w'" using res ok3 s by (auto split: if_splits intro: write_header_ok bind_slot_ok)
    moreover have "index_taken_lo (lo_index s) w" using index_leasedI [OF i] s(3) by (simp add: index_taken_lo_def)
    then have "guar w w'" using index_leasedI [OF i] res
      by (intro guar_lease [where i = "lo_index s"])
        (auto simp: fr leased s(3) write_header_def bind_slot_def split: if_splits)
    ultimately show ?thesis using res by (auto simp: outcome_ok_def split: if_splits)
  qed
qed

text \<open>A release: quarantine, scrub flag, bindings and slot, before the store is written; and their restoration.\<close>

definition released :: "nat \<Rightarrow> low_world \<Rightarrow> low_world" where
  "released i w = (unbind_cid (lo_cid (lw_slots w ! i))
     (w\<lparr> lw_arena := virt_slice_arena_quarantine (lo_index (lw_slots w ! i)) (io_now (lw_io w)) (lw_arena w),
         lw_scrub := (lw_scrub w)[unat (lo_index (lw_slots w ! i)) := True] \<rparr>))\<lparr> lw_slots := (lw_slots w)[i := zero_low] \<rparr>"

definition unreleased :: "nat \<Rightarrow> low_world \<Rightarrow> low_world \<Rightarrow> low_world" where
  "unreleased i w w3 = bind_slot (lw_slots w ! i)
     (w3\<lparr> lw_slots := lw_slots w, lw_scrub := (lw_scrub w3)[unat (lo_index (lw_slots w ! i)) := False],
          lw_arena := virt_slice_arena_unquarantine (lo_index (lw_slots w ! i)) (lw_arena w3) \<rparr>)"

lemma released_world:
  assumes ok: "low_ok w" and i: "i < length (lw_slots w)" "lo_in_use (lw_slots w ! i)"
  shows "low_ok (released i w)" "guar w (released i w)"
proof -
  let ?k = "lo_index (lw_slots w ! i)"
  have ss: "slots_ok (lw_slots w)" and rp: "rpc_ok (lw_slots w) (lw_rpc w)" and ar: "arena_ok (lw_arena w)"
    and qu: "quar_ok (lw_slots w) (lw_scrub w) (lw_arena w)" using ok by (simp_all add: low_ok_def)
  have k: "?k < 8" and c0: "lo_cid (lw_slots w ! i) \<noteq> 0" using slot_ok_nth [OF ss i] by simp_all
  have sc: "(lw_scrub w)[unat ?k := True] ! unat j \<longleftrightarrow> j = ?k \<or> lw_scrub w ! unat j" if "j < 8" for j
    using qu unat_less_8 [OF that] unat_less_8 [OF k] by (auto simp: quar_ok_def nth_list_update word_unat_eq_iff)
  note clear = index_leased_clear [OF ss i]
  have "quar_ok ((lw_slots w)[i := zero_low]) ((lw_scrub w)[unat ?k := True])
      (virt_slice_arena_quarantine ?k (io_now (lw_io w)) (lw_arena w))"
    using ar qu k sc clear by (auto simp: arena_ops quar_ok_def)
  then show "low_ok (released i w)"
    using slots_ok_clear [OF ss, of i] rpc_ok_unbind [OF rp i c0, of zero_low] ar k
    by (simp add: low_ok_def released_def unbind_cid_def arena_ops)
  show "guar w (released i w)"
    using ar k sc clear index_leasedI [OF i] qu
    by (auto simp: guar_def slice_guar_def released_def unbind_cid_def arena_ops quar_ok_def)
qed

lemma unreleased_world:
  assumes ok: "low_ok w" and i: "i < length (lw_slots w)" "lo_in_use (lw_slots w ! i)"
  shows "low_ok (unreleased i w ((released i w)\<lparr> lw_host := h \<rparr>))" "guar w (unreleased i w ((released i w)\<lparr> lw_host := h \<rparr>))"
proof -
  let ?k = "lo_index (lw_slots w ! i)"
  let ?w = "(unreleased i w ((released i w)\<lparr> lw_host := h \<rparr>))"
  have ss: "slots_ok (lw_slots w)" and rp: "rpc_ok (lw_slots w) (lw_rpc w)" and ar: "arena_ok (lw_arena w)"
    and qu: "quar_ok (lw_slots w) (lw_scrub w) (lw_arena w)" using ok by (simp_all add: low_ok_def)
  have k: "?k < 8" and c0: "lo_cid (lw_slots w ! i) \<noteq> 0" using slot_ok_nth [OF ss i] by simp_all
  have sc: "((lw_scrub w)[unat ?k := True])[unat ?k := False] ! unat j \<longleftrightarrow> j \<noteq> ?k \<and> lw_scrub w ! unat j" if "j < 8" for j
    using qu unat_less_8 [OF that] unat_less_8 [OF k] by (auto simp: quar_ok_def nth_list_update word_unat_eq_iff)
  have unb: "rpc_ok (lw_slots w) (iav_slice_rpc_unbind (lo_cid (lw_slots w ! i)) (lw_rpc w))"
    using rpc_ok_unbind [OF rp i c0, of "lw_slots w ! i"] by simp
  have "low_ok ((released i w)\<lparr> lw_host := h, lw_slots := lw_slots w, lw_scrub := (lw_scrub (released i w))[unat ?k := False],
          lw_arena := virt_slice_arena_unquarantine ?k (lw_arena (released i w)) \<rparr>)"
    using ss unb ar qu k sc by (auto simp: low_ok_def released_def unbind_cid_def arena_ops quar_ok_def)
  from bind_slot_ok [OF this] show "low_ok ?w" using i by (simp add: unreleased_def)
  show "guar w ?w"
    using ar k sc qu index_leasedI [OF i]
    by (auto simp: guar_def slice_guar_def unreleased_def released_def bind_slot_def unbind_cid_def arena_ops quar_ok_def)
qed

lemma slice_guar_host: "slice_guar w (w'\<lparr> lw_host := h \<rparr>) = slice_guar w w'"
  by (rule ext) (simp add: slice_guar_def)

lemma guar_host: "guar w w' \<Longrightarrow> guar w (w'\<lparr> lw_host := h \<rparr>)"
  by (simp add: guar_def slice_guar_host)

lemma release_locked_ok:
  assumes ok: "low_ok w" and r: "release_locked_lo uuid epoch n w = (w', r)"
  shows "low_ok w' \<and> guar w w'"
proof (cases "uuid_ok uuid \<and> find_uuid_lo uuid (lw_slots w) \<noteq> None")
  case False
  then show ?thesis using ok r by (auto simp: release_locked_lo_def Let_def guar_refl split: if_splits option.splits)
next
  case True
  then obtain i where f: "find_uuid_lo uuid (lw_slots w) = Some i" by auto
  have i: "i < length (lw_slots w)" "lo_in_use (lw_slots w ! i)" using find_uuid_lo_SomeD [OF f] by simp_all
  show ?thesis
  proof (cases "lo_epoch (lw_slots w ! i) = epoch")
    case False
    then show ?thesis using ok r True f by (auto simp: release_locked_lo_def Let_def guar_refl)
  next
    case e: True
    obtain w3 rc where sv: "save_locked_lo (released i w) = (w3, rc)" by fastforce
    obtain h where w3: "w3 = (released i w)\<lparr> lw_host := h \<rparr>" using save_lo_frame [OF sv] .
    have ar: "arena_ok (lw_arena w)" using ok by (simp add: low_ok_def)
    have "w' = (if rc \<noteq> 0 then unreleased i w w3 else w3)"
      using r True f e sv ar
      by (auto simp: release_locked_lo_def Let_def virt_slice_arena_now_ms_def released_def [symmetric] unreleased_def
          split: if_splits)
    moreover have "low_ok w3 \<and> guar w w3"
      using released_world [OF ok i] by (simp add: w3 low_ok_host guar_host)
    ultimately show ?thesis using unreleased_world [OF ok i, of h] by (auto simp: w3)
  qed
qed

text \<open>A command leaves everything as it is, or it is a reserve, or a release.\<close>

lemma admin_cases_lo:
  assumes "virt_low_lease_admin req n w = (w', rc, r)"
  obtains m where "w' = w" "r = Replied m"
  | uuid cid where "reserve_locked_lo uuid cid n w = (w', r)"
  | uuid epoch m where "release_locked_lo uuid epoch n w = (w', m)" "r = Replied m"
proof (cases req)
  case None
  then show ?thesis using assms that(1) by (auto simp: virt_low_lease_admin_def Let_def split: if_splits)
next
  case (Some line)
  obtain cmd uuid num where w: "field (scan_words 4 63 line) 0 = cmd" "field (scan_words 4 63 line) 1 = uuid"
    "field (scan_words 4 63 line) 2 = num" by blast
  obtain is_res is_rel is_q where c: "(cmd = ''RESERVE_LOW'') = is_res" "(cmd = ''RELEASE_LOW'') = is_rel"
    "(cmd = ''QUERY_LOW'') = is_q" by blast
  have eq: "(w', rc, r) = virt_low_lease_admin (Some line) n w" using assms Some by simp
  show ?thesis
    using eq that
    by (simp only: virt_low_lease_admin_def Let_def w c option.case split: if_split_asm option.split_asm prod.split_asm)
      (blast | simp)+
qed

lemma low_admin_ok:
  assumes ok: "low_ok w" and r: "virt_low_lease_admin req n w = (w', rc, r)"
  shows "outcome_ok w w' r"
  using r
proof (cases rule: admin_cases_lo)
  case 1
  then show ?thesis using ok by (simp add: outcome_ok_same)
next
  case 2
  then show ?thesis by (rule reserve_locked_ok [OF ok])
next
  case 3
  then show ?thesis using release_locked_ok [OF ok] by (simp add: outcome_ok_def)
qed

end
