(* ===== verification/Low_Lease_Safety.thy ===== *)
theory Low_Lease_Safety
  imports Low_Lease_Correct
begin

text \<open>
  The invariant of the low slices under every interleaving of the admin thread, the scrubber, the broker calls and
  the memory traffic: a slice that is free to be leased holds only zeroes and nobody can write it, and a scrub
  runs only on a quarantined slice without a holder, a call in flight or work left behind.
\<close>

section \<open>Invariant\<close>

definition clean :: "u32 \<Rightarrow> low_world \<Rightarrow> bool" where
  "clean i w \<longleftrightarrow> (\<forall>k < VIRT_SLICE_ARENA_BYTES. io_mem (lw_io w) i k = 0)"

definition quiet :: "u32 \<Rightarrow> low_sys \<Rightarrow> bool" where
  "quiet i s \<longleftrightarrow> (\<forall>j \<in> set (ls_jobs s). job_index j = i \<longrightarrow> \<not> job_admitted j) \<and> ls_settled s i \<le> now_of s"

definition idle :: "u32 \<Rightarrow> low_sys \<Rightarrow> bool" where
  "idle i s \<longleftrightarrow> as_quarantined (slot_at i (lw_arena (ls_w s))) \<and> as_inflight (slot_at i (lw_arena (ls_w s))) = 0 \<and>
     ls_settled s i \<le> now_of s"

definition calls_on :: "u32 \<Rightarrow> arena_job list \<Rightarrow> nat" where
  "calls_on i js = length (filter (\<lambda>j. job_index j = i) js)"

definition wanted :: "u32 \<Rightarrow> low_world \<Rightarrow> bool" where
  "wanted i w \<longleftrightarrow> \<not> index_leased i (lw_slots w) \<and> lw_scrub w ! unat i"

definition available :: "u32 \<Rightarrow> low_world \<Rightarrow> bool" where
  "available i w \<longleftrightarrow> \<not> index_leased i (lw_slots w) \<and> \<not> lw_scrub w ! unat i"

definition counts_ok :: "low_sys \<Rightarrow> u32 \<Rightarrow> bool" where
  "counts_ok s i \<longleftrightarrow> unat (as_inflight (slot_at i (lw_arena (ls_w s)))) = calls_on i (ls_jobs s) \<and>
     unat (as_last_end (slot_at i (lw_arena (ls_w s)))) \<le> now_of s \<and>
     unat (as_released (slot_at i (lw_arena (ls_w s)))) \<le> now_of s \<and>
     ls_settled s i \<le> unat (as_last_end (slot_at i (lw_arena (ls_w s)))) + 4000"

definition free_ok :: "low_sys \<Rightarrow> u32 \<Rightarrow> bool" where
  "free_ok s i \<longleftrightarrow> (available i (ls_w s) \<longrightarrow> clean i (ls_w s) \<and> quiet i s)"

definition scrub_ok :: "low_sys \<Rightarrow> bool" where
  "scrub_ok s \<longleftrightarrow>
     (case ls_scrub s of
        Scrub_idle \<Rightarrow> True
      | Scrub_pending i \<Rightarrow> i < 8 \<and> wanted (of_nat i) (ls_w s)
      | Scrub_due i \<Rightarrow> i < 8 \<and> wanted (of_nat i) (ls_w s) \<and> idle (of_nat i) s
      | Scrub_done i rc \<Rightarrow> i < 8 \<and> wanted (of_nat i) (ls_w s) \<and> idle (of_nat i) s \<and> (rc = 0 \<longrightarrow> clean (of_nat i) (ls_w s)))"

definition admin_pc_ok :: "low_sys \<Rightarrow> bool" where
  "admin_pc_ok s \<longleftrightarrow> (case ls_admin s of Admin_idle \<Rightarrow> True | Admin_waits uuid cid _ \<Rightarrow> may_reserve uuid cid (ls_w s))"

definition jobs_ok :: "arena_job list \<Rightarrow> bool" where
  "jobs_ok js \<longleftrightarrow> length js < 2 ^ 32 \<and> (\<forall>j \<in> set js. job_index j < 8)"

definition sys_ok :: "low_sys \<Rightarrow> bool" where
  "sys_ok s \<longleftrightarrow> low_ok (ls_w s) \<and> admin_pc_ok s \<and> now_of s + 4000 < 2 ^ 64 \<and> jobs_ok (ls_jobs s) \<and> scrub_ok s \<and>
     (\<forall>i < 8. counts_ok s i \<and> free_ok s i)"

lemma sys_okI:
  assumes "low_ok (ls_w s)" "admin_pc_ok s" "now_of s + 4000 < 2 ^ 64" "jobs_ok (ls_jobs s)" "scrub_ok s"
    and "\<And>i. i < 8 \<Longrightarrow> counts_ok s i" "\<And>i. i < 8 \<Longrightarrow> free_ok s i"
  shows "sys_ok s"
  using assms by (simp add: sys_ok_def)

lemma sys_okD:
  assumes "sys_ok s"
  shows "low_ok (ls_w s)" "admin_pc_ok s" "now_of s + 4000 < 2 ^ 64" "jobs_ok (ls_jobs s)" "scrub_ok s"
    and "\<And>i. i < 8 \<Longrightarrow> counts_ok s i" "\<And>i. i < 8 \<Longrightarrow> free_ok s i"
  using assms by (simp_all add: sys_ok_def)

section \<open>Admin commands\<close>

lemma of_nat_less_8: "i < 8 \<Longrightarrow> (of_nat i :: u32) < 8" "i < 8 \<Longrightarrow> unat (of_nat i :: u32) = i"
  by (simp_all add: word_less_nat_alt unat_of_nat take_bit_nat_eq_self)

lemma guar_facts:
  assumes g: "guar w w'" and i: "i < 8"
  shows "as_inflight (slot_at i (lw_arena w')) = as_inflight (slot_at i (lw_arena w))"
    "as_last_end (slot_at i (lw_arena w')) = as_last_end (slot_at i (lw_arena w))"
    "as_released (slot_at i (lw_arena w')) = as_released (slot_at i (lw_arena w)) \<or>
     as_released (slot_at i (lw_arena w')) = io_now (lw_io w)"
    "io_now (lw_io w') = io_now (lw_io w)"
    "wanted i w \<Longrightarrow> wanted i w'"
    "wanted i w \<Longrightarrow> as_quarantined (slot_at i (lw_arena w')) = as_quarantined (slot_at i (lw_arena w))"
    "available i w' \<Longrightarrow> available i w"
    "\<not> index_leased i (lw_slots w') \<Longrightarrow> clean i w' = clean i w"
    "\<And>k. k < slice_body \<Longrightarrow> io_mem (lw_io w') i k = io_mem (lw_io w) i k"
proof -
  have s: "slice_guar w w' i" using assms by (simp add: guar_def)
  note s = s [unfolded slice_guar_def]
  show "as_inflight (slot_at i (lw_arena w')) = as_inflight (slot_at i (lw_arena w))" using s by blast
  show "as_last_end (slot_at i (lw_arena w')) = as_last_end (slot_at i (lw_arena w))" using s by blast
  show "as_released (slot_at i (lw_arena w')) = as_released (slot_at i (lw_arena w)) \<or>
     as_released (slot_at i (lw_arena w')) = io_now (lw_io w)" using s by blast
  show "io_now (lw_io w') = io_now (lw_io w)" using g by (simp add: guar_def)
  show "wanted i w \<Longrightarrow> wanted i w'" using s unfolding wanted_def by blast
  show "wanted i w \<Longrightarrow> as_quarantined (slot_at i (lw_arena w')) = as_quarantined (slot_at i (lw_arena w))"
    using s unfolding wanted_def by blast
  show "available i w' \<Longrightarrow> available i w" using s unfolding available_def by blast
  show "\<not> index_leased i (lw_slots w') \<Longrightarrow> clean i w' = clean i w"
    using s unfolding clean_def by metis
  show "\<And>k. k < slice_body \<Longrightarrow> io_mem (lw_io w') i k = io_mem (lw_io w) i k" using s by blast
qed

lemma admin_pc_ok_after: "outcome_ok w w' r \<Longrightarrow> admin_pc_ok (s\<lparr> ls_w := w', ls_admin := after_reply r \<rparr>)"
  by (auto simp: outcome_ok_def admin_pc_ok_def after_reply_def split: low_reply.splits)

lemma admin_step_ok:
  assumes ok: "sys_ok s" and out: "outcome_ok (ls_w s) w r"
  shows "sys_ok (s\<lparr> ls_w := w, ls_admin := after_reply r \<rparr>)"
proof (rule sys_okI)
  let ?s = "s\<lparr> ls_w := w, ls_admin := after_reply r \<rparr>"
  have g: "guar (ls_w s) w" and w: "low_ok w" using out by (simp_all add: outcome_ok_def)
  have now: "now_of ?s = now_of s" using g by (simp add: now_of_def guar_def)
  show "low_ok (ls_w ?s)" using w by simp
  show "admin_pc_ok ?s" using out by (rule admin_pc_ok_after)
  show "now_of ?s + 4000 < 2 ^ 64" using sys_okD(3) [OF ok] now by simp
  show "jobs_ok (ls_jobs ?s)" using sys_okD(4) [OF ok] by simp
  have idle: "wanted i (ls_w s) \<Longrightarrow> idle i s \<Longrightarrow> idle i ?s" if "i < 8" for i
    using guar_facts(1,6) [OF g that] now unfolding idle_def by simp
  have cl: "wanted i (ls_w s) \<Longrightarrow> clean i (ls_w s) \<Longrightarrow> clean i w" if "i < 8" for i
    using guar_facts(5,8) [OF g that] unfolding wanted_def by blast
  show "scrub_ok ?s"
    using sys_okD(5) [OF ok] guar_facts(5) [OF g of_nat_less_8(1)] idle [OF of_nat_less_8(1)] cl [OF of_nat_less_8(1)]
    unfolding scrub_ok_def by (auto split: scrub_pc.splits)
  fix i :: u32
  assume i: "i < 8"
  note f = guar_facts [OF g i]
  show "counts_ok ?s i"
    using sys_okD(6) [OF ok i] f(1,2,3) now by (auto simp: counts_ok_def now_of_def)
  show "free_ok ?s i"
  proof -
    have "available i w \<Longrightarrow> clean i w = clean i (ls_w s)" using f(8) unfolding available_def by blast
    moreover have "quiet i ?s = quiet i s" using now by (simp add: quiet_def)
    ultimately show ?thesis using sys_okD(7) [OF ok i] f(7) unfolding free_ok_def by simp
  qed
qed

section \<open>Scrub\<close>

lemma push_ucast_0: "n + 8 \<le> 64 \<Longrightarrow> push_bit n (ucast (b::u8) :: u64) = 0 \<Longrightarrow> b = 0"
proof -
  assume n: "n + 8 \<le> 64" and z: "push_bit n (ucast b :: u64) = 0"
  have "\<not> bit b j" if "j < 8" for j
  proof -
    have "bit (push_bit n (ucast b :: u64)) (n + j) = bit b j" using n that by (simp add: bit_simps)
    then show ?thesis using z by simp
  qed
  then show "b = 0" by (intro bit_word_eqI) simp
qed

lemma le64_at_0: "le64_at m k = 0 \<Longrightarrow> j < 8 \<Longrightarrow> m (k + j) = 0"
proof -
  assume z: "le64_at m k = 0" and j: "j < 8"
  have l: "[0..<8] = [0, 1, 2, 3, 4, 5, 6, 7::nat]" by (simp add: upt_rec)
  have "push_bit 56 (ucast (m (k + 7)) :: u64) = 0" "push_bit 48 (ucast (m (k + 6)) :: u64) = 0"
    "push_bit 40 (ucast (m (k + 5)) :: u64) = 0" "push_bit 32 (ucast (m (k + 4)) :: u64) = 0"
    "push_bit 24 (ucast (m (k + 3)) :: u64) = 0" "push_bit 16 (ucast (m (k + 2)) :: u64) = 0"
    "push_bit 8 (ucast (m (k + 1)) :: u64) = 0" "push_bit 0 (ucast (m (k + 0)) :: u64) = 0"
    using z by (simp_all add: le64_at_def l push_bit_or or_eq_0_iff)
  note this [THEN push_ucast_0 [rotated]]
  moreover have "j \<in> {0, 1, 2, 3, 4, 5, 6, 7}" using j by auto
  ultimately show "m (k + j) = 0" by auto
qed

lemma readback_zero_all: "readback_zero m n \<Longrightarrow> k < 8 * n \<Longrightarrow> m k = 0"
proof -
  assume r: "readback_zero m n" and k: "k < 8 * n"
  have "k div 8 < n" using k by (simp add: less_mult_imp_div_less mult.commute)
  then have "le64_at m (8 * (k div 8)) = 0" using r by (auto simp: readback_zero_def list_all_iff)
  from le64_at_0 [OF this, of "k mod 8"] show "m k = 0" by simp
qed

text \<open>A scrub that reports success has read back zeroes from the whole slice, whatever the memory does to a store.\<close>

lemma scrub_memory_clean:
  "scrub_memory i io = (io', 0) \<Longrightarrow> k < VIRT_SLICE_ARENA_BYTES \<Longrightarrow> io_mem io' i k = 0"
  by (auto simp: scrub_memory_def errno_rc_def Let_def split: option.splits if_splits dest: readback_zero_all)

lemma scrub_memory_frame:
  "scrub_memory i io = (io', rc) \<Longrightarrow> io_now io' = io_now io \<and> io_store io' = io_store io \<and> (\<forall>j. j \<noteq> i \<longrightarrow> io_mem io' j = io_mem io j)"
  by (auto simp: scrub_memory_def Let_def split: option.splits)

lemma scrub_pc_step:
  assumes "sys_ok s" "scrub_ok (s\<lparr> ls_scrub := p \<rparr>)"
  shows "sys_ok (s\<lparr> ls_scrub := p \<rparr>)"
  using assms by (simp add: sys_ok_def admin_pc_ok_def now_of_def counts_ok_def free_ok_def quiet_def split: admin_pc.splits)

lemma due_idle:
  assumes ok: "sys_ok s" and i: "i < 8" and due: "fst (virt_slice_arena_scrub_due i (lw_io (ls_w s)) (lw_arena (ls_w s)))"
  shows "idle i s"
proof -
  let ?x = "slot_at i (lw_arena (ls_w s))" and ?now = "io_now (lw_io (ls_w s))"
  let ?from = "if as_released ?x > as_last_end ?x then as_released ?x else as_last_end ?x"
  have d: "as_quarantined ?x" "as_inflight ?x = 0" "?from + 4000 \<le> ?now"
    using due i by (auto simp: virt_slice_arena_scrub_due_def Let_def split: if_splits)
  have c: "unat (as_last_end ?x) \<le> unat ?now" "unat (as_released ?x) \<le> unat ?now"
    "ls_settled s i \<le> unat (as_last_end ?x) + 4000" "unat ?now + 4000 < 2 ^ 64"
    using sys_okD(6) [OF ok i] sys_okD(3) [OF ok] by (simp_all add: counts_ok_def now_of_def)
  have f: "unat (as_last_end ?x) \<le> unat ?from" "unat ?from \<le> unat ?now"
    using c by (auto simp: word_less_nat_alt)
  have "unat (?from + 4000) = unat ?from + 4000"
    using c(4) f(2) unat_add_lem [of ?from "4000 :: u64"] by simp
  then have "unat ?from + 4000 \<le> unat ?now" using d(3) by (simp add: word_le_nat_alt)
  then show ?thesis using d c f by (simp add: idle_def now_of_def)
qed

lemma scrub_due_step:
  assumes ok: "sys_ok s" and pc: "ls_scrub s = Scrub_pending i"
    and due: "fst (virt_slice_arena_scrub_due (of_nat i) (lw_io (ls_w s)) (lw_arena (ls_w s)))"
  shows "sys_ok (s\<lparr> ls_scrub := Scrub_due i \<rparr>)"
proof (rule scrub_pc_step [OF ok])
  have i: "i < 8" "wanted (of_nat i) (ls_w s)" using sys_okD(5) [OF ok] pc by (simp_all add: scrub_ok_def)
  have "idle (of_nat i) s" using due_idle [OF ok of_nat_less_8(1) [OF i(1)] due] .
  then show "scrub_ok (s\<lparr> ls_scrub := Scrub_due i \<rparr>)" using i by (simp add: scrub_ok_def idle_def now_of_def)
qed

text \<open>What a scrub changes: the memory of its slice and the counters of the status line.\<close>

definition scrub_frame :: "u32 \<Rightarrow> low_world \<Rightarrow> low_world \<Rightarrow> bool" where
  "scrub_frame i w w' \<longleftrightarrow> lw_slots w' = lw_slots w \<and> lw_scrub w' = lw_scrub w \<and> lw_rpc w' = lw_rpc w \<and>
     lw_next_epoch w' = lw_next_epoch w \<and> arena_ok (lw_arena w') \<and> io_now (lw_io w') = io_now (lw_io w) \<and>
     (\<forall>j. j \<noteq> i \<longrightarrow> io_mem (lw_io w') j = io_mem (lw_io w) j) \<and>
     (\<forall>j. as_quarantined (slot_at j (lw_arena w')) = as_quarantined (slot_at j (lw_arena w)) \<and>
          as_inflight (slot_at j (lw_arena w')) = as_inflight (slot_at j (lw_arena w)) \<and>
          as_last_end (slot_at j (lw_arena w')) = as_last_end (slot_at j (lw_arena w)) \<and>
          as_released (slot_at j (lw_arena w')) = as_released (slot_at j (lw_arena w)))"

lemma scrub_memory_of_frame:
  assumes "scrub_memory_of i e w = (w', rc)" "i < 8" "arena_ok (lw_arena w)"
  shows "scrub_frame (of_nat i) w w'" "rc = 0 \<Longrightarrow> clean (of_nat i) w'"
proof -
  have i: "(of_nat i :: u32) < 8" using of_nat_less_8(1) [OF assms(2)] .
  obtain io rc' where io': "scrub_memory (of_nat i) (lw_io w) = (io, rc')" by fastforce
  then have w': "w' = w\<lparr> lw_io := io, lw_arena := record_scrub (of_nat i) rc e (lw_arena w) \<rparr>" and "rc' = rc"
    using assms(1) i by (auto simp: scrub_memory_of_def virt_slice_arena_scrub_def Let_def not_le [symmetric])
  then have io: "scrub_memory (of_nat i) (lw_io w) = (io, rc)" using io' by simp
  show "scrub_frame (of_nat i) w w'"
    using scrub_memory_frame [OF io] assms(3) i by (simp add: scrub_frame_def w' record_scrub_def)
  show "clean (of_nat i) w'" if "rc = 0"
    using scrub_memory_clean [of "of_nat i" "lw_io w" io] io that by (simp add: clean_def w')
qed

lemma scrub_run_step:
  assumes ok: "sys_ok s" and pc: "ls_scrub s = Scrub_due i" and run: "scrub_memory_of i e (ls_w s) = (w, rc)"
  shows "sys_ok (s\<lparr> ls_w := w, ls_scrub := Scrub_done i rc \<rparr>)"
proof (rule sys_okI)
  let ?s = "s\<lparr> ls_w := w, ls_scrub := Scrub_done i rc \<rparr>"
  have lok: "low_ok (ls_w s)" using sys_okD(1) [OF ok] .
  have i: "i < 8" and wa: "wanted (of_nat i) (ls_w s)" and id: "idle (of_nat i) s"
    using sys_okD(5) [OF ok] pc by (simp_all add: scrub_ok_def)
  have f: "scrub_frame (of_nat i) (ls_w s) w" and cl: "rc = 0 \<Longrightarrow> clean (of_nat i) w"
    using scrub_memory_of_frame [OF run i] lok by (simp_all add: low_ok_def)
  note fr = f [unfolded scrub_frame_def]
  have now: "now_of ?s = now_of s" using fr by (simp add: now_of_def)
  show "low_ok (ls_w ?s)" using lok fr by (simp add: low_ok_def quar_ok_def)
  show "admin_pc_ok ?s" using sys_okD(2) [OF ok] fr by (simp add: admin_pc_ok_def may_reserve_def split: admin_pc.splits)
  show "now_of ?s + 4000 < 2 ^ 64" using sys_okD(3) [OF ok] now by simp
  show "jobs_ok (ls_jobs ?s)" using sys_okD(4) [OF ok] by simp
  show "scrub_ok ?s" using i wa id cl fr now by (simp add: scrub_ok_def wanted_def idle_def)
  fix k :: u32
  assume k: "k < 8"
  show "counts_ok ?s k" using sys_okD(6) [OF ok k] fr now by (simp add: counts_ok_def)
  have "available k w \<Longrightarrow> k \<noteq> of_nat i" using wa fr by (auto simp: available_def wanted_def)
  then show "free_ok ?s k"
    using sys_okD(7) [OF ok k] fr now by (auto simp: free_ok_def available_def clean_def quiet_def)
qed

lemma scrub_finish_frame:
  obtains h where "scrub_finish i w = w\<lparr> lw_scrub := (lw_scrub w)[i := False],
    lw_arena := virt_slice_arena_unquarantine (of_nat i) (lw_arena w), lw_host := h \<rparr>"
  unfolding scrub_finish_def by (metis prod.collapse save_lo_frame)

lemma scrub_end_step:
  assumes ok: "sys_ok s" and pc: "ls_scrub s = Scrub_done i rc"
  shows "sys_ok (s\<lparr> ls_w := (if rc \<noteq> 0 then ls_w s else scrub_finish i (ls_w s)), ls_scrub := Scrub_idle \<rparr>)"
proof (cases "rc = 0")
  case False
  then show ?thesis using scrub_pc_step [OF ok, of Scrub_idle] by (simp add: scrub_ok_def)
next
  case True
  let ?w = "scrub_finish i (ls_w s)" and ?i = "of_nat i :: u32"
  let ?s = "s\<lparr> ls_w := ?w, ls_scrub := Scrub_idle \<rparr>"
  have lok: "low_ok (ls_w s)" using sys_okD(1) [OF ok] .
  have i: "i < 8" and wa: "wanted ?i (ls_w s)" and id: "idle ?i s" and cl: "clean ?i (ls_w s)"
    using sys_okD(5) [OF ok] pc True by (simp_all add: scrub_ok_def)
  note i8 = of_nat_less_8 [OF i]
  obtain h where w: "?w = (ls_w s)\<lparr> lw_scrub := (lw_scrub (ls_w s))[i := False],
      lw_arena := virt_slice_arena_unquarantine ?i (lw_arena (ls_w s)), lw_host := h \<rparr>"
    by (rule scrub_finish_frame)
  have sc: "(lw_scrub (ls_w s))[i := False] ! unat k \<longleftrightarrow> k \<noteq> ?i \<and> lw_scrub (ls_w s) ! unat k" if "k < 8" for k
  proof -
    have "length (lw_scrub (ls_w s)) = 8" using lok by (simp add: low_ok_def quar_ok_def)
    then show ?thesis using i i8 unat_less_8 [OF that] by (auto simp: nth_list_update word_unat_eq_iff)
  qed
  have ar: "arena_ok (lw_arena (ls_w s))" using lok by (simp add: low_ok_def)
  have now: "now_of ?s = now_of s" by (simp add: now_of_def w)
  have none: "calls_on ?i (ls_jobs s) = 0" using sys_okD(6) [OF ok i8(1)] id by (simp add: counts_ok_def idle_def)
  have "sys_ok ?s"
  proof (rule sys_okI)
    show "low_ok (ls_w ?s)"
      using lok ar i8 sc by (auto simp: low_ok_def quar_ok_def w arena_ops)
    show "admin_pc_ok ?s" using sys_okD(2) [OF ok] by (simp add: admin_pc_ok_def may_reserve_def w split: admin_pc.splits)
    show "now_of ?s + 4000 < 2 ^ 64" "jobs_ok (ls_jobs ?s)" "scrub_ok ?s"
      using sys_okD(3,4) [OF ok] now by (simp_all add: scrub_ok_def)
    fix k :: u32
    assume k: "k < 8"
    show "counts_ok ?s k" using sys_okD(6) [OF ok k] now ar i8 by (auto simp: counts_ok_def w arena_ops)
    have "quiet ?i s" using none id by (auto simp: quiet_def idle_def calls_on_def filter_empty_conv)
    then show "free_ok ?s k"
      using sys_okD(7) [OF ok k] now sc [OF k] cl by (auto simp: free_ok_def available_def clean_def quiet_def w)
  qed
  then show ?thesis using True by simp
qed

section \<open>Broker calls\<close>

lemma idle_no_calls: "sys_ok s \<Longrightarrow> i < 8 \<Longrightarrow> idle i s \<Longrightarrow> j \<in> set (ls_jobs s) \<Longrightarrow> job_index j \<noteq> i"
  using sys_okD(6) [of s i] by (auto simp: counts_ok_def idle_def calls_on_def filter_empty_conv)

lemma job_begin_step:
  assumes ok: "sys_ok s" and b: "job_begin cid i s = Some s'" and room: "Suc (length (ls_jobs s)) < 2 ^ 32"
  shows "sys_ok s'"
proof -
  let ?a = "lw_arena (ls_w s)" and ?j = "\<lparr> job_cid = cid, job_index = i, job_admitted = False \<rparr>"
  have i: "i < 8" and nq: "\<not> as_quarantined (slot_at i ?a)"
    and s': "s' = s\<lparr> ls_w := (ls_w s)\<lparr> lw_arena := at_slot i (\<lambda>x. x\<lparr> as_inflight := as_inflight x + 1 \<rparr>) ?a \<rparr>, ls_jobs := ?j # ls_jobs s \<rparr>"
    using b by (auto simp: job_begin_def virt_slice_arena_begin_def split: if_splits)
  have lok: "low_ok (ls_w s)" and ar: "arena_ok ?a" using sys_okD(1) [OF ok] by (simp_all add: low_ok_def)
  have now: "now_of s' = now_of s" by (simp add: now_of_def s')
  have "calls_on i (ls_jobs s) \<le> length (ls_jobs s)" by (simp add: calls_on_def)
  then have "unat (as_inflight (slot_at i ?a)) + unat (1::u32) < 2 ^ 32"
    using sys_okD(6) [OF ok i] room by (simp add: counts_ok_def)
  note inc = unat_add_32 [OF this]
  have idle: "idle k s \<Longrightarrow> idle k s'" for k using nq ar i now by (auto simp: idle_def s')
  show ?thesis
  proof (rule sys_okI)
    show "low_ok (ls_w s')" using lok ar i by (auto simp: low_ok_def quar_ok_def s')
    show "admin_pc_ok s'" using sys_okD(2) [OF ok] by (simp add: admin_pc_ok_def may_reserve_def s' split: admin_pc.splits)
    show "now_of s' + 4000 < 2 ^ 64" using sys_okD(3) [OF ok] now by simp
    show "jobs_ok (ls_jobs s')" using sys_okD(4) [OF ok] room i by (simp add: jobs_ok_def s')
    show "scrub_ok s'" using sys_okD(5) [OF ok] idle by (auto simp: scrub_ok_def s' wanted_def clean_def split: scrub_pc.splits)
    fix k :: u32
    assume k: "k < 8"
    show "counts_ok s' k" using sys_okD(6) [OF ok k] now ar i inc by (auto simp: counts_ok_def s' calls_on_def)
    show "free_ok s' k" using sys_okD(7) [OF ok k] now by (auto simp: free_ok_def s' available_def clean_def quiet_def)
  qed
qed

lemma calls_on_remove:
  assumes "k < length js"
  shows "calls_on i js = calls_on i (take k js @ drop (Suc k) js) + (if job_index (js ! k) = i then 1 else 0)"
proof -
  have "js = take k js @ js ! k # drop (Suc k) js" using assms by (rule id_take_nth_drop)
  then have "calls_on i js = calls_on i (take k js @ js ! k # drop (Suc k) js)" by simp
  then show ?thesis by (simp add: calls_on_def)
qed

lemma set_remove: "set (take k js @ drop (Suc k) js) \<subseteq> set js"
  by (auto dest: in_set_takeD in_set_dropD)

text \<open>A call leaves: its count goes, and what it may have left behind is settled 4000 ms later.\<close>

lemma job_leave_step:
  assumes ok: "sys_ok s" and k: "k < length (ls_jobs s)" and i_def: "i = job_index (ls_jobs s ! k)"
    and f: "f = ls_settled s \<or> (job_admitted (ls_jobs s ! k) \<and> f = (ls_settled s)(i := now_of s + 4000))"
  shows "sys_ok ((job_leave k s)\<lparr> ls_settled := f \<rparr>)"
proof -
  let ?a = "lw_arena (ls_w s)" and ?s = "(job_leave k s)\<lparr> ls_settled := f \<rparr>"
  have jk: "ls_jobs s ! k \<in> set (ls_jobs s)" using k by simp
  then have i: "i < 8" using sys_okD(4) [OF ok] by (simp add: jobs_ok_def i_def)
  have lok: "low_ok (ls_w s)" and ar: "arena_ok ?a" using sys_okD(1) [OF ok] by (simp_all add: low_ok_def)
  have now: "now_of ?s = now_of s" by (simp add: now_of_def job_leave_def)
  have w: "ls_w ?s = (ls_w s)\<lparr> lw_arena := at_slot i (\<lambda>x. x\<lparr> as_inflight :=
      (if as_inflight x > 0 then as_inflight x - 1 else as_inflight x), as_last_end := io_now (lw_io (ls_w s)) \<rparr>) ?a \<rparr>"
    using i by (simp add: job_leave_def arena_ops i_def)
  have js: "ls_jobs ?s = take k (ls_jobs s) @ drop (Suc k) (ls_jobs s)" by (simp add: job_leave_def)
  note rem = calls_on_remove [OF k, folded js]
  have inf: "unat (as_inflight (slot_at i ?a)) = Suc (calls_on i (ls_jobs ?s))"
    using sys_okD(6) [OF ok i] rem [of i] by (simp add: counts_ok_def i_def)
  have idle: "idle j s \<Longrightarrow> idle j ?s" if "j < 8" for j
    using idle_no_calls [OF ok that _ jk] f ar i now by (auto simp: idle_def w i_def [symmetric])
  show ?thesis
  proof (rule sys_okI)
    show "low_ok (ls_w ?s)" using lok ar i by (auto simp: low_ok_def quar_ok_def w)
    show "admin_pc_ok ?s" using sys_okD(2) [OF ok] by (simp add: admin_pc_ok_def may_reserve_def job_leave_def split: admin_pc.splits)
    show "now_of ?s + 4000 < 2 ^ 64" using sys_okD(3) [OF ok] now by simp
    show "jobs_ok (ls_jobs ?s)" using sys_okD(4) [OF ok] set_remove [of k "ls_jobs s"] k by (auto simp: jobs_ok_def js)
    show "scrub_ok ?s" using sys_okD(5) [OF ok] idle [OF of_nat_less_8(1)]
      by (auto simp: scrub_ok_def job_leave_def wanted_def clean_def split: scrub_pc.splits)
    fix j :: u32
    assume j: "j < 8"
    have c: "counts_ok s j" using sys_okD(6) [OF ok j] .
    show "counts_ok ?s j"
    proof (cases "j = i")
      case True
      have "0 < as_inflight (slot_at i ?a)" using inf by (simp add: word_less_nat_alt)
      moreover have "unat (as_inflight (slot_at i ?a) - 1) = calls_on i (ls_jobs ?s)"
        using inf unat_minus_one [of "as_inflight (slot_at i ?a)"] by fastforce
      ultimately show ?thesis using True c f ar i now by (auto simp: counts_ok_def w now_of_def)
    next
      case False
      then show ?thesis using c f ar i now rem [of j] by (auto simp: counts_ok_def w i_def)
    qed
    show "free_ok ?s j"
      using sys_okD(7) [OF ok j] now f jk set_remove [of k "ls_jobs s"]
      by (auto simp: free_ok_def available_def clean_def quiet_def js w i_def)
  qed
qed

text \<open>A binding is only ever the binding of a lease.\<close>

lemma slice_of_leased:
  assumes ok: "low_ok w" and h: "slice_of cid w = Some i"
  shows "\<exists>s \<in> set (lw_slots w). lo_in_use s \<and> lo_index s = i \<and> lo_cid s = cid"
proof -
  obtain b where b: "find_cid_sb cid (lw_rpc w) = Some b" "sb_window_id (lw_rpc w ! b) = i"
    using h by (auto simp: slice_of_def iav_slice_rpc_held_def split: option.splits)
  have "binding_ok (lw_slots w) (lw_rpc w ! b)"
    using ok find_cid_sb_SomeD [OF b(1)] by (simp add: low_ok_def rpc_ok_def list_all_length)
  then show ?thesis using b(2) find_cid_sb_SomeD [OF b(1)] by (auto simp: binding_ok_def list_ex_iff)
qed

lemma calls_on_admit: "k < length js \<Longrightarrow> calls_on i (js[k := (js ! k)\<lparr> job_admitted := True \<rparr>]) = calls_on i js"
  by (induction js arbitrary: k) (auto simp: calls_on_def nth_Cons split: nat.splits)

lemma job_recheck_step:
  assumes ok: "sys_ok s" and k: "k < length (ls_jobs s)"
  shows "sys_ok (job_recheck k s)"
proof (cases "slice_of (job_cid (ls_jobs s ! k)) (ls_w s) = Some (job_index (ls_jobs s ! k))")
  case False
  then have "job_recheck k s = (job_leave k s)\<lparr> ls_settled := ls_settled s \<rparr>"
    by (simp add: job_recheck_def Let_def job_leave_def)
  then show ?thesis using job_leave_step [OF ok k refl] by simp
next
  case True
  let ?i = "job_index (ls_jobs s ! k)" and ?js = "(ls_jobs s)[k := (ls_jobs s ! k)\<lparr> job_admitted := True \<rparr>]"
  have r: "job_recheck k s = s\<lparr> ls_jobs := ?js \<rparr>" using True by (simp add: job_recheck_def Let_def)
  have leased: "index_leased ?i (lw_slots (ls_w s))"
    using slice_of_leased [OF sys_okD(1) [OF ok] True] by (auto simp: index_leased_def list_ex_iff)
  have sub: "set ?js \<subseteq> insert ((ls_jobs s ! k)\<lparr> job_admitted := True \<rparr>) (set (ls_jobs s))" by (rule set_update_subset_insert)
  have i8: "?i < 8" using sys_okD(4) [OF ok] k by (simp add: jobs_ok_def)
  show ?thesis unfolding r
  proof (rule sys_okI)
    show "jobs_ok (ls_jobs (s\<lparr> ls_jobs := ?js \<rparr>))" using sys_okD(4) [OF ok] sub i8 by (auto simp: jobs_ok_def)
    fix j :: u32
    assume j: "j < 8"
    show "counts_ok (s\<lparr> ls_jobs := ?js \<rparr>) j"
      using sys_okD(6) [OF ok j] calls_on_admit [OF k] by (simp add: counts_ok_def now_of_def)
    show "free_ok (s\<lparr> ls_jobs := ?js \<rparr>) j"
      using sys_okD(7) [OF ok j] sub leased by (auto simp: free_ok_def available_def quiet_def now_of_def)
  qed (use sys_okD(1,2,3,5) [OF ok] in
      \<open>auto simp: admin_pc_ok_def now_of_def scrub_ok_def idle_def split: admin_pc.splits scrub_pc.splits\<close>)
qed

section \<open>Memory, clock, file system\<close>

lemma idle_no_writer:
  assumes "sys_ok s" "i < 8" "idle i s" "\<not> index_leased i (lw_slots (ls_w s))"
  shows "\<not> may_write i s"
  using idle_no_calls [OF assms(1-3)] assms(3,4) by (auto simp: may_write_def list_ex_iff idle_def)

lemma write_step:
  assumes ok: "sys_ok s" and m: "may_write i s"
  shows "sys_ok (write_byte i k v s)"
proof -
  let ?s = "write_byte i k v s"
  have cl: "j \<noteq> i \<Longrightarrow> clean j (ls_w ?s) = clean j (ls_w s)" for j by (simp add: clean_def write_byte_def)
  have no: "j = i \<Longrightarrow> \<not> (wanted j (ls_w s) \<and> idle j s)" if "j < 8" for j
    using idle_no_writer [OF ok that] m by (auto simp: wanted_def)
  show ?thesis
  proof (rule sys_okI)
    show "low_ok (ls_w ?s)" using sys_okD(1) [OF ok] by (simp add: low_ok_def write_byte_def)
    show "admin_pc_ok ?s"
      using sys_okD(2) [OF ok] by (simp add: admin_pc_ok_def may_reserve_def write_byte_def split: admin_pc.splits)
    show "now_of ?s + 4000 < 2 ^ 64" "jobs_ok (ls_jobs ?s)"
      using sys_okD(3,4) [OF ok] by (simp_all add: now_of_def write_byte_def)
    have "idle j ?s = idle j s" "wanted j (ls_w ?s) = wanted j (ls_w s)" for j
      by (simp_all add: idle_def wanted_def now_of_def write_byte_def)
    moreover have "ls_scrub ?s = ls_scrub s" by (simp add: write_byte_def)
    ultimately show "scrub_ok ?s"
      using sys_okD(5) [OF ok] cl no [OF of_nat_less_8(1)] unfolding scrub_ok_def by (auto split: scrub_pc.splits)
    fix j :: u32
    assume j: "j < 8"
    show "counts_ok ?s j" using sys_okD(6) [OF ok j] by (simp add: counts_ok_def now_of_def write_byte_def)
    have a: "available j (ls_w ?s) = available j (ls_w s)" "quiet j ?s = quiet j s"
      by (simp_all add: available_def quiet_def now_of_def write_byte_def)
    have "available j (ls_w s) \<Longrightarrow> j \<noteq> i"
      using sys_okD(7) [OF ok j] m by (auto simp: free_ok_def available_def may_write_def quiet_def list_ex_iff)
    then show "free_ok ?s j" using sys_okD(7) [OF ok j] a cl [of j] by (auto simp: free_ok_def)
  qed
qed

lemma clock_step:
  assumes ok: "sys_ok s" and d: "now_of s + d + 4000 < 2 ^ 64"
  shows "sys_ok (pass_time d s)"
proof -
  let ?s = "pass_time d s"
  have "unat (io_now (lw_io (ls_w s)) + of_nat d) = now_of s + d"
    using d by (subst unat_add_lem [THEN iffD1]) (simp_all add: now_of_def unat_of_nat take_bit_nat_eq_self)
  then have now: "now_of ?s = now_of s + d" by (simp add: now_of_def pass_time_def)
  show ?thesis
  proof (rule sys_okI)
    show "low_ok (ls_w ?s)" "jobs_ok (ls_jobs ?s)"
      using sys_okD(1,4) [OF ok] by (simp_all add: low_ok_def pass_time_def)
    show "admin_pc_ok ?s"
      using sys_okD(2) [OF ok] by (simp add: admin_pc_ok_def may_reserve_def pass_time_def split: admin_pc.splits)
    show "now_of ?s + 4000 < 2 ^ 64" using d now by simp
    have "idle j s \<Longrightarrow> idle j ?s" for j using now by (auto simp: idle_def pass_time_def)
    then show "scrub_ok ?s"
      using sys_okD(5) [OF ok] by (auto simp: scrub_ok_def wanted_def clean_def pass_time_def split: scrub_pc.splits)
    fix j :: u32
    assume j: "j < 8"
    show "counts_ok ?s j" using sys_okD(6) [OF ok j] now by (auto simp: counts_ok_def pass_time_def)
    show "free_ok ?s j" using sys_okD(7) [OF ok j] now
      by (auto simp: free_ok_def available_def clean_def quiet_def pass_time_def)
  qed
qed

lemma outside_step:
  assumes ok: "sys_ok s"
  shows "sys_ok (s\<lparr> ls_w := (ls_w s)\<lparr> lw_host := h, lw_lease := l, lw_cam := c, lw_io := (lw_io (ls_w s))\<lparr> io_map := m \<rparr> \<rparr> \<rparr>)"
    (is "sys_ok ?s")
proof -
  have now: "now_of ?s = now_of s" by (simp add: now_of_def)
  show ?thesis
  proof (rule sys_okI)
    show "low_ok (ls_w ?s)" "now_of ?s + 4000 < 2 ^ 64" "jobs_ok (ls_jobs ?s)"
      using sys_okD(1,3,4) [OF ok] now by (simp_all add: low_ok_def)
    show "admin_pc_ok ?s" using sys_okD(2) [OF ok] by (simp add: admin_pc_ok_def may_reserve_def split: admin_pc.splits)
    show "scrub_ok ?s" using sys_okD(5) [OF ok] now by (simp add: scrub_ok_def wanted_def idle_def clean_def split: scrub_pc.splits)
    fix j :: u32
    assume j: "j < 8"
    show "counts_ok ?s j" using sys_okD(6) [OF ok j] now by (simp add: counts_ok_def)
    show "free_ok ?s j" using sys_okD(7) [OF ok j] now by (simp add: free_ok_def available_def clean_def quiet_def)
  qed
qed

lemma low_step_ok:
  assumes "low_step s s'" "sys_ok s"
  shows "sys_ok s'"
  using assms(1)
proof cases
  case (admin req n w rc r)
  then show ?thesis using admin_step_ok [OF assms(2)] low_admin_ok [OF sys_okD(1) [OF assms(2)]] by blast
next
  case (woken uuid cid n t w r)
  have "may_reserve uuid cid (ls_w s)" using sys_okD(2) [OF assms(2)] woken by (simp add: admin_pc_ok_def)
  then show ?thesis using admin_step_ok [OF assms(2)] reserve_woken_ok [OF sys_okD(1) [OF assms(2)]] woken by blast
next
  case (scrub_check i)
  then show ?thesis using scrub_pc_step [OF assms(2), of "Scrub_pending i"] of_nat_less_8(2)
    by (simp add: scrub_ok_def scrub_wanted_def wanted_def)
next
  case (scrub_later i)
  then show ?thesis using scrub_pc_step [OF assms(2), of Scrub_idle] by (simp add: scrub_ok_def)
next
  case (call_recheck k)
  then show ?thesis using job_recheck_step [OF assms(2)] by simp
next
  case (call_end k)
  then show ?thesis using job_leave_step [OF assms(2), of k] by (simp add: job_end_def)
next
  case (scrub_due i)
  then show ?thesis using scrub_due_step [OF assms(2)] by simp
next
  case (scrub_run i e w rc)
  then show ?thesis using scrub_run_step [OF assms(2)] by simp
next
  case (scrub_end i rc)
  then show ?thesis using scrub_end_step [OF assms(2)] by simp
next
  case (call_begin cid i)
  then show ?thesis by (intro job_begin_step [OF assms(2)])
next
  case (memory_write i k v)
  then show ?thesis using write_step [OF assms(2)] by simp
next
  case (clock d)
  then show ?thesis using clock_step [OF assms(2)] by simp
next
  case outside
  then show ?thesis using outside_step [OF assms(2)] by simp
qed

end
