(* ===== verification/Low_Lease_Load.thy ===== *)
theory Low_Lease_Load
  imports Low_Lease_Safety Slice_Lease_Store
begin

text \<open>
  Arming the low leases: whatever the store holds, the server starts in the invariant, with every slice that has
  no lease waiting for its scrub; and a store this server wrote is read back as the leases it was written from.
\<close>

section \<open>Loading a line\<close>

definition load_ok :: "low_world \<Rightarrow> bool" where
  "load_ok w \<longleftrightarrow> low_ok w \<and> (\<forall>i < 8. \<not> as_quarantined (slot_at i (lw_arena w)))"

definition load_frame :: "low_world \<Rightarrow> low_world \<Rightarrow> bool" where
  "load_frame w w' \<longleftrightarrow> lw_arena w' = lw_arena w \<and> lw_io w' = lw_io w \<and> lw_ready w' = lw_ready w \<and> lw_base w' = lw_base w"

lemma bind_slot_fields [simp]:
  "lw_arena (bind_slot s w) = lw_arena w" "lw_io (bind_slot s w) = lw_io w" "lw_ready (bind_slot s w) = lw_ready w"
  "lw_base (bind_slot s w) = lw_base w" "lw_slots (bind_slot s w) = lw_slots w" "lw_scrub (bind_slot s w) = lw_scrub w"
  "lw_next_epoch (bind_slot s w) = lw_next_epoch w" "lw_host (bind_slot s w) = lw_host w" "lw_store (bind_slot s w) = lw_store w"
  by (simp_all add: bind_slot_def)

definition loaded_low :: "string \<Rightarrow> u32 \<Rightarrow> u64 \<Rightarrow> u32 \<Rightarrow> nat \<Rightarrow> low_world \<Rightarrow> low_world" where
  "loaded_low uuid index epoch cid i w = bind_slot (new_low uuid index epoch cid)
     (w\<lparr> lw_slots := (lw_slots w)[i := new_low uuid index epoch cid],
        lw_next_epoch := (if epoch \<ge> lw_next_epoch w then (if epoch = - 1 then 0 else epoch + 1) else lw_next_epoch w) \<rparr>)"

lemma load_line_cases:
  assumes "load_line_lo line w = Some w'"
  obtains "w' = w"
  | k :: u32 where "k < 8" "w' = w\<lparr> lw_scrub := (lw_scrub w)[unat k := True] \<rparr>"
  | uuid index epoch cid i where "uuid_ok uuid" "epoch \<noteq> 0" "cid \<noteq> 0" "index < 8" "find_uuid_lo uuid (lw_slots w) = None"
      "\<not> index_taken_lo index w" "first_idx (\<lambda>s. \<not> lo_in_use s) (lw_slots w) = Some i" "w' = loaded_low uuid index epoch cid i w"
proof (cases "scan_low (c_str line)")
  case None
  then show ?thesis using assms that(1) by (simp add: load_line_lo_def)
next
  case (Some t)
  obtain uuid index epoch cid where t: "scan_low (c_str line) = Some (uuid, index, epoch, cid)" using Some by (metis prod_cases4)
  note l = assms [unfolded load_line_lo_def t, simplified]
  show ?thesis
  proof (cases "uuid = ''scrub''")
    case True
    then show ?thesis using l that(1) that(2) [of index] by (simp split: if_splits)
  next
    case scrub: False
    show ?thesis
    proof (cases "lw_ready w \<and> uuid_ok uuid \<and> epoch \<noteq> 0 \<and> cid \<noteq> 0 \<and> index < 8 \<and>
        find_uuid_lo uuid (lw_slots w) = None \<and> \<not> index_taken_lo index w")
      case False
      then have "w' = w" using l scrub by (auto split: if_splits)
      then show ?thesis by (rule that(1))
    next
      case True
      then have n8: "(8 \<le> index) = False" by (simp add: not_le)
      obtain i where i: "first_idx (\<lambda>s. \<not> lo_in_use s) (lw_slots w) = Some i" "w' = loaded_low uuid index epoch cid i w"
        using l scrub True by (auto simp: loaded_low_def new_low_def Let_def n8 split: option.splits)
      then show ?thesis using True that(3) by blast
    qed
  qed
qed

lemma load_line_ok:
  assumes ok: "load_ok w" and l: "load_line_lo line w = Some w'"
  shows "load_ok w' \<and> load_frame w w'"
  using l
proof (cases rule: load_line_cases)
  case 1
  then show ?thesis using ok by (simp add: load_frame_def)
next
  case (2 k)
  then show ?thesis using ok by (auto simp: load_ok_def load_frame_def low_ok_def quar_ok_def)
next
  case (3 uuid index epoch cid i)
  have i: "i < length (lw_slots w)" "\<not> lo_in_use (lw_slots w ! i)" using first_idx_SomeD [OF 3(7)] by simp_all
  let ?s = "new_low uuid index epoch cid"
  have lok: "low_ok w" using ok by (simp add: load_ok_def)
  note c = claim_world(1) [OF lok 3(1,3,2,5,4,6) i]
  let ?w = "w\<lparr> lw_slots := (lw_slots w)[i := ?s],
        lw_next_epoch := (if epoch \<ge> lw_next_epoch w then (if epoch = - 1 then 0 else epoch + 1) else lw_next_epoch w) \<rparr>"
  have "low_ok ?w" by (rule low_ok_cong [OF c]) simp_all
  moreover have "?s \<in> set (lw_slots ?w)" using i by (simp add: set_update_memI)
  ultimately have "low_ok w'" using bind_slot_ok [of ?w ?s] 3(8) by (simp add: loaded_low_def)
  then show ?thesis using ok 3(8) by (simp add: load_ok_def load_frame_def loaded_low_def)
qed

lemma load_lines_ok: "load_ok w \<Longrightarrow> load_ok (load_lines_lo ls w) \<and> load_frame w (load_lines_lo ls w)"
proof (induction ls arbitrary: w)
  case (Cons l ls)
  show ?case
  proof (cases "load_line_lo l w")
    case (Some w')
    then show ?thesis using load_line_ok [OF Cons.prems Some] Cons.IH [of w'] by (simp add: load_frame_def)
  qed (use Cons.prems in \<open>simp add: load_frame_def\<close>)
qed (simp add: load_frame_def)

section \<open>Quarantine of what is not leased\<close>

definition fresh_arena :: "u64 \<Rightarrow> arena_state \<Rightarrow> bool" where
  "fresh_arena now a \<longleftrightarrow> (\<forall>i < 8. as_inflight (slot_at i a) = 0 \<and> as_last_end (slot_at i a) = 0 \<and> as_released (slot_at i a) \<le> now)"

definition quarantine_inv :: "low_world \<Rightarrow> nat \<Rightarrow> low_world \<Rightarrow> bool" where
  "quarantine_inv w0 n w \<longleftrightarrow> low_ok w \<and> fresh_arena (io_now (lw_io w0)) (lw_arena w) \<and> lw_io w = lw_io w0 \<and> lw_slots w = lw_slots w0 \<and>
     lw_ready w = lw_ready w0 \<and> (\<forall>i < n. index_leased (of_nat i) (lw_slots w) \<or> lw_scrub w ! i)"

lemma quarantine_one_inv:
  assumes inv: "quarantine_inv w0 n w" and n: "n < 8"
  shows "quarantine_inv w0 (Suc n) (quarantine_one (io_now (lw_io w0)) w n)"
proof (cases "index_leased (of_nat n) (lw_slots w)")
  case True
  then show ?thesis using inv by (auto simp: quarantine_inv_def quarantine_one_def less_Suc_eq)
next
  case False
  let ?now = "io_now (lw_io w0)"
  note n8 = of_nat_less_8 [OF n]
  have lok: "low_ok w" using inv by (simp add: quarantine_inv_def)
  then have ar: "arena_ok (lw_arena w)" and len: "length (lw_scrub w) = 8" by (simp_all add: low_ok_def quar_ok_def)
  obtain t where t: "t \<le> ?now" and w': "quarantine_one ?now w n = w\<lparr> lw_scrub := (lw_scrub w)[n := True],
      lw_arena := virt_slice_arena_quarantine (of_nat n) t (lw_arena w) \<rparr>"
  proof (cases "lw_scrub w ! n")
    case True
    then have "(lw_scrub w)[n := True] = lw_scrub w" by (metis list_update_id)
    then show ?thesis using that [of ?now] False True by (simp add: quarantine_one_def)
  next
    case nf: False
    have "?now - 4000 \<le> ?now" if "?now > 4000" using that by (simp add: word_le_nat_alt word_less_nat_alt unat_sub)
    then show ?thesis
      using that [of "if ?now > 4000 then ?now - 4000 else 0"] False nf by (simp add: quarantine_one_def)
  qed
  have sc: "(lw_scrub w)[n := True] ! unat k \<longleftrightarrow> k = of_nat n \<or> lw_scrub w ! unat k" if "k < 8" for k :: u32
    using len n n8 unat_less_8 [OF that] by (auto simp: nth_list_update word_unat_eq_iff)
  have "low_ok (quarantine_one ?now w n)"
    using lok ar n8 sc False by (auto simp: low_ok_def quar_ok_def w' arena_ops)
  moreover have "fresh_arena ?now (lw_arena (quarantine_one ?now w n))"
    using inv ar n8 t by (auto simp: quarantine_inv_def fresh_arena_def w' arena_ops)
  moreover have "index_leased (of_nat i) (lw_slots w) \<or> (lw_scrub w)[n := True] ! i" if "i < Suc n" for i
    using inv that len n by (auto simp: quarantine_inv_def less_Suc_eq nth_list_update)
  ultimately show ?thesis using inv by (simp add: quarantine_inv_def w')
qed

lemma quarantine_all_inv:
  assumes "quarantine_inv w0 0 w" "n \<le> 8"
  shows "quarantine_inv w0 n (foldl (quarantine_one (io_now (lw_io w0))) w [0..<n])"
  using assms(2) by (induction n) (use assms(1) quarantine_one_inv in auto)

section \<open>Arming\<close>

lemma slot_at_reset: "i < 8 \<Longrightarrow> slot_at i (virt_slice_arena_reset a) = zero_arena_slot\<lparr> as_last_ms := - 1 \<rparr>"
  using unat_less_8 [of i]
  by (simp add: virt_slice_arena_reset_def slot_at_def init_locked_sa_def)

lemma reset_ok: "load_ok (virt_low_lease_reset w)"
proof -
  have "arena_ok (virt_slice_arena_reset (lw_arena w))"
    by (simp add: arena_ok_def virt_slice_arena_reset_def init_locked_sa_def)
  moreover have "slots_ok (replicate 8 zero_low)"
    using low_uuid.reset_unique [of 8] low_index.reset_unique [of 8] by (simp add: slots_ok_def list_all_iff low_slot_ok_def)
  moreover have "rpc_ok (replicate 8 zero_low) (replicate 8 zero_binding)"
    using bind_table.reset_unique [of 8] by (simp add: rpc_ok_def list_all_iff)
  ultimately show ?thesis
    by (simp add: load_ok_def low_ok_def quar_ok_def virt_low_lease_reset_def iav_slice_rpc_reset_def slot_at_reset
        zero_arena_slot_def)
qed

lemma load_result:
  assumes ok: "load_ok w" and fr: "fresh_arena (io_now (lw_io w)) (lw_arena w)" and r: "lw_ready w"
  shows "quarantine_inv (virt_low_lease_load w) 8 (virt_low_lease_load w)" "lw_io (virt_low_lease_load w) = lw_io w"
proof -
  have q: "quarantine_inv w1 8 (quarantine_unleased_locked w1)"
    if "load_ok w1" "load_frame w w1" for w1
  proof -
    have "arena_ok (lw_arena w1)" "lw_ready w1" using that r by (simp_all add: load_ok_def low_ok_def load_frame_def)
    then have "quarantine_unleased_locked w1 = foldl (quarantine_one (io_now (lw_io w1))) w1 [0..<8]"
      by (simp add: quarantine_unleased_locked_def virt_slice_arena_now_ms_def)
    moreover have "quarantine_inv w1 0 w1" using that fr by (simp add: quarantine_inv_def load_ok_def load_frame_def)
    ultimately show ?thesis using quarantine_all_inv [of w1 w1 8] by simp
  qed
  obtain w1 where w1: "load_ok w1" "load_frame w w1" "virt_low_lease_load w = quarantine_unleased_locked w1"
    using ok load_lines_ok [OF ok] by (cases "store_open (lw_store w) (lw_host w)")
      (auto simp: virt_low_lease_load_def load_frame_def)
  then show "quarantine_inv (virt_low_lease_load w) 8 (virt_low_lease_load w)" "lw_io (virt_low_lease_load w) = lw_io w"
    using q [OF w1(1,2)] by (auto simp: quarantine_inv_def load_frame_def)
qed

lemma write_header_fields [simp]:
  "lw_slots (write_header i w) = lw_slots w" "lw_scrub (write_header i w) = lw_scrub w"
  "lw_arena (write_header i w) = lw_arena w" "io_now (lw_io (write_header i w)) = io_now (lw_io w)"
  by (simp_all add: write_header_def header_frame(1))

definition write_headers :: "low_slot list \<Rightarrow> low_world \<Rightarrow> low_world" where
  "write_headers ss w = foldl (\<lambda>w s. if lo_in_use s then write_header (lo_index s) w else w) w ss"

lemma write_headers_frame:
  "low_ok w \<Longrightarrow> low_ok (write_headers ss w) \<and> lw_slots (write_headers ss w) = lw_slots w \<and>
    lw_scrub (write_headers ss w) = lw_scrub w \<and> lw_arena (write_headers ss w) = lw_arena w \<and>
    io_now (lw_io (write_headers ss w)) = io_now (lw_io w)"
  unfolding write_headers_def by (induction ss arbitrary: w) (simp_all add: write_header_ok)

lemma start_scrubber_fields [simp]:
  "lw_slots (fst (virt_low_lease_start_scrubber c w)) = lw_slots w"
  "lw_scrub (fst (virt_low_lease_start_scrubber c w)) = lw_scrub w"
  "lw_arena (fst (virt_low_lease_start_scrubber c w)) = lw_arena w"
  "lw_io (fst (virt_low_lease_start_scrubber c w)) = lw_io w"
  "lw_rpc (fst (virt_low_lease_start_scrubber c w)) = lw_rpc w"
  by (simp_all add: virt_low_lease_start_scrubber_def)

text \<open>After arming: the invariant, and every slice leased or waiting for its scrub.\<close>

lemma arm_world:
  fixes m :: int and c :: bool and w :: low_world
  assumes b: "base \<noteq> 0" "base mod 0x4000000 = 0"
  defines "w' \<equiv> fst (virt_low_lease_arm_module m c base (virt_low_lease_reset w))"
  shows "low_ok w' \<and> fresh_arena (io_now (lw_io w)) (lw_arena w') \<and> io_now (lw_io w') = io_now (lw_io w) \<and>
    (\<forall>i < 8. \<not> available i w')"
proof -
  let ?w1 = "(virt_low_lease_reset w)\<lparr> lw_base := base, lw_ready := True \<rparr>"
  have io: "lw_io ?w1 = lw_io w" by (simp add: virt_low_lease_reset_def virt_low_lease_stop_scrubber_def)
  have "load_ok ?w1" using reset_ok [of w] by (simp add: load_ok_def low_ok_def)
  moreover have "fresh_arena (io_now (lw_io ?w1)) (lw_arena ?w1)"
    by (simp add: fresh_arena_def virt_low_lease_reset_def slot_at_reset zero_arena_slot_def)
  ultimately have q: "quarantine_inv (virt_low_lease_load ?w1) 8 (virt_low_lease_load ?w1)"
    and io2: "lw_io (virt_low_lease_load ?w1) = lw_io w"
    using load_result [of ?w1] io by simp_all
  define w2 where "w2 = virt_low_lease_load ?w1"
  define w3 where "w3 = write_headers (lw_slots w2) w2"
  note q = q [folded w2_def]
  have l2: "low_ok w2" "fresh_arena (io_now (lw_io w)) (lw_arena w2)" "lw_io w2 = lw_io w"
    using q io2 by (simp_all add: quarantine_inv_def w2_def [symmetric])
  have h: "low_ok w3 \<and> lw_slots w3 = lw_slots w2 \<and> lw_scrub w3 = lw_scrub w2 \<and> lw_arena w3 = lw_arena w2 \<and>
      io_now (lw_io w3) = io_now (lw_io w2)"
    unfolding w3_def by (rule write_headers_frame [OF l2(1)])
  have w': "w' = w2 \<or> w' = fst (virt_low_lease_start_scrubber c w3)"
    using b by (auto simp: w'_def virt_low_lease_arm_module_def virt_low_lease_set_parent_def Let_def w3_def w2_def
        write_headers_def split: prod.splits if_splits)
  have na: "\<not> available i w2" if "i < 8" for i :: u32
  proof -
    have "unat i < 8" using that unat_less_8 by simp
    then have "index_leased (of_nat (unat i)) (lw_slots w2) \<or> lw_scrub w2 ! unat i" using q unfolding quarantine_inv_def by blast
    then show ?thesis by (simp add: available_def)
  qed
  from w' show ?thesis
  proof
    assume "w' = w2"
    then show ?thesis using na l2 by simp
  next
    assume w': "w' = fst (virt_low_lease_start_scrubber c w3)"
    have "low_ok w'" by (rule low_ok_cong [of w3]) (use h in \<open>simp_all add: w'\<close>)
    then show ?thesis using na l2 h by (simp add: w' available_def)
  qed
qed

lemma armed_ok:
  assumes "base \<noteq> 0" "base mod 0x4000000 = 0" "unat (io_now (lw_io w)) + 4000 < 2 ^ 64"
  shows "sys_ok (armed m c base w)"
  using arm_world [OF assms(1,2), of m c w] assms(3)
  by (auto simp: sys_ok_def armed_def admin_pc_ok_def scrub_ok_def jobs_ok_def now_of_def counts_ok_def free_ok_def
      fresh_arena_def calls_on_def word_le_nat_alt)

lemma low_reach_ok: "low_reach s0 s \<Longrightarrow> sys_ok s0 \<Longrightarrow> sys_ok s"
  by (induction rule: low_reach.induct) (simp_all add: low_step_ok)

end
