(* ===== verification/Low_Lease_Store.thy ===== *)
theory Low_Lease_Store
  imports Low_Lease_Load
begin

text \<open>
  The store of the low leases: what a command has acknowledged is what a restarted server loads.
\<close>

lemma low_line_ok:
  assumes "low_slot_ok s" "lo_in_use s"
  shows "length (low_line s) < 255" "nl \<notin> set (low_line s)" "nul \<notin> set (low_line s)"
proof -
  have u: "uuid_ok (lo_uuid s)" using assms by (simp add: low_slot_ok_def)
  show "length (low_line s) < 255"
    using uuid_chars(2) [OF u] length_dec32 [of "lo_index s"] length_dec64 [of "lo_epoch s"] length_dec32 [of "lo_cid s"]
    by (simp add: low_line_def)
  have d: "c \<notin> set (dec32 v)" "c \<notin> set (dec64 w)" "c \<notin> set (lo_uuid s)" if "c = nul \<or> c = nl" for c v w
    using that dec_digits [of c] digit_chars [of c] uuid_chars(3) [OF u, of c] by (auto simp: dec32_def dec64_def)
  show "nl \<notin> set (low_line s)" "nul \<notin> set (low_line s)" by (simp_all add: low_line_def d)
qed

lemma scan_low_line:
  assumes "low_slot_ok s" "lo_in_use s"
  shows "scan_low (low_line s @ [nl]) = Some (lo_uuid s, lo_index s, lo_epoch s, lo_cid s)"
proof -
  have u: "uuid_ok (lo_uuid s)" using assms by (simp add: low_slot_ok_def)
  let ?r3 = "sp # dec32 (lo_cid s) @ [nl]"
  let ?r2 = "sp # dec64 (lo_epoch s) @ ?r3"
  let ?r1 = "sp # dec32 (lo_index s) @ ?r2"
  have l: "low_line s @ [nl] = lo_uuid s @ ?r1" by (simp add: low_line_def)
  have s1: "scan_s 63 (lo_uuid s @ ?r1) = Some (lo_uuid s, ?r1)" using uuid_chars [OF u] by (intro scan_s_word) auto
  have s2: "scan_u ?r1 = Some (lo_index s, ?r2)" unfolding scan_u_sp by (rule scan_u_dec32) simp
  have s3: "scan_llu ?r2 = Some (lo_epoch s, ?r3)" unfolding scan_llu_sp by (rule scan_llu_dec64) simp
  have s4: "scan_u ?r3 = Some (lo_cid s, [nl])" unfolding scan_u_sp by (rule scan_u_dec32) simp
  show ?thesis unfolding scan_low_def l s1 option.case prod.case s2 s3 s4 by (rule refl)
qed

lemma dec_0: "dec 0 = ''0''"
  by code_simp

lemma scrub_line_split: "i < 8 \<Longrightarrow> scrub_line i @ [nl] = ''scrub'' @ sp # dec32 (of_nat i) @ sp # dec64 0 @ sp # dec32 0 @ [nl]"
  by (simp add: scrub_line_def dec32_def dec64_def dec_0 of_nat_less_8)

lemma scrub_word: "c \<in> set ''scrub'' \<Longrightarrow> \<not> isspace c \<and> c \<noteq> nul \<and> c \<noteq> nl"
  by (auto simp: isspace_def code_of_def)

lemma scrub_line_ok:
  assumes "i < 8"
  shows "length (scrub_line i) < 255" "nl \<notin> set (scrub_line i)" "nul \<notin> set (scrub_line i)"
    "scan_low (scrub_line i @ [nl]) = Some (''scrub'', of_nat i, 0, 0)"
proof -
  show "length (scrub_line i) < 255" using length_dec [of i 1] assms by (simp add: scrub_line_def)
  have "c \<notin> set (dec i)" if "c = nul \<or> c = nl" for c using that dec_digits [of c] digit_chars [of c] by auto
  then show "nl \<notin> set (scrub_line i)" "nul \<notin> set (scrub_line i)" by (simp_all add: scrub_line_def)
  let ?r3 = "sp # dec32 0 @ [nl]"
  let ?r2 = "sp # dec64 0 @ ?r3"
  let ?r1 = "sp # dec32 (of_nat i) @ ?r2"
  have s1: "scan_s 63 (''scrub'' @ ?r1) = Some (''scrub'', ?r1)" using scrub_word by (intro scan_s_word) auto
  have s2: "scan_u ?r1 = Some (of_nat i, ?r2)" unfolding scan_u_sp by (rule scan_u_dec32) simp
  have s3: "scan_llu ?r2 = Some (0, ?r3)" unfolding scan_llu_sp by (rule scan_llu_dec64) simp
  have s4: "scan_u ?r3 = Some (0, [nl])" unfolding scan_u_sp by (rule scan_u_dec32) simp
  show "scan_low (scrub_line i @ [nl]) = Some (''scrub'', of_nat i, 0, 0)"
    unfolding scan_low_def scrub_line_split [OF assms] s1 option.case prod.case s2 s3 s4 by (rule refl)
qed

text \<open>A table filled from the front.\<close>

definition packed_lo :: "low_slot list \<Rightarrow> low_slot list" where
  "packed_lo ss = ss @ replicate (VIRT_LOW_LEASE_COUNT - length ss) zero_low"

lemma packed_lo_free:
  assumes "list_all lo_in_use ss" "length ss < 8"
  shows "first_idx (\<lambda>s. \<not> lo_in_use s) (packed_lo ss) = Some (length ss)" "(packed_lo ss)[length ss := s] = packed_lo (ss @ [s])"
proof -
  obtain k where k: "8 - length ss = Suc k" using assms(2) by (metis Suc_diff_Suc)
  have "\<not> list_ex (\<lambda>s. \<not> lo_in_use s) ss" using assms(1) by (auto simp: list_ex_iff list_all_iff)
  then show "first_idx (\<lambda>s. \<not> lo_in_use s) (packed_lo ss) = Some (length ss)"
    unfolding packed_lo_def k by (induction ss) auto
  have "8 - length (ss @ [s]) = k" using k by simp
  then show "(packed_lo ss)[length ss := s] = packed_lo (ss @ [s])"
    unfolding packed_lo_def k by (simp add: list_update_append)
qed

lemma packed_lo_fresh:
  "lo_uuid s \<notin> lo_uuid ` set ss \<Longrightarrow> find_uuid_lo (lo_uuid s) (packed_lo ss) = None"
  "lo_index s \<notin> lo_index ` set ss \<Longrightarrow> \<not> index_leased (lo_index s) (packed_lo ss)"
  by (auto simp: find_uuid_lo_def first_idx_None index_leased_def list_ex_iff packed_lo_def) (metis imageI)+

lemma new_low_id: "low_slot_ok s \<Longrightarrow> lo_in_use s \<Longrightarrow> new_low (lo_uuid s) (lo_index s) (lo_epoch s) (lo_cid s) = s"
  by (simp add: new_low_def snprintf_uuid low_slot_ok_def)

lemma load_low_line:
  assumes s: "low_slot_ok s" "lo_in_use s" and w: "lw_slots w = packed_lo ds" "lw_ready w" "\<not> index_taken_lo (lo_index s) w"
    and d: "length ds < 8" "list_all lo_in_use ds" "lo_uuid s \<notin> lo_uuid ` set ds"
  shows "load_line_lo (low_line s @ [nl]) w = Some (loaded_low (lo_uuid s) (lo_index s) (lo_epoch s) (lo_cid s) (length ds) w)"
proof -
  have c: "c_str (low_line s @ [nl]) = low_line s @ [nl]" using low_line_ok(3) [OF s] by (intro c_str_id) simp
  have g: "uuid_ok (lo_uuid s)" "lo_epoch s \<noteq> 0" "lo_cid s \<noteq> 0" "(8 \<le> lo_index s) = False" "lo_uuid s \<noteq> ''scrub''"
    using s by (auto simp: low_slot_ok_def not_le uuid_ok_def isxdigit_def isdigit_def code_of_def)
  show ?thesis
    unfolding load_line_lo_def c scan_low_line [OF s]
    using g packed_lo_free(1) [OF d(2,1)] packed_lo_fresh(1) [OF d(3)] w
    by (simp add: loaded_low_def new_low_def Let_def)
qed

lemma load_low_lines:
  assumes "lw_slots w = packed_lo ds" "lw_ready w" "lw_scrub w = replicate 8 False" "length (ds @ ss) \<le> 8"
    and "list_all lo_in_use (ds @ ss)" "list_all low_slot_ok ss"
    and "distinct (map lo_uuid (ds @ ss))" "distinct (map lo_index (ds @ ss))"
  shows "\<exists>w'. load_lines_lo (map (\<lambda>s. low_line s @ [nl]) ss @ ls) w = load_lines_lo ls w' \<and>
    lw_slots w' = packed_lo (ds @ ss) \<and> lw_ready w'"
  using assms
proof (induction ss arbitrary: ds w)
  case Nil
  then show ?case by auto
next
  case (Cons s ss)
  let ?w1 = "loaded_low (lo_uuid s) (lo_index s) (lo_epoch s) (lo_cid s) (length ds) w"
  have s: "low_slot_ok s" "lo_in_use s" using Cons.prems by simp_all
  have d: "length ds < 8" "list_all lo_in_use ds" "lo_uuid s \<notin> lo_uuid ` set ds" "lo_index s \<notin> lo_index ` set ds"
    using Cons.prems by auto
  have "\<not> index_taken_lo (lo_index s) w"
    using packed_lo_fresh(2) [OF d(4)] Cons.prems(1,3) unat_less_8 [of "lo_index s"] by (auto simp: index_taken_lo_def)
  note l = load_low_line [OF s Cons.prems(1,2) this d(1-3)]
  have w1: "lw_slots ?w1 = packed_lo (ds @ [s])" "lw_ready ?w1" "lw_scrub ?w1 = replicate 8 False"
    using packed_lo_free(2) [OF d(2,1)] Cons.prems(1-3) by (simp_all add: loaded_low_def new_low_id [OF s])
  show ?case using Cons.IH [OF w1] Cons.prems l by simp
qed

lemma load_scrub_lines:
  "(\<And>i. i \<in> set is \<Longrightarrow> i < 8) \<Longrightarrow>
   lw_slots (load_lines_lo (map (\<lambda>i. scrub_line i @ [nl]) is) w) = lw_slots w"
proof (induction "is" arbitrary: w)
  case (Cons i ks)
  have "c_str (scrub_line i @ [nl]) = scrub_line i @ [nl]" using scrub_line_ok(3) [of i] Cons.prems by (intro c_str_id) simp
  then have "load_line_lo (scrub_line i @ [nl]) w =
      Some (if (of_nat i :: u32) < 8 then w\<lparr> lw_scrub := (lw_scrub w)[unat (of_nat i :: u32) := True] \<rparr> else w)"
    using scrub_line_ok(4) [of i] Cons.prems by (simp add: load_line_lo_def)
  then show ?case using Cons.IH Cons.prems by simp
qed simp

lemma low_text_lines:
  assumes "slots_ok (lw_slots w)"
  shows "fgets_lines (low_text w) = map (\<lambda>s. low_line s @ [nl]) (filter lo_in_use (lw_slots w)) @
    map (\<lambda>i. scrub_line i @ [nl]) (filter (\<lambda>i. lw_scrub w ! i) [0..<8])"
proof -
  let ?ls = "map low_line (filter lo_in_use (lw_slots w)) @ map scrub_line (filter (\<lambda>i. lw_scrub w ! i) [0..<8])"
  have "nl \<notin> set l \<and> length l < 255" if "l \<in> set ?ls" for l
    using that low_line_ok(1,2) scrub_line_ok(1,2) assms by (auto simp: slots_ok_def list_all_iff)
  then have "fgets_lines (concat (map (\<lambda>l. l @ [nl]) ?ls)) = map (\<lambda>l. l @ [nl]) ?ls" by (rule fgets_lines_concat)
  then show ?thesis by (simp add: low_text_def comp_def)
qed

text \<open>The leases as a map from owners to slots.\<close>

definition low_map :: "low_world \<Rightarrow> string \<rightharpoonup> low_slot" where
  "low_map w = slot_of lo_in_use lo_uuid (lw_slots w)"

lemma slot_of_packed_lo:
  "slot_of lo_in_use lo_uuid (packed_lo (filter lo_in_use ss)) u = slot_of lo_in_use lo_uuid ss u"
proof -
  have "find (\<lambda>s. lo_in_use s \<and> lo_uuid s = u) (xs @ replicate k zero_low) = find (\<lambda>s. lo_in_use s \<and> lo_uuid s = u) xs" for xs k
    by (induction xs) (auto simp: find_None_iff)
  moreover have "find (\<lambda>s. lo_in_use s \<and> lo_uuid s = u) (filter lo_in_use ss) = find (\<lambda>s. lo_in_use s \<and> lo_uuid s = u) ss"
    by (induction ss) auto
  ultimately show ?thesis by (simp add: slot_of_def packed_lo_def)
qed

lemma quarantine_slots: "lw_slots (quarantine_unleased_locked w) = lw_slots w"
proof -
  have "lw_slots (foldl (quarantine_one t) w is) = lw_slots w" for t w "is"
    by (induction "is" arbitrary: w) (simp_all add: quarantine_one_def)
  then show ?thesis by (simp add: quarantine_unleased_locked_def virt_slice_arena_now_ms_def Let_def)
qed

text \<open>The server that starts again on the same file system.\<close>

definition restart :: "int \<Rightarrow> bool \<Rightarrow> u64 \<Rightarrow> low_world \<Rightarrow> low_world" where
  "restart m c base w = fst (virt_low_lease_arm_module m c base (virt_low_lease_reset w))"

lemma restart_slots:
  assumes "base \<noteq> 0" "base mod 0x4000000 = 0"
  shows "lw_slots (restart m c base w) = lw_slots (virt_low_lease_load ((virt_low_lease_reset w)\<lparr> lw_base := base, lw_ready := True \<rparr>))"
proof -
  have "lw_slots (foldl (\<lambda>w s. if lo_in_use s then write_header (lo_index s) w else w) v ss) = lw_slots v" for v ss
    by (induction ss arbitrary: v) simp_all
  then show ?thesis using assms
    by (auto simp: restart_def virt_low_lease_arm_module_def virt_low_lease_set_parent_def Let_def split: prod.splits)
qed

lemma restart_saved:
  assumes s: "slots_ok (lw_slots w)" and b: "base \<noteq> 0" "base mod 0x4000000 = 0"
    and f: "store_open VIRT_LOW_LEASE_STORE (lw_host w) = Inr (low_text w)"
  shows "low_map (restart m c base w) = low_map w"
proof -
  let ?w0 = "(virt_low_lease_reset w)\<lparr> lw_base := base, lw_ready := True \<rparr>"
  let ?ss = "filter lo_in_use (lw_slots w)" and ?is = "filter (\<lambda>i. lw_scrub w ! i) [0..<8]"
  have f0: "store_open (lw_store ?w0) (lw_host ?w0) = Inr (low_text w)"
    using f by (simp add: virt_low_lease_reset_def virt_low_lease_stop_scrubber_def)
  have w0: "lw_slots ?w0 = packed_lo []" "lw_ready ?w0" "lw_scrub ?w0 = replicate 8 False"
    by (simp_all add: virt_low_lease_reset_def packed_lo_def)
  have "length ?ss \<le> 8" using s length_filter_le [of lo_in_use "lw_slots w"] by (simp add: slots_ok_def)
  moreover have "list_all lo_in_use ?ss" "list_all low_slot_ok ?ss" using s by (auto simp: slots_ok_def list_all_iff)
  moreover have "distinct (map lo_uuid ?ss)" "distinct (map lo_index ?ss)"
    using s by (simp_all add: slots_ok_def unique_keys_def live_keys_def)
  ultimately obtain w1 where w1: "load_lines_lo (map (\<lambda>s. low_line s @ [nl]) ?ss @ map (\<lambda>i. scrub_line i @ [nl]) ?is) ?w0
      = load_lines_lo (map (\<lambda>i. scrub_line i @ [nl]) ?is) w1" "lw_slots w1 = packed_lo ?ss"
    using load_low_lines [OF w0, of ?ss "map (\<lambda>i. scrub_line i @ [nl]) ?is"] by auto
  have "lw_slots (virt_low_lease_load ?w0) = packed_lo ?ss"
    unfolding virt_low_lease_load_def f0 using w1 load_scrub_lines [of ?is w1]
    by (simp add: quarantine_slots low_text_lines [OF s])
  then show ?thesis by (simp add: fun_eq_iff low_map_def restart_slots [OF b] slot_of_packed_lo)
qed

end
