(* ===== verification/Low_Lease_Props.thy ===== *)
theory Low_Lease_Props
  imports Low_Lease_Store "HOL-Library.Code_Target_Nat"
begin

text \<open>
  The properties of the low leases: exclusive leases and bindings, fresh leases of zeroed memory, scrubs that no
  writer can run into, and acknowledged commands that survive a restart.
\<close>

section \<open>Interleavings\<close>

lemma armed_reach_ok:
  assumes "base \<noteq> 0" "base mod 0x4000000 = 0" "unat (io_now (lw_io w)) + 4000 < 2 ^ 64" "low_reach (armed m c base w) s"
  shows "sys_ok s"
  using low_reach_ok [OF assms(4) armed_ok [OF assms(1-3)]] .

text \<open>Only an admin command leases a slice, and only one that was available.\<close>

lemma lease_step:
  assumes st: "low_step s s'" and ok: "sys_ok s" and i: "i < 8"
    and new: "\<not> index_leased i (lw_slots (ls_w s))" "index_leased i (lw_slots (ls_w s'))"
  shows "guar (ls_w s) (ls_w s') \<and> available i (ls_w s) \<and> quiet i s' \<and> ls_jobs s' = ls_jobs s"
proof -
  have *: "guar (ls_w s) w \<Longrightarrow> s' = s\<lparr> ls_w := w, ls_admin := p \<rparr> \<Longrightarrow> ?thesis" for w p
  proof -
    assume g: "guar (ls_w s) w" and s': "s' = s\<lparr> ls_w := w, ls_admin := p \<rparr>"
    have "\<not> wanted i (ls_w s)" using guar_facts(5) [OF g i] new s' by (auto simp: wanted_def)
    then have a: "available i (ls_w s)" using new(1) by (simp add: wanted_def available_def)
    then have "quiet i s" using sys_okD(7) [OF ok i] by (simp add: free_ok_def)
    then have "quiet i s'" using g by (simp add: quiet_def s' now_of_def guar_def)
    then show ?thesis using a g s' by simp
  qed
  from st show ?thesis
  proof cases
    case (admin req n w rc r)
    have "outcome_ok (ls_w s) w r" by (rule low_admin_ok [OF sys_okD(1) [OF ok] admin(3)])
    then show ?thesis using * [OF _ admin(1)] by (simp add: outcome_ok_def)
  next
    case (woken uuid cid n t w r)
    have "may_reserve uuid cid (ls_w s)" using sys_okD(2) [OF ok] woken by (simp add: admin_pc_ok_def)
    then have "outcome_ok (ls_w s) w r" using reserve_woken_ok [OF sys_okD(1) [OF ok] _ woken(3)] by simp
    then show ?thesis using * [OF _ woken(1)] by (simp add: outcome_ok_def)
  next
    case (scrub_run j e w rc)
    then show ?thesis using new scrub_memory_of_frame(1) [of j e "ls_w s" w rc] sys_okD(1,5) [OF ok]
      by (simp add: scrub_frame_def low_ok_def scrub_ok_def)
  next
    case (scrub_end j rc)
    then show ?thesis using new by (auto simp: scrub_finish_def save_locked_lo_def split: if_splits prod.splits)
  next
    case (call_begin cid j)
    then show ?thesis using new by (auto simp: job_begin_def split: prod.splits if_splits)
  qed (use new in \<open>auto simp: job_recheck_def job_end_def job_leave_def write_byte_def pass_time_def Let_def split: if_splits\<close>)
qed

text \<open>
  C2: In every interleaving of the admin thread, the scrubber, the broker calls and the memory traffic, a slice is
  leased only when everything but its header block is zero: no byte of the previous holder is left. At that moment
  no admitted call runs on the slice and the work that earlier calls left behind is settled.
\<close>
theorem fresh_lease_zeroed:
  assumes "base \<noteq> 0" "base mod 0x4000000 = 0" "unat (io_now (lw_io w)) + 4000 < 2 ^ 64"
    and "low_reach (armed m c base w) s" "low_step s s'" "i < 8"
    and "\<not> index_leased i (lw_slots (ls_w s))" "index_leased i (lw_slots (ls_w s'))" "k < VIRT_SLICE_ARENA_BYTES - 64"
  shows "io_mem (lw_io (ls_w s')) i k = 0 \<and> \<not> list_ex (\<lambda>j. job_index j = i \<and> job_admitted j) (ls_jobs s') \<and>
    ls_settled s' i \<le> now_of s'"
proof -
  have ok: "sys_ok s" by (rule armed_reach_ok [OF assms(1-4)])
  have l: "guar (ls_w s) (ls_w s')" "available i (ls_w s)" "quiet i s'" using lease_step [OF assms(5) ok assms(6-8)] by auto
  have "clean i (ls_w s)" using sys_okD(7) [OF ok assms(6)] l(2) by (simp add: free_ok_def)
  then have "io_mem (lw_io (ls_w s)) i k = 0" using assms(9) unfolding clean_def by simp
  then show ?thesis using guar_facts(9) [OF l(1) assms(6), of k] assms(9) l(3) by (auto simp: slice_body_def quiet_def list_ex_iff)
qed

text \<open>
  C9: While the scrubber zeroes slice \<open>i\<close> and reads it back, the slice has no holder, it is quarantined, no call
  is in flight on it, nothing may write it, and a broker call on it is refused.
\<close>
theorem scrub_excludes_writers:
  assumes "base \<noteq> 0" "base mod 0x4000000 = 0" "unat (io_now (lw_io w)) + 4000 < 2 ^ 64"
    and "low_reach (armed m c base w) s" "ls_scrub s = Scrub_due i"
  shows "i < 8 \<and> \<not> index_leased (of_nat i) (lw_slots (ls_w s)) \<and> \<not> may_write (of_nat i) s \<and>
    virt_slice_arena_quarantined (of_nat i) (lw_arena (ls_w s)) \<and>
    \<not> list_ex (\<lambda>j. job_index j = of_nat i) (ls_jobs s) \<and> job_begin cid (of_nat i) s = None"
proof -
  have ok: "sys_ok s" by (rule armed_reach_ok [OF assms(1-4)])
  have i: "i < 8" "wanted (of_nat i) (ls_w s)" "idle (of_nat i) s"
    using sys_okD(5) [OF ok] assms(5) by (simp_all add: scrub_ok_def)
  note i8 = of_nat_less_8(1) [OF i(1)]
  have nl: "\<not> index_leased (of_nat i) (lw_slots (ls_w s))" using i(2) by (simp add: wanted_def)
  have q: "as_quarantined (slot_at (of_nat i) (lw_arena (ls_w s)))" using i(3) by (simp add: idle_def)
  have "job_begin cid (of_nat i) s = None" using q i8 by (simp add: job_begin_def virt_slice_arena_begin_def)
  then show ?thesis
    using i nl q i8 idle_no_writer [OF ok i8 i(3) nl] idle_no_calls [OF ok i8 i(3)]
    by (auto simp: virt_slice_arena_quarantined_def list_ex_iff not_le)
qed

text \<open>
  C6: In every interleaving no owner and no slice has two leases, a slice that is leased is never quarantined, and
  a guest is bound to a slice only while a lease of that slice names its CID.
\<close>
theorem low_leases_exclusive:
  assumes "base \<noteq> 0" "base mod 0x4000000 = 0" "unat (io_now (lw_io w)) + 4000 < 2 ^ 64"
    and "low_reach (armed m c base w) s"
  shows "unique_keys lo_in_use lo_uuid (lw_slots (ls_w s)) \<and> unique_keys lo_in_use lo_index (lw_slots (ls_w s)) \<and>
    (\<forall>i. index_leased i (lw_slots (ls_w s)) \<longrightarrow> \<not> virt_slice_arena_quarantined i (lw_arena (ls_w s))) \<and>
    (\<forall>cid i. slice_of cid (ls_w s) = Some i \<longrightarrow>
       (\<exists>x \<in> set (lw_slots (ls_w s)). lo_in_use x \<and> lo_index x = i \<and> lo_cid x = cid))"
proof -
  have "low_ok (ls_w s)" using armed_reach_ok [OF assms] by (rule sys_okD(1))
  then show ?thesis
    using slice_of_leased [of "ls_w s"]
    by (auto simp: low_ok_def slots_ok_def quar_ok_def virt_slice_arena_quarantined_def not_le)
qed

section \<open>A run\<close>

text \<open>What a scrub of working memory leaves, without the read-back.\<close>

definition zeroed :: "u32 \<Rightarrow> slice_io \<Rightarrow> slice_io" where
  "zeroed i io = io\<lparr> io_mem := (io_mem io)(i := (\<lambda>k. if k < VIRT_SLICE_ARENA_BYTES then 0 else io_mem io i k)) \<rparr>"

lemma readback_zeroed: "(\<And>k. k < 8 * n \<Longrightarrow> m k = 0) \<Longrightarrow> readback_zero m n"
proof -
  assume z: "\<And>k. k < 8 * n \<Longrightarrow> m k = 0"
  have "le64_at m (8 * i) = 0" if "i < n" for i
  proof -
    have m: "m (8 * i + j) = 0" if "j < 8" for j using z [of "8 * i + j"] that \<open>i < n\<close> by simp
    have l: "[0..<8] = [0, 1, 2, 3, 4, 5, 6, 7::nat]" by (simp add: upt_rec)
    show ?thesis unfolding le64_at_def l using m [of 0] m [of 1] m [of 2] by (simp add: m)
  qed
  then show ?thesis by (simp add: readback_zero_def list_all_iff)
qed

lemma scrub_works:
  assumes "i < 8" "io_map (lw_io w) (of_nat i) = None" "\<And>k. io_store (lw_io w) (of_nat i) k 0 = 0"
  shows "scrub_memory_of i e w = (w\<lparr> lw_io := zeroed (of_nat i) (lw_io w), lw_arena := record_scrub (of_nat i) 0 e (lw_arena w) \<rparr>, 0)"
proof -
  let ?m = "\<lambda>k. if k < VIRT_SLICE_ARENA_BYTES then 0 else io_mem (lw_io w) (of_nat i) k"
  have "readback_zero ?m (VIRT_SLICE_ARENA_BYTES div 8)" by (rule readback_zeroed) simp
  moreover have "\<not> (8::u32) \<le> of_nat i" using of_nat_less_8(1) [OF assms(1)] by (simp add: not_le)
  ultimately show ?thesis using assms(2,3)
    by (simp add: scrub_memory_of_def virt_slice_arena_scrub_def scrub_memory_def zeroed_def Let_def cong: if_cong)
qed

text \<open>A server with dirty memory, and an owner whose slice lease is held.\<close>

definition low_demo :: low_world where
  "low_demo = \<lparr> lw_slots = [], lw_scrub = [], lw_wait_ms = 0, lw_started = False, lw_stop = False, lw_ready = False, lw_base = 0,
     lw_pid = 0, lw_have_pid = False, lw_next_epoch = 0, lw_store = [], lw_arena = \<lparr> sa_init = False, sa_slots = [] \<rparr>,
     lw_io = \<lparr> io_mem = (\<lambda>_ _. 7), io_store = (\<lambda>_ _ v. v), io_map = (\<lambda>_. None), io_now = 10000 \<rparr>, lw_rpc = [], lw_host = empty_host,
     lw_lease = \<lparr> sl_slots = zero_slot\<lparr> ls_in_use := True, ls_uuid := ''aa'', ls_epoch := 1, ls_bytes := 4096 \<rparr> # replicate 7 zero_slot,
       sl_attach = None, sl_detach = False, sl_calls = [], sl_matched = True, sl_count = 8, sl_slice_bytes = 4096, sl_next_epoch = 2,
       sl_store = ''/run/leases'' \<rparr>, lw_cam = virt_camera_policy_reset \<rparr>"

definition low_demo_armed :: low_sys where
  "low_demo_armed = armed 0 True 0x4000000 low_demo"

definition low_demo_due :: low_sys where
  "low_demo_due = low_demo_armed\<lparr> ls_scrub := Scrub_due 0 \<rparr>"

definition low_demo_scrubbed :: "low_world \<Rightarrow> low_world" where
  "low_demo_scrubbed w = scrub_finish 0 (w\<lparr> lw_io := zeroed 0 (lw_io w), lw_arena := record_scrub 0 0 3 (lw_arena w) \<rparr>)"

definition low_demo_reserve :: "low_world \<Rightarrow> low_world \<times> int \<times> low_reply" where
  "low_demo_reserve w = virt_low_lease_admin (Some ''RESERVE_LOW aa 5'') 160 w"

definition low_demo_clean :: low_sys where
  "low_demo_clean = low_demo_armed\<lparr> ls_w := low_demo_scrubbed (ls_w low_demo_armed) \<rparr>"

definition low_demo_leased :: low_sys where
  "low_demo_leased = low_demo_clean\<lparr> ls_w := fst (low_demo_reserve (ls_w low_demo_clean)) \<rparr>"

definition low_demo_fresh :: "low_world \<Rightarrow> bool" where
  "low_demo_fresh w \<longleftrightarrow> \<not> index_leased 0 (lw_slots w) \<and>
     (case low_demo_reserve w of (w', rc, r) \<Rightarrow> index_leased 0 (lw_slots w') \<and> (case r of Replied m \<Rightarrow> take 2 m = ''OK'' | _ \<Rightarrow> False))"

definition low_demo_run :: "low_world \<Rightarrow> bool" where
  "low_demo_run w \<longleftrightarrow> scrub_wanted 0 w \<and> fst (virt_slice_arena_scrub_due 0 (lw_io w) (lw_arena w)) \<and>
     io_map (lw_io w) 0 = None \<and> low_demo_fresh (low_demo_scrubbed w)"

lemma low_demo_runs: "low_demo_run (ls_w low_demo_armed)"
  by code_simp

lemma low_demo_due_reach: "low_reach low_demo_armed low_demo_due"
proof -
  have 1: "ls_scrub low_demo_armed = Scrub_idle" by (simp add: low_demo_armed_def armed_def)
  have 2: "scrub_wanted 0 (ls_w low_demo_armed)"
    "fst (virt_slice_arena_scrub_due (of_nat 0) (lw_io (ls_w low_demo_armed)) (lw_arena (ls_w low_demo_armed)))"
    using low_demo_runs by (simp_all add: low_demo_run_def)
  have "low_reach low_demo_armed (low_demo_armed\<lparr> ls_scrub := Scrub_pending 0 \<rparr>)"
    using reach_step [OF reach_init scrub_check [OF 1 _ 2(1)]] by simp
  from reach_step [OF this scrub_due [of _ 0]] 2(2) show ?thesis by (simp add: low_demo_due_def)
qed

lemma armed_store: "io_store (lw_io (ls_w low_demo_armed)) i k v = v"
proof -
  have h: "io_store (lw_io (foldl (\<lambda>w s. if lo_in_use s then write_header (lo_index s) w else w) v ss)) = io_store (lw_io v)" for v ss
    by (induction ss arbitrary: v) (simp_all add: write_header_def header_frame(2))
  let ?w1 = "(virt_low_lease_reset low_demo)\<lparr> lw_base := 0x4000000, lw_ready := True \<rparr>"
  have "load_ok ?w1" using reset_ok [of low_demo] by (simp add: load_ok_def low_ok_def)
  moreover have "fresh_arena (io_now (lw_io ?w1)) (lw_arena ?w1)"
    by (simp add: fresh_arena_def virt_low_lease_reset_def slot_at_reset zero_arena_slot_def)
  ultimately have "lw_io (virt_low_lease_load ?w1) = lw_io ?w1" using load_result(2) [of ?w1] by simp
  then show ?thesis
    by (simp add: low_demo_armed_def armed_def virt_low_lease_arm_module_def virt_low_lease_set_parent_def Let_def h)
      (simp add: virt_low_lease_reset_def virt_low_lease_stop_scrubber_def low_demo_def)
qed

lemma low_demo_clean_reach: "low_reach low_demo_armed low_demo_clean"
proof -
  let ?w = "ls_w low_demo_armed"
  let ?z = "?w\<lparr> lw_io := zeroed 0 (lw_io ?w), lw_arena := record_scrub 0 0 3 (lw_arena ?w) \<rparr>"
  have pc: "ls_scrub low_demo_armed = Scrub_idle" by (simp add: low_demo_armed_def armed_def)
  have "io_map (lw_io ?w) (of_nat 0) = None" using low_demo_runs by (simp add: low_demo_run_def)
  then have r: "scrub_memory_of 0 3 (ls_w low_demo_due) = (?z, 0)"
    using scrub_works [of 0 ?w 3] armed_store by (simp add: low_demo_due_def)
  have d: "ls_scrub low_demo_due = Scrub_due 0" by (simp add: low_demo_due_def)
  note s3 = reach_step [OF low_demo_due_reach scrub_run [OF d r]]
  have "low_reach low_demo_armed (low_demo_due\<lparr> ls_w := low_demo_scrubbed ?w, ls_scrub := Scrub_idle \<rparr>)"
    using reach_step [OF s3 scrub_end [of _ 0 0]] by (simp add: low_demo_scrubbed_def)
  moreover have "low_demo_due\<lparr> ls_w := low_demo_scrubbed ?w, ls_scrub := Scrub_idle \<rparr> = low_demo_clean"
    using pc by (simp add: low_demo_due_def low_demo_clean_def)
  ultimately show ?thesis by simp
qed

lemma low_demo_lease:
  shows "low_step low_demo_clean low_demo_leased" "\<not> index_leased 0 (lw_slots (ls_w low_demo_clean))"
    "index_leased 0 (lw_slots (ls_w low_demo_leased))"
proof -
  have f: "low_demo_fresh (ls_w low_demo_clean)" using low_demo_runs by (simp add: low_demo_run_def low_demo_clean_def)
  obtain w rc r where a: "low_demo_reserve (ls_w low_demo_clean) = (w, rc, r)" by (metis prod_cases3)
  then have r: "\<not> index_leased 0 (lw_slots (ls_w low_demo_clean))" "index_leased 0 (lw_slots w)" "after_reply r = Admin_idle"
    using f by (auto simp: low_demo_fresh_def after_reply_def split: low_reply.splits)
  have pc: "ls_admin low_demo_clean = Admin_idle" by (simp add: low_demo_clean_def low_demo_armed_def armed_def)
  have "low_step low_demo_clean (low_demo_clean\<lparr> ls_w := w, ls_admin := after_reply r \<rparr>)"
    using a by (intro admin [OF pc]) (simp add: low_demo_reserve_def)
  moreover have "low_demo_clean\<lparr> ls_w := w, ls_admin := after_reply r \<rparr> = low_demo_leased"
    using r(3) pc by (simp add: low_demo_leased_def a)
  ultimately show "low_step low_demo_clean low_demo_leased" by simp
  show "\<not> index_leased 0 (lw_slots (ls_w low_demo_clean))" "index_leased 0 (lw_slots (ls_w low_demo_leased))"
    using r a by (simp_all add: low_demo_leased_def)
qed

lemma low_demo_now: "unat (io_now (lw_io low_demo)) + 4000 < 2 ^ 64"
  by (simp add: low_demo_def)

theorem fresh_lease_zeroed_witness:
  "low_reach low_demo_armed low_demo_clean \<and> low_step low_demo_clean low_demo_leased \<and>
   \<not> index_leased 0 (lw_slots (ls_w low_demo_clean)) \<and> index_leased 0 (lw_slots (ls_w low_demo_leased)) \<and>
   io_mem (lw_io low_demo) 0 5 = 7 \<and> io_mem (lw_io (ls_w low_demo_leased)) 0 5 = 0"
proof -
  have "io_mem (lw_io (ls_w low_demo_leased)) 0 5 = 0"
    using fresh_lease_zeroed [OF _ _ low_demo_now low_demo_clean_reach [unfolded low_demo_armed_def] low_demo_lease(1) _
        low_demo_lease(2,3), of 5] by simp
  moreover have "io_mem (lw_io low_demo) 0 5 = 7" by (simp add: low_demo_def)
  ultimately show ?thesis using low_demo_clean_reach low_demo_lease by simp
qed

theorem scrub_excludes_writers_witness:
  "low_reach low_demo_armed low_demo_due \<and> ls_scrub low_demo_due = Scrub_due 0 \<and> \<not> may_write 0 low_demo_due \<and>
   job_begin 5 0 low_demo_due = None"
  using scrub_excludes_writers [OF _ _ low_demo_now low_demo_due_reach [unfolded low_demo_armed_def], of 0 5] low_demo_due_reach
  by (simp add: low_demo_due_def)

theorem low_leases_exclusive_witness:
  "low_reach low_demo_armed low_demo_leased \<and> index_leased 0 (lw_slots (ls_w low_demo_leased)) \<and>
   \<not> virt_slice_arena_quarantined 0 (lw_arena (ls_w low_demo_leased))"
proof -
  note r = reach_step [OF low_demo_clean_reach low_demo_lease(1)]
  show ?thesis
    using low_leases_exclusive [OF _ _ low_demo_now r [unfolded low_demo_armed_def]] low_demo_lease(3) r by simp
qed

end
