(* ===== verification/Low_Lease_Durable.thy ===== *)
theory Low_Lease_Durable
  imports Low_Lease_Props
begin

text \<open>
  What the commands on low leases promise about the store, what a scrub pass achieves, and where a command that
  could not write the store leaves memory and store apart.
\<close>

section \<open>Acknowledged commands\<close>





lemma write_header_store [simp]: "lw_host (write_header i w) = lw_host w" "lw_store (write_header i w) = lw_store w"
  by (simp_all add: write_header_def)

lemma unbind_cid_fields [simp]:
  "lw_host (unbind_cid c w) = lw_host w" "lw_store (unbind_cid c w) = lw_store w" "lw_scrub (unbind_cid c w) = lw_scrub w"
  "lw_slots (unbind_cid c w) = lw_slots w"
  by (simp_all add: unbind_cid_def)








section \<open>A scrub pass\<close>

text \<open>What the scrub of one slice leaves of another.\<close>

definition same_slice :: "u32 \<Rightarrow> low_world \<Rightarrow> low_world \<Rightarrow> bool" where
  "same_slice i w w' \<longleftrightarrow> lw_slots w' = lw_slots w \<and> lw_scrub w' ! unat i = lw_scrub w ! unat i \<and> length (lw_scrub w') = length (lw_scrub w) \<and>
     slot_at i (lw_arena w') = slot_at i (lw_arena w) \<and> arena_ok (lw_arena w') \<and> io_mem (lw_io w') i = io_mem (lw_io w) i \<and>
     io_now (lw_io w') = io_now (lw_io w) \<and> io_map (lw_io w') = io_map (lw_io w) \<and> io_store (lw_io w') = io_store (lw_io w)"

lemma scrub_slice_other:
  assumes j: "j < 8" "of_nat j \<noteq> i" and ar: "arena_ok (lw_arena w)"
  shows "same_slice i w (fst (scrub_slice e j (w, n)))"
proof -
  note j8 = of_nat_less_8 [OF j(1)]
  have ji: "unat i \<noteq> j" using j(2) j8(2) by auto
  obtain io rc where io: "scrub_memory (of_nat j) (lw_io w) = (io, rc)" by fastforce
  have fr: "io_now io = io_now (lw_io w)" "io_store io = io_store (lw_io w)" "io_mem io i = io_mem (lw_io w) i" "io_map io = io_map (lw_io w)"
    using scrub_memory_frame [OF io] j(2) io by (auto simp: scrub_memory_def Let_def split: option.splits)
  let ?w1 = "w\<lparr> lw_io := io, lw_arena := record_scrub (of_nat j) rc e (lw_arena w) \<rparr>"
  have run: "scrub_memory_of j e w = (?w1, rc)"
    using io j8(1) by (simp add: scrub_memory_of_def virt_slice_arena_scrub_def Let_def not_le [symmetric])
  have w1: "same_slice i w ?w1" using fr ar j j8 by (simp add: same_slice_def record_scrub_def)
  obtain h where "scrub_finish j ?w1 = ?w1\<lparr> lw_scrub := (lw_scrub ?w1)[j := False],
      lw_arena := virt_slice_arena_unquarantine (of_nat j) (lw_arena ?w1), lw_host := h \<rparr>"
    by (rule scrub_finish_frame)
  then have "same_slice i w (scrub_finish j ?w1)"
    using w1 ar j ji j8 by (simp add: same_slice_def arena_ops record_scrub_def)
  moreover have "same_slice i w w" using ar by (simp add: same_slice_def)
  ultimately show ?thesis using w1 by (auto simp: scrub_slice_def run)
qed

lemma scrub_pass_other:
  assumes "\<And>j. j \<in> set js \<Longrightarrow> j < 8 \<and> of_nat j \<noteq> i" "arena_ok (lw_arena w)"
  shows "same_slice i w (fst (foldl (\<lambda>x j. scrub_slice e j x) (w, n) js))"
  using assms
proof (induction js arbitrary: w n)
  case Nil
  then show ?case by (simp add: same_slice_def)
next
  case (Cons j js)
  obtain w1 n1 where s: "scrub_slice e j (w, n) = (w1, n1)" by fastforce
  have 1: "same_slice i w w1" using scrub_slice_other [of j i w e n] Cons.prems s by simp
  then have "same_slice i w1 (fst (foldl (\<lambda>x j. scrub_slice e j x) (w1, n1) js))"
    using Cons.prems by (intro Cons.IH) (auto simp: same_slice_def)
  then show ?case using 1 s by (simp add: same_slice_def)
qed

lemma due_now:
  assumes "arena_ok a" "i < 8" "as_quarantined (slot_at i a)" "as_inflight (slot_at i a) = 0"
    and "unat (as_released (slot_at i a)) + 4000 \<le> unat (io_now io)" "unat (as_last_end (slot_at i a)) + 4000 \<le> unat (io_now io)"
  shows "fst (virt_slice_arena_scrub_due i io a)"
proof -
  let ?from = "if as_released (slot_at i a) > as_last_end (slot_at i a) then as_released (slot_at i a) else as_last_end (slot_at i a)"
  have f: "unat ?from + 4000 \<le> unat (io_now io)" using assms(5,6) by simp
  then have "unat (?from + 4000) = unat ?from + 4000"
    using unat_u64_less [of "io_now io"] unat_add_lem [of ?from "4000 :: u64"] by simp
  then have "?from + 4000 \<le> io_now io" using f by (simp add: word_le_nat_alt)
  then show ?thesis using assms(2-4) by (simp add: virt_slice_arena_scrub_due_def Let_def not_le [symmetric])
qed

lemma scrub_slice_self:
  fixes e :: u64 and n :: nat
  assumes i: "i < 8" and ar: "arena_ok (lw_arena w)" and len: "length (lw_scrub w) = 8" and wa: "wanted (of_nat i) w"
    and due: "fst (virt_slice_arena_scrub_due (of_nat i) (lw_io w) (lw_arena w))"
    and mem: "io_map (lw_io w) (of_nat i) = None" "\<And>k. io_store (lw_io w) (of_nat i) k 0 = 0"
  defines "w' \<equiv> fst (scrub_slice e i (w, n))"
  shows "available (of_nat i) w' \<and> clean (of_nat i) w' \<and> \<not> as_quarantined (slot_at (of_nat i) (lw_arena w')) \<and> arena_ok (lw_arena w')"
proof -
  note i8 = of_nat_less_8 [OF i]
  let ?w1 = "w\<lparr> lw_io := zeroed (of_nat i) (lw_io w), lw_arena := record_scrub (of_nat i) 0 e (lw_arena w) \<rparr>"
  have run: "scrub_memory_of i e w = (?w1, 0)" by (rule scrub_works [OF i mem])
  have "scrub_wanted i w" using wa i8 by (simp add: wanted_def scrub_wanted_def)
  then have "w' = scrub_finish i ?w1" using due by (simp add: w'_def scrub_slice_def run)
  moreover obtain h where "scrub_finish i ?w1 = ?w1\<lparr> lw_scrub := (lw_scrub ?w1)[i := False],
      lw_arena := virt_slice_arena_unquarantine (of_nat i) (lw_arena ?w1), lw_host := h \<rparr>"
    by (rule scrub_finish_frame)
  ultimately show ?thesis
    using ar len i i8 wa by (simp add: available_def wanted_def clean_def zeroed_def arena_ops record_scrub_def)
qed

text \<open>
  C34: A released slice comes back. Once its calls have ended and 4000 ms have passed since the release and since
  the last call, a pass of the scrubber over working memory leaves the slice zeroed, out of quarantine and free to
  be leased, whatever state the other slices are in; a reserve then finds a free slice.
\<close>
theorem scrub_pass_frees:
  assumes ok: "low_ok w" and i: "i < 8" and wa: "lw_scrub w ! i" "\<not> index_leased (of_nat i) (lw_slots w)"
    and q: "virt_slice_arena_quarantined (of_nat i) (lw_arena w)" "as_inflight (slot_at (of_nat i) (lw_arena w)) = 0"
    and t: "unat (as_released (slot_at (of_nat i) (lw_arena w))) + 4000 \<le> unat (io_now (lw_io w))"
      "unat (as_last_end (slot_at (of_nat i) (lw_arena w))) + 4000 \<le> unat (io_now (lw_io w))"
    and mem: "io_map (lw_io w) (of_nat i) = None" "\<And>k. io_store (lw_io w) (of_nat i) k 0 = 0"
  shows "\<exists>w' n. virt_low_lease_scrub_pass e w = (w', n) \<and> \<not> virt_low_lease_scrub_pending (of_nat i) w' \<and>
    \<not> virt_slice_arena_quarantined (of_nat i) (lw_arena w') \<and> clean (of_nat i) w' \<and> free_index w' \<noteq> None"
proof -
  let ?i = "of_nat i :: u32" and ?f = "foldl (\<lambda>x j. scrub_slice e j x)"
  note i8 = of_nat_less_8 [OF i]
  have ar: "arena_ok (lw_arena w)" and len: "length (lw_scrub w) = 8" using ok by (simp_all add: low_ok_def quar_ok_def)
  have inj: "of_nat j \<noteq> ?i" if "j < 8" "j \<noteq> i" for j using that of_nat_less_8(2) i8(2) by metis
  have split: "[0..<8] = [0..<i] @ i # [Suc i..<8]" using i upt_add_eq_append [of 0 i "8 - i"] by (simp add: upt_conv_Cons)
  obtain w1 n1 where 1: "?f (w, 0) [0..<i] = (w1, n1)" by fastforce
  have s1: "same_slice ?i w w1" using scrub_pass_other [of "[0..<i]" ?i w e 0] ar inj i 1 by simp
  obtain w2 n2 where 2: "scrub_slice e i (w1, n1) = (w2, n2)" by fastforce
  have "fst (virt_slice_arena_scrub_due ?i (lw_io w1) (lw_arena w1))"
    using s1 i8 q t by (intro due_now) (auto simp: same_slice_def virt_slice_arena_quarantined_def)
  then have s2: "available ?i w2 \<and> clean ?i w2 \<and> \<not> as_quarantined (slot_at ?i (lw_arena w2)) \<and> arena_ok (lw_arena w2)"
    using scrub_slice_self [OF i, of w1 e n1] s1 len wa i8 mem 2 by (simp add: same_slice_def wanted_def)
  obtain w3 n3 where 3: "?f (w2, n2) [Suc i..<8] = (w3, n3)" by fastforce
  have s3: "same_slice ?i w2 w3" using scrub_pass_other [of "[Suc i..<8]" ?i w2 e n2] s2 inj i 3 by simp
  have r: "virt_low_lease_scrub_pass e w = (w3, n3)" by (simp add: virt_low_lease_scrub_pass_def split 1 2 3)
  have "\<not> index_taken_lo ?i w3" using s2 s3 by (auto simp: index_taken_lo_def available_def same_slice_def)
  then have "free_index w3 \<noteq> None" using i by (auto simp: free_index_def find_None_iff)
  then show ?thesis using r s2 s3
    by (auto simp: virt_low_lease_scrub_pending_def virt_slice_arena_quarantined_def available_def same_slice_def clean_def)
qed

definition low_demo_due_check :: "low_world \<Rightarrow> bool" where
  "low_demo_due_check w \<longleftrightarrow> lw_scrub w ! 0 \<and> \<not> index_leased 0 (lw_slots w) \<and>
     virt_slice_arena_quarantined 0 (lw_arena w) \<and> as_inflight (slot_at 0 (lw_arena w)) = 0 \<and>
     unat (as_released (slot_at 0 (lw_arena w))) + 4000 \<le> unat (io_now (lw_io w)) \<and>
     unat (as_last_end (slot_at 0 (lw_arena w))) + 4000 \<le> unat (io_now (lw_io w)) \<and> io_map (lw_io w) 0 = None"

theorem scrub_pass_frees_witness:
  "\<exists>w' n. lw_scrub (ls_w low_demo_armed) ! 0 \<and> virt_low_lease_scrub_pass 3 (ls_w low_demo_armed) = (w', n) \<and>
     \<not> virt_low_lease_scrub_pending 0 w' \<and> free_index w' \<noteq> None"
proof -
  let ?w = "ls_w low_demo_armed"
  have ok: "low_ok ?w" using armed_ok [OF _ _ low_demo_now, where base = "0x4000000" and m = 0 and c = True] by (simp add: low_demo_armed_def sys_ok_def)
  have d: "low_demo_due_check ?w" by code_simp
  then show ?thesis
    using scrub_pass_frees [OF ok, of 0 3] armed_store by (auto simp: low_demo_due_check_def)
qed

section \<open>A reserve that cannot be stored\<close>





end
