(* ===== verification/Slice_Window.thy ===== *)
theory Slice_Window
  imports Slice_Arena Slice_Rpc "HOL-Library.Code_Target_Nat"
begin

text \<open>
  What a guest sees of its slice: the binding that the slice RPC reports, as a map from CIDs to windows, and the
  header at the end of the slice, which the guest module recognises.
\<close>

section \<open>The header and the guest's check\<close>

lemma bit_read_le:
  "bit (foldr (\<lambda>j w. push_bit 8 w OR ucast (m (k + j) :: u8)) [a..<a + n] (0 :: 'a::len word)) b \<longleftrightarrow>
     b < LENGTH('a) \<and> b div 8 < n \<and> bit (m (k + a + b div 8)) (b mod 8)"
proof (induction n arbitrary: a b)
  case (Suc n)
  let ?f = "\<lambda>j w. push_bit 8 w OR ucast (m (k + j) :: u8)"
  have u: "[a..<a + Suc n] = a # [Suc a..<Suc a + n]" by (simp add: upt_conv_Cons)
  have m8: "\<not> bit (x :: u8) b" if "8 \<le> b" for x b using that bit_imp_le_length [of x b] by force
  show ?case
  proof (cases "b < 8")
    case True
    then show ?thesis unfolding u by (simp add: bit_or_iff bit_push_bit_iff bit_ucast_iff)
  next
    case False
    then have d: "(b - 8) div 8 = b div 8 - 1" "(b - 8) mod 8 = b mod 8" "0 < b div 8"
      by (simp_all add: le_div_geq le_mod_geq)
    have "bit (foldr ?f [Suc a..<Suc a + n] (0 :: 'a word)) (b - 8) \<longleftrightarrow>
        b - 8 < LENGTH('a) \<and> (b - 8) div 8 < n \<and> bit (m (k + Suc a + (b - 8) div 8)) ((b - 8) mod 8)"
      by (rule Suc.IH)
    moreover obtain q where "b div 8 = Suc q" using d(3) by (metis gr0_conv_Suc)
    ultimately show ?thesis unfolding u using False d m8 [of b "m (k + a)"]
      by (auto simp: bit_or_iff bit_push_bit_iff bit_ucast_iff possible_bit_def)
  qed
qed simp

lemma read_le_le_bytes:
  assumes "\<And>j. j < n \<Longrightarrow> m (k + j) = le_bytes n (w :: 'a::len word) ! j" "8 * n = LENGTH('a)"
  shows "(read_le n m k :: 'a word) = w"
proof (rule bit_word_eqI)
  fix b
  assume b: "b < LENGTH('a)"
  then have d: "b div 8 < n" using assms(2) by (simp add: less_mult_imp_div_less mult.commute)
  have "bit (read_le n m k :: 'a word) b \<longleftrightarrow> bit (m (k + b div 8)) (b mod 8)"
    using bit_read_le [where m = m and k = k and a = 0 and n = n and b = b, where 'a = 'a] b d by (simp add: read_le_def)
  also have "\<dots> \<longleftrightarrow> bit w (8 * (b div 8) + b mod 8)"
    using assms(1) [OF d] d by (simp add: le_bytes_def bit_ucast_iff bit_drop_bit_eq)
  finally show "bit (read_le n m k :: 'a word) b = bit w b" by simp
qed

lemma length_le_bytes [simp]: "length (le_bytes n w) = n"
  by (simp add: le_bytes_def)

lemma read_win_hdr_bytes:
  assumes "\<And>j. j < 32 \<Longrightarrow> m (k + j) = win_hdr_bytes h ! j"
  shows "read_win_hdr m k = h"
proof -
  have 1: "m (k + j) = le_bytes 4 (wh_magic h) ! j" if "j < 4" for j
    using assms [of j] that by (simp add: win_hdr_bytes_def nth_append)
  have 2: "m (k + 4 + j) = le_bytes 4 (wh_version h) ! j" if "j < 4" for j
    using assms [of "4 + j"] that by (simp add: win_hdr_bytes_def nth_append add.assoc)
  have 3: "m (k + 8 + j) = le_bytes 4 (wh_window_id h) ! j" if "j < 4" for j
    using assms [of "8 + j"] that by (simp add: win_hdr_bytes_def nth_append add.assoc)
  have 4: "m (k + 12 + j) = le_bytes 4 (wh_reserved h) ! j" if "j < 4" for j
    using assms [of "12 + j"] that by (simp add: win_hdr_bytes_def nth_append add.assoc)
  have 5: "m (k + 16 + j) = le_bytes 8 (wh_part_len h) ! j" if "j < 8" for j
    using assms [of "16 + j"] that by (simp add: win_hdr_bytes_def nth_append add.assoc)
  have 6: "m (k + 24 + j) = le_bytes 8 (wh_size h) ! j" if "j < 8" for j
    using assms [of "24 + j"] that by (simp add: win_hdr_bytes_def nth_append add.assoc)
  show ?thesis
    unfolding read_win_hdr_def
    using read_le_le_bytes [OF 1] read_le_le_bytes [OF 2] read_le_le_bytes [OF 3] read_le_le_bytes [OF 4]
      read_le_le_bytes [OF 5] read_le_le_bytes [OF 6] by simp
qed

text \<open>
  C35: The header the server writes into slice \<open>index\<close> makes the guest module take the device for exactly that
  slice: the check of the module on the last 64 bytes succeeds for the arena entry of slice \<open>index\<close>, of the size
  and usable length the server gives, and for no other slice. Nothing before the header block changes.
\<close>
theorem slice_header_claimed:
  assumes i: "index < 8" and mp: "io_map io index = None" and st: "\<And>k v. io_store io index k v = v"
  shows "\<exists>io'. virt_slice_arena_write_header index io = (io', 0) \<and>
    (\<forall>ent. claims_slice ent (of_nat VIRT_SLICE_ARENA_BYTES) (of_nat (VIRT_SLICE_ARENA_BYTES - VIRT_SLICE_ARENA_PAGE))
       (of_nat VIRT_SLICE_ARENA_BYTES) (io_mem io' index) \<longleftrightarrow> ent = index) \<and>
    (\<forall>k < VIRT_SLICE_ARENA_BYTES - 64. io_mem io' index k = io_mem io index k) \<and>
    (\<forall>j. j \<noteq> index \<longrightarrow> io_mem io' j = io_mem io j)"
proof -
  let ?m = "put_header index io" and ?at = "VIRT_SLICE_ARENA_BYTES - 64"
  have w: "virt_slice_arena_write_header index io = (io\<lparr> io_mem := (io_mem io)(index := ?m) \<rparr>, 0)"
    using i mp by (simp add: virt_slice_arena_write_header_def not_le [symmetric])
  have len: "length (win_hdr_bytes h) = 32" for h by (simp add: win_hdr_bytes_def)
  have hdr: "read_win_hdr ?m ?at = slice_hdr index"
    by (rule read_win_hdr_bytes) (simp add: put_header_def Let_def st len)
  have at: "unat (of_nat VIRT_SLICE_ARENA_BYTES - of_nat 64 :: u64) = ?at" by simp
  have "claims_slice ent (of_nat VIRT_SLICE_ARENA_BYTES) (of_nat (VIRT_SLICE_ARENA_BYTES - VIRT_SLICE_ARENA_PAGE))
      (of_nat VIRT_SLICE_ARENA_BYTES) ?m \<longleftrightarrow> ent = index" for ent
    unfolding claims_slice_def at hdr by (auto simp: slice_hdr_def Let_def)
  then show ?thesis using w by (simp add: put_header_def Let_def)
qed

theorem slice_header_claimed_witness:
  "\<exists>io'. virt_slice_arena_write_header 3 \<lparr> io_mem = (\<lambda>_ _. 0), io_store = (\<lambda>_ _ v. v), io_map = (\<lambda>_. None), io_now = 0 \<rparr> = (io', 0) \<and>
     claims_slice 3 0x4000000 (0x4000000 - 4096) 0x4000000 (io_mem io' 3) \<and>
     \<not> claims_slice 2 0x4000000 (0x4000000 - 4096) 0x4000000 (io_mem io' 3)"
  using slice_header_claimed [of 3 "\<lparr> io_mem = (\<lambda>_ _. 0), io_store = (\<lambda>_ _ v. v), io_map = (\<lambda>_. None), io_now = 0 \<rparr>"]
  by fastforce

section \<open>Bindings as a map\<close>

text \<open>
  What the low leases and the broker rely on: a table of bindings is a map from CIDs to windows, a successful
  \<open>bind\<close> is the update of that map at one CID and \<open>unbind\<close> its removal.
\<close>

locale cid_bindings =
  fixes look :: "'s \<Rightarrow> u32 \<rightharpoonup> u32 \<times> u32"
    and bind :: "u32 \<Rightarrow> u32 \<Rightarrow> u32 \<Rightarrow> 's \<Rightarrow> 's \<times> int"
    and unbind :: "u32 \<Rightarrow> 's \<Rightarrow> 's"
    and ok :: "'s \<Rightarrow> bool"
  assumes look_bind: "ok s \<Longrightarrow> bind c win u s = (s', 0) \<Longrightarrow> look s' = (look s)(c \<mapsto> (win, u))"
    and bind_fails: "bind c win u s = (s', rc) \<Longrightarrow> rc \<noteq> 0 \<Longrightarrow> s' = s"
    and look_unbind: "ok s \<Longrightarrow> look (unbind c s) = (look s)(c := None)"
    and ok_bind: "ok s \<Longrightarrow> ok (fst (bind c win u s))"
    and ok_unbind: "ok s \<Longrightarrow> ok (unbind c s)"
begin

lemma move_cid:
  assumes "ok s" "bind c' win u (unbind c s) = (s', 0)"
  shows "look s' = (look s)(c := None, c' \<mapsto> (win, u))"
  using look_bind [OF ok_unbind [OF assms(1)] assms(2)] look_unbind [OF assms(1)] by simp

lemma unbind_bound:
  assumes "ok s" "bind c win u s = (s', 0)"
  shows "look (unbind c s') = (look s)(c := None)"
  using look_unbind [of s' c] look_bind [OF assms] ok_bind [OF assms(1), of c win u] assms(2) by simp

end

definition rpc_table :: "slice_binding list \<Rightarrow> bool" where
  "rpc_table bs \<longleftrightarrow> length bs = 8 \<and> unique_keys sb_used sb_cid bs"

definition binding_of :: "slice_binding list \<Rightarrow> u32 \<rightharpoonup> u32 \<times> u32" where
  "binding_of bs c = (case iav_slice_rpc_held c bs of Inl _ \<Rightarrow> None | Inr x \<Rightarrow> Some x)"

interpretation bindings: keyed_slots sb_used sb_cid zero_binding
  by unfold_locales (simp add: zero_binding_def)

lemma binding_of_slot:
  "binding_of bs c = (if c = 0 then None else map_option (\<lambda>b. (sb_window_id b, sb_usable b)) (slot_of sb_used sb_cid bs c))"
  by (auto simp: binding_of_def iav_slice_rpc_held_def find_cid_sb_def slot_of_def find_first_idx split: option.splits)

lemma find_cid_Some: "find_cid_sb c bs = Some i \<Longrightarrow> i < length bs \<and> sb_used (bs ! i) \<and> sb_cid (bs ! i) = c \<and> c \<noteq> 0"
  unfolding find_cid_sb_def by (auto split: if_splits dest: first_idx_SomeD)

lemma bind_table_step:
  assumes t: "rpc_table bs" and b: "iav_slice_rpc_bind c win u bs = (bs', 0)"
  shows "rpc_table bs' \<and> binding_of bs' = (binding_of bs)(c \<mapsto> (win, u))"
proof -
  let ?b = "\<lparr> sb_used = True, sb_cid = c, sb_window_id = win, sb_usable = u \<rparr>"
  have uq: "unique_keys sb_used sb_cid bs" using t by (simp add: rpc_table_def)
  obtain i where c: "c \<noteq> 0" and bs': "bs' = bs[i := ?b]"
    and i: "find_cid_sb c bs = Some i \<or> (find_cid_sb c bs = None \<and> first_idx (\<lambda>b. \<not> sb_used b) bs = Some i)"
    using b by (auto simp: iav_slice_rpc_bind_def split: if_splits option.splits)
  have sl: "slot_of sb_used sb_cid bs' = (slot_of sb_used sb_cid bs)(c \<mapsto> ?b) \<and> unique_keys sb_used sb_cid bs'"
    using i
  proof
    assume "find_cid_sb c bs = Some i"
    then show ?thesis
      using find_cid_Some [of c bs i] bindings.slot_of_replace [OF uq, of i ?b] unique_keys_update_same [OF uq, of i ?b]
      by (simp add: bs')
  next
    assume n: "find_cid_sb c bs = None \<and> first_idx (\<lambda>b. \<not> sb_used b) bs = Some i"
    then have "slot_of sb_used sb_cid bs c = None" using c by (simp add: slot_of_def find_first_idx find_cid_sb_def)
    then show ?thesis
      using n first_idx_SomeD [of "\<lambda>b. \<not> sb_used b" bs i] bindings.slot_of_claim [OF uq, of i ?b] bindings.claim_unique [OF uq, of i ?b]
      by (simp add: bs')
  qed
  then show ?thesis using t c by (auto simp: rpc_table_def bs' fun_eq_iff binding_of_slot)
qed

lemma unbind_table_step:
  assumes t: "rpc_table bs"
  shows "rpc_table (iav_slice_rpc_unbind c bs) \<and> binding_of (iav_slice_rpc_unbind c bs) = (binding_of bs)(c := None)"
proof (cases "find_cid_sb c bs")
  case None
  then have "binding_of bs c = None" by (simp add: binding_of_def iav_slice_rpc_held_def)
  then show ?thesis using None t by (auto simp: iav_slice_rpc_unbind_def)
next
  case (Some i)
  have uq: "unique_keys sb_used sb_cid bs" using t by (simp add: rpc_table_def)
  note f = find_cid_Some [OF Some]
  have "slot_of sb_used sb_cid (bs[i := zero_binding]) = (slot_of sb_used sb_cid bs)(c := None)"
    using bindings.slot_of_release_map [OF uq, of i] f by simp
  then show ?thesis
    using t Some bindings.release_unique [OF uq, of i]
    by (auto simp: iav_slice_rpc_unbind_def rpc_table_def fun_eq_iff binding_of_slot)
qed

lemma bind_failed: "iav_slice_rpc_bind c win u bs = (bs', rc) \<Longrightarrow> rc \<noteq> 0 \<Longrightarrow> bs' = bs"
  by (auto simp: iav_slice_rpc_bind_def split: if_splits option.splits)

interpretation rpc: cid_bindings binding_of iav_slice_rpc_bind iav_slice_rpc_unbind rpc_table
proof
  fix bs c win u
  assume t: "rpc_table bs"
  obtain bs' rc where b: "iav_slice_rpc_bind c win u bs = (bs', rc)" by fastforce
  then show "rpc_table (fst (iav_slice_rpc_bind c win u bs))"
    using bind_table_step [OF t, of c win u bs'] bind_failed [OF b] t by (cases "rc = 0") simp_all
qed (use bind_table_step unbind_table_step bind_failed in blast)+

text \<open>
  C36: The slice RPC answers from the CID the transport reports and from nothing else. After a lease is bound to a
  CID, that CID's query is answered with the window and the usable length of the lease, every other CID's query is
  answered as before; when the binding moves to another CID, or is dropped, the old CID is told \<open>ENOENT\<close>.
\<close>
theorem slice_query_follows_binding:
  assumes t: "rpc_table bs" and b: "iav_slice_rpc_bind cid win u (iav_slice_rpc_unbind old bs) = (bs', 0)"
    and d: "pb_decode req = Some \<lparr> re_major = 1, re_minor = mn, re_request_id = rid, re_body = Slice_query_request 1 \<rparr>"
  shows "slice_reply pb_decode req c bs' =
    (if c = cid then \<lparr> re_major = 1, re_minor = 0, re_request_id = rid, re_body = Slice_query_response 0 win u \<rparr>
     else if c = old then error_env rid (- ENOENT) else slice_reply pb_decode req c bs)"
proof -
  have q: "slice_reply pb_decode req c bs = (case binding_of bs c of None \<Rightarrow> error_env rid (- ENOENT)
      | Some (w, l) \<Rightarrow> \<lparr> re_major = 1, re_minor = 0, re_request_id = rid, re_body = Slice_query_response 0 w l \<rparr>)" for c bs
    using d by (simp add: slice_reply_def binding_of_def iav_slice_rpc_held_def Let_def split: option.splits)
  show ?thesis unfolding q rpc.move_cid [OF t b] by auto
qed

definition demo_query :: rpc_envelope where
  "demo_query = \<lparr> re_major = 1, re_minor = 0, re_request_id = 9, re_body = Slice_query_request 1 \<rparr>"

theorem slice_query_follows_binding_witness:
  "\<exists>bs'. iav_slice_rpc_bind 5 2 4096 (iav_slice_rpc_unbind 4 iav_slice_rpc_reset) = (bs', 0) \<and>
     slice_reply (\<lambda>_. Some demo_query) [] 5 bs' =
       \<lparr> re_major = 1, re_minor = 0, re_request_id = 9, re_body = Slice_query_response 0 2 4096 \<rparr> \<and>
     slice_reply (\<lambda>_. Some demo_query) [] 4 bs' = error_env 9 (- ENOENT)"
proof -
  have t: "rpc_table iav_slice_rpc_reset"
    using bindings.reset_unique [of 8] by (simp add: rpc_table_def iav_slice_rpc_reset_def)
  have "snd (iav_slice_rpc_bind 5 2 4096 (iav_slice_rpc_unbind 4 iav_slice_rpc_reset)) = 0" by code_simp
  then obtain bs' where b: "iav_slice_rpc_bind 5 2 4096 (iav_slice_rpc_unbind 4 iav_slice_rpc_reset) = (bs', 0)"
    by (metis prod.collapse)
  show ?thesis
    using slice_query_follows_binding [OF t b, of "\<lambda>_. Some demo_query" "[]" 0 9] b by (simp add: demo_query_def)
qed

end
