(* ===== verification/Guest_Arena.thy ===== *)
theory Guest_Arena
  imports Virt_Prelude
begin

text \<open>
  Model of \<open>guest-os/linux/amba-iav/iav_arena.c\<close>: the first-fit allocator of the guest module over its private
  slice. The linked list of blocks in offset order is a list, a block pointer is an index into it, a descriptor
  (\<open>const void *file\<close>) is a number. The user table of a block is the list of its first \<open>nusers\<close> entries.
  \<open>zalloc\<close> of the caller is given by whether it returned memory.
\<close>

section \<open>State\<close>

abbreviation (input) IAV_ARENA_ALIGN :: u64 where "IAV_ARENA_ALIGN \<equiv> 0x10000"
abbreviation (input) IAV_ARENA_MAX_N :: u32 where "IAV_ARENA_MAX_N \<equiv> 0xffffff"
abbreviation (input) IAV_ARENA_MAX_USERS :: nat where "IAV_ARENA_MAX_USERS \<equiv> 64"

abbreviation (input) EPERM :: int where "EPERM \<equiv> 1"

type_synonym descr = nat

record arena_user =
  au_file :: descr
  au_maps :: u32

record guest_blk =
  gb_vid :: u32
  gb_off :: u64
  gb_len :: u64
  gb_span :: u64
  gb_maps :: u32
  gb_users :: "arena_user list"

record guest_arena =
  ga_usable :: u64
  ga_page :: u64
  ga_next_n :: u32
  ga_nblk :: u32
  ga_used :: u64
  ga_blks :: "guest_blk list"

definition iav_arena_is_anon :: "u32 \<Rightarrow> bool" where
  "iav_arena_is_anon vid \<longleftrightarrow> vid AND 0xff = 0xff \<and> drop_bit 8 vid \<noteq> 0"

section \<open>Operations\<close>

text \<open>The rounded value, and the overflow flag of the caller.\<close>

definition arena_round_up :: "u64 \<Rightarrow> u64 \<Rightarrow> bool \<Rightarrow> u64 \<times> bool" where
  "arena_round_up v a overflow =
     (let r = v + (a - 1) in if r < v then (0, True) else (r AND NOT (a - 1), overflow))"

definition iav_arena_init :: "bool \<Rightarrow> u64 \<Rightarrow> u64 \<Rightarrow> int + guest_arena" where
  "iav_arena_init args_given usable page =
     (if \<not> args_given \<or> usable = 0 \<or> page = 0 \<or> page AND (page - 1) \<noteq> 0 \<or> page > IAV_ARENA_ALIGN then Inl (- EINVAL)
      else Inr \<lparr> ga_usable = usable, ga_page = page, ga_next_n = 1, ga_nblk = 0, ga_used = 0, ga_blks = [] \<rparr>)"

definition iav_arena_destroy :: "guest_arena \<Rightarrow> guest_arena" where
  "iav_arena_destroy a = a\<lparr> ga_blks := [], ga_nblk := 0, ga_used := 0 \<rparr>"

definition iav_arena_find :: "u32 \<Rightarrow> guest_arena \<Rightarrow> nat option" where
  "iav_arena_find vid a = (if \<not> iav_arena_is_anon vid then None else first_idx (\<lambda>b. gb_vid b = vid) (ga_blks a))"

definition iav_arena_find_at :: "u64 \<Rightarrow> guest_arena \<Rightarrow> nat option" where
  "iav_arena_find_at off a = first_idx (\<lambda>b. gb_off b = off) (ga_blks a)"

definition vid_of :: "u32 \<Rightarrow> u32" where
  "vid_of n = push_bit 8 n OR 0xff"

definition after_n :: "u32 \<Rightarrow> u32" where
  "after_n n = (if n \<ge> IAV_ARENA_MAX_N then 1 else n + 1)"

text \<open>The search for an id, with the tries still to go.\<close>

fun next_vid_loop :: "nat \<Rightarrow> guest_arena \<Rightarrow> guest_arena \<times> u32" where
  "next_vid_loop 0 a = (a, 0)"
| "next_vid_loop (Suc tries) a =
     (let n = ga_next_n a; vid = vid_of n; a1 = a\<lparr> ga_next_n := after_n n \<rparr> in
      if iav_arena_find vid a1 = None then (a1, vid) else next_vid_loop tries a1)"

definition next_vid :: "guest_arena \<Rightarrow> guest_arena \<times> u32" where
  "next_vid a = next_vid_loop (unat IAV_ARENA_MAX_N) a"

definition user_of :: "descr \<Rightarrow> guest_blk \<Rightarrow> nat option" where
  "user_of file b = first_idx (\<lambda>u. au_file u = file) (gb_users b)"

definition add_user :: "descr \<Rightarrow> guest_blk \<Rightarrow> guest_blk \<times> int" where
  "add_user file b =
     (if user_of file b \<noteq> None then (b, 0)
      else if length (gb_users b) \<ge> IAV_ARENA_MAX_USERS then (b, - EINVAL)
      else (b\<lparr> gb_users := gb_users b @ [\<lparr> au_file = file, au_maps = 0 \<rparr>] \<rparr>, 0))"

definition drop_user :: "descr \<Rightarrow> guest_blk \<Rightarrow> guest_blk" where
  "drop_user file b =
     (case user_of file b of
        None \<Rightarrow> b
      | Some i \<Rightarrow> b\<lparr> gb_users := butlast ((gb_users b)[i := last (gb_users b)]) \<rparr>)"

definition unlink_blk :: "nat \<Rightarrow> guest_arena \<Rightarrow> guest_arena" where
  "unlink_blk i a =
     (if i < length (ga_blks a) then
        a\<lparr> ga_blks := take i (ga_blks a) @ drop (Suc i) (ga_blks a), ga_nblk := ga_nblk a - 1,
           ga_used := ga_used a - gb_span (ga_blks a ! i) \<rparr>
      else a)"

text \<open>First fit: the position in the list and the offset of the lowest gap that holds the span.\<close>

fun first_fit :: "u64 \<Rightarrow> u64 \<Rightarrow> guest_blk list \<Rightarrow> nat \<times> u64" where
  "first_fit span at [] = (0, at)"
| "first_fit span at (b # bs) =
     (if gb_off b \<ge> at \<and> gb_off b - at \<ge> span then (0, at)
      else let (i, at') = first_fit span (gb_off b + gb_span b) bs in (Suc i, at'))"

definition iav_arena_alloc :: "bool \<Rightarrow> bool \<Rightarrow> descr \<Rightarrow> u64 \<Rightarrow> guest_arena \<Rightarrow> guest_arena \<times> (int + u32 \<times> u64 \<times> u64)" where
  "iav_arena_alloc args_given zalloc_ok file req a =
     (if \<not> args_given then (a, Inl (- EINVAL))
      else if req = 0 then (a, Inl (- EINVAL))
      else
        let (l, ov) = arena_round_up req (ga_page a) False;
            (span, ov) = arena_round_up l IAV_ARENA_ALIGN ov
        in if ov \<or> span > ga_usable a then (a, Inl (- EFAULT))
           else
             let (i, at) = first_fit span 0 (ga_blks a) in
             if at > ga_usable a \<or> ga_usable a - at < span then (a, Inl (- EFAULT))
             else if \<not> zalloc_ok then (a, Inl (- EFAULT))
             else
               let (a1, vid) = next_vid a in
               if vid = 0 then (a1, Inl (- EFAULT))
               else
                 let nb = \<lparr> gb_vid = vid, gb_off = at, gb_len = l, gb_span = span, gb_maps = 0,
                            gb_users = [\<lparr> au_file = file, au_maps = 0 \<rparr>] \<rparr>
                 in (a1\<lparr> ga_blks := take i (ga_blks a1) @ nb # drop i (ga_blks a1), ga_nblk := ga_nblk a1 + 1,
                         ga_used := ga_used a1 + span \<rparr>, Inr (vid, at, l)))"

definition iav_arena_free :: "u32 \<Rightarrow> guest_arena \<Rightarrow> guest_arena \<times> int" where
  "iav_arena_free vid a =
     (case iav_arena_find vid a of
        None \<Rightarrow> (a, - EINVAL)
      | Some i \<Rightarrow> if gb_maps (ga_blks a ! i) \<noteq> 0 then (a, - EFAULT) else (unlink_blk i a, 0))"

definition at_blk :: "nat \<Rightarrow> guest_blk \<Rightarrow> guest_arena \<Rightarrow> guest_arena" where
  "at_blk i b a = a\<lparr> ga_blks := (ga_blks a)[i := b] \<rparr>"

definition iav_arena_register :: "u32 \<Rightarrow> descr \<Rightarrow> guest_arena \<Rightarrow> guest_arena \<times> int" where
  "iav_arena_register vid file a =
     (case iav_arena_find vid a of
        None \<Rightarrow> (a, - EINVAL)
      | Some i \<Rightarrow> (let (b, rc) = add_user file (ga_blks a ! i) in (at_blk i b a, rc)))"

definition iav_arena_unregister :: "u32 \<Rightarrow> descr \<Rightarrow> guest_arena \<Rightarrow> guest_arena \<times> int" where
  "iav_arena_unregister vid file a =
     (case iav_arena_find vid a of
        None \<Rightarrow> (a, - EINVAL)
      | Some i \<Rightarrow>
          let b = ga_blks a ! i in
          if (case user_of file b of None \<Rightarrow> False | Some k \<Rightarrow> au_maps (gb_users b ! k) \<noteq> 0) then (a, - EPERM)
          else (at_blk i (drop_user file b) a, 0))"

text \<open>\<open>blk\<close> is the block pointer, \<open>None\<close> for NULL.\<close>

definition iav_arena_map :: "nat option \<Rightarrow> descr \<Rightarrow> guest_arena \<Rightarrow> guest_arena \<times> int" where
  "iav_arena_map blk file a =
     (case blk of
        None \<Rightarrow> (a, - EINVAL)
      | Some i \<Rightarrow>
          let (b, rc) = add_user file (ga_blks a ! i) in
          if rc \<noteq> 0 then (a, - EINVAL)
          else case user_of file b of
            None \<Rightarrow> (a, - EINVAL)
          | Some k \<Rightarrow>
              (at_blk i (b\<lparr> gb_users := (gb_users b)[k := (gb_users b ! k)\<lparr> au_maps := au_maps (gb_users b ! k) + 1 \<rparr>],
                            gb_maps := gb_maps b + 1 \<rparr>) a, 0))"

definition iav_arena_unmap :: "nat option \<Rightarrow> descr \<Rightarrow> guest_arena \<Rightarrow> guest_arena" where
  "iav_arena_unmap blk file a =
     (case blk of
        None \<Rightarrow> a
      | Some i \<Rightarrow>
          let b = ga_blks a ! i;
              b1 = (case user_of file b of
                      None \<Rightarrow> b
                    | Some k \<Rightarrow>
                        if au_maps (gb_users b ! k) \<noteq> 0
                        then b\<lparr> gb_users := (gb_users b)[k := (gb_users b ! k)\<lparr> au_maps := au_maps (gb_users b ! k) - 1 \<rparr>] \<rparr>
                        else b);
              b2 = (if gb_maps b1 \<noteq> 0 then b1\<lparr> gb_maps := gb_maps b1 - 1 \<rparr> else b1)
          in at_blk i b2 a)"

text \<open>The second loop of a release: every block without a user and a mapping is unlinked.\<close>

fun sweep :: "nat \<Rightarrow> nat \<Rightarrow> guest_arena \<Rightarrow> guest_arena" where
  "sweep 0 i a = a"
| "sweep (Suc n) i a =
     (if gb_users (ga_blks a ! i) = [] \<and> gb_maps (ga_blks a ! i) = 0 then sweep n i (unlink_blk i a)
      else sweep n (Suc i) a)"

definition iav_arena_release_file :: "descr \<Rightarrow> guest_arena \<Rightarrow> guest_arena" where
  "iav_arena_release_file file a =
     (let a1 = a\<lparr> ga_blks := map (drop_user file) (ga_blks a) \<rparr> in sweep (length (ga_blks a1)) 0 a1)"

section \<open>Runs\<close>

datatype arena_op =
    Arena_alloc bool descr u64
  | Arena_free u32
  | Arena_register u32 descr
  | Arena_unregister u32 descr
  | Arena_map nat descr
  | Arena_unmap nat descr
  | Arena_release descr
  | Arena_destroy

text \<open>A block pointer always is the one of a live block: the callers get it from \<open>find\<close>.\<close>

definition arena_step :: "arena_op \<Rightarrow> guest_arena \<Rightarrow> guest_arena" where
  "arena_step p a =
     (case p of
        Arena_alloc z file req \<Rightarrow> fst (iav_arena_alloc True z file req a)
      | Arena_free vid \<Rightarrow> fst (iav_arena_free vid a)
      | Arena_register vid file \<Rightarrow> fst (iav_arena_register vid file a)
      | Arena_unregister vid file \<Rightarrow> fst (iav_arena_unregister vid file a)
      | Arena_map i file \<Rightarrow> if i < length (ga_blks a) then fst (iav_arena_map (Some i) file a) else a
      | Arena_unmap i file \<Rightarrow> if i < length (ga_blks a) then iav_arena_unmap (Some i) file a else a
      | Arena_release file \<Rightarrow> iav_arena_release_file file a
      | Arena_destroy \<Rightarrow> iav_arena_destroy a)"

definition arena_run :: "arena_op list \<Rightarrow> guest_arena \<Rightarrow> guest_arena" where
  "arena_run ps a = foldl (\<lambda>a p. arena_step p a) a ps"

end
