(* ===== verification/Spec2Isabelle.thy ===== *)
theory Spec2Isabelle
  imports Mem_Pool_Props Slice_Lease_Aux Sha256_Spec Low_Lease_Durable Slice_Window Guest_Arena
begin

text \<open>
  Verification of the host side of amba-virt.
\<close>

end
